(* ===== verification/Prelude.thy ===== *)
theory Prelude
  imports Main
begin

text \<open>
  Shared vocabulary of the development.

  \<^item> \<open>result\<close>: Rust's \<open>Result<T, E>\<close> as the sum \<open>'e + 'a\<close> (\<open>Inl\<close> is \<open>Err\<close>), with
    \<open>rbind\<close> for the \<open>?\<close> operator, \<open>guard\<close> for \<open>if bad { return Err(..) }\<close>, \<open>map_err\<close>
    and \<open>each\<close> for a \<open>for\<close> loop whose body ends in \<open>?\<close>.
  \<^item> Strings: a Rust \<open>String\<close> is its sequence of UTF-8 bytes, one \<^typ>\<open>char\<close> per byte,
    so \<open>length\<close> is Rust's \<open>str::len\<close>. \<open>join\<close>, \<open>split_once\<close>, \<open>strip_prefix\<close> and
    \<open>show_nat\<close> are the standard-library functions of those names (\<open>show_nat\<close> is the
    \<open>Display\<close> of an unsigned integer).
  \<^item> Messages: an error message is kept as its format string together with its arguments
    and is not rendered (\<open>{:?}\<close> would need Rust's escape rules); see \<open>msg\<close>.
  \<^item> \<open>u64_max\<close> and the \<open>i64\<close> operations: Rust integers as \<^typ>\<open>int\<close> or \<^typ>\<open>nat\<close> with the
    wrap-around written out where the code can reach it.
\<close>

named_theorems result_simps \<open>rewriting of results: bind, guards and loops\<close>
named_theorems qm_simps \<open>counting the placeholders of a piece of SQL text\<close>

subsection \<open>Results\<close>

type_synonym ('e, 'a) result = "'e + 'a"

definition rbind :: "('e, 'a) result \<Rightarrow> ('a \<Rightarrow> ('e, 'b) result) \<Rightarrow> ('e, 'b) result" where
  "rbind m f = (case m of Inl e \<Rightarrow> Inl e | Inr x \<Rightarrow> f x)"

lemma rbind_simps [simp, result_simps]:
  "rbind (Inl e) f = Inl e"
  "rbind (Inr x) f = f x"
  by (simp_all add: rbind_def)

lemma rbind_Inr_iff [result_simps]:
  "rbind m f = Inr y \<longleftrightarrow> (\<exists>x. m = Inr x \<and> f x = Inr y)"
  by (cases m) simp_all

lemma rbind_Inl_iff:
  "rbind m f = Inl e \<longleftrightarrow> m = Inl e \<or> (\<exists>x. m = Inr x \<and> f x = Inl e)"
  by (cases m) simp_all

lemma rbind_assoc: "rbind (rbind m f) g = rbind m (\<lambda>x. rbind (f x) g)"
  by (cases m) simp_all

lemma rbind_cong [fundef_cong]:
  "m = m' \<Longrightarrow> (\<And>x. m' = Inr x \<Longrightarrow> f x = f' x) \<Longrightarrow> rbind m f = rbind m' f'"
  by (cases m') simp_all

definition guard :: "bool \<Rightarrow> 'e \<Rightarrow> ('e, unit) result" where
  "guard b e = (if b then Inr () else Inl e)"

lemma guard_simps [simp, result_simps]:
  "guard True e = Inr ()"
  "guard False e = Inl e"
  "guard b e = Inr u \<longleftrightarrow> b"
  by (simp_all add: guard_def)

definition map_err :: "('e \<Rightarrow> 'f) \<Rightarrow> ('e, 'a) result \<Rightarrow> ('f, 'a) result" where
  "map_err f r = (case r of Inl e \<Rightarrow> Inl (f e) | Inr x \<Rightarrow> Inr x)"

lemma map_err_simps [simp, result_simps]:
  "map_err f (Inl e) = Inl (f e)"
  "map_err f (Inr x) = Inr x"
  "map_err f r = Inr y \<longleftrightarrow> r = Inr y"
  by (cases r; simp add: map_err_def)+

text \<open>\<open>opt.ok_or_else(..)\<close>\<close>

definition ok_or :: "'e \<Rightarrow> 'a option \<Rightarrow> ('e, 'a) result" where
  "ok_or e x = (case x of None \<Rightarrow> Inl e | Some a \<Rightarrow> Inr a)"

lemma ok_or_simps [simp, result_simps]:
  "ok_or e None = Inl e"
  "ok_or e (Some a) = Inr a"
  "ok_or e x = Inr a \<longleftrightarrow> x = Some a"
  by (cases x; simp add: ok_or_def)+

text \<open>\<open>for x in xs { f(x)?; }\<close>\<close>

fun each :: "('a \<Rightarrow> ('e, unit) result) \<Rightarrow> 'a list \<Rightarrow> ('e, unit) result" where
  "each f [] = Inr ()"
| "each f (x # xs) = rbind (f x) (\<lambda>_. each f xs)"

lemma each_Inr_iff [result_simps]: "each f xs = Inr u \<longleftrightarrow> (\<forall>x \<in> set xs. f x = Inr ())"
  by (induction xs) (auto simp: rbind_Inr_iff)

lemma each_cong [fundef_cong]:
  "xs = ys \<Longrightarrow> (\<And>x. x \<in> set ys \<Longrightarrow> f x = g x) \<Longrightarrow> each f xs = each g ys"
  by (induction xs arbitrary: ys) (auto intro!: rbind_cong)

lemma each_append: "each f (xs @ ys) = rbind (each f xs) (\<lambda>_. each f ys)"
  by (induction xs) (simp_all add: rbind_assoc)

definition is_ok :: "('e, 'a) result \<Rightarrow> bool" where
  "is_ok r = (case r of Inl _ \<Rightarrow> False | Inr _ \<Rightarrow> True)"

lemma is_ok_simps [simp]: "\<not> is_ok (Inl e)" "is_ok (Inr x)"
  by (simp_all add: is_ok_def)

lemma is_ok_iff: "is_ok r \<longleftrightarrow> (\<exists>x. r = Inr x)"
  by (cases r) simp_all

lemma not_is_ok_iff: "\<not> is_ok r \<longleftrightarrow> (\<exists>e. r = Inl e)"
  by (cases r) simp_all

lemma find_append: "find P (xs @ ys) = (case find P xs of Some x \<Rightarrow> Some x | None \<Rightarrow> find P ys)"
  by (induction xs) auto

subsection \<open>Messages\<close>

text \<open>
  \<open>Msg fmt args\<close> is \<open>format!(fmt, args..)\<close>: the format string as the source writes it and
  the values interpolated into it, in order. An argument that is itself an error
  (\<open>{e}\<close>) is the message of that error.
\<close>

datatype msg = Msg string "msg_arg list"
  and msg_arg = AStr string | ANat nat | AMsg msg

subsection \<open>Strings\<close>

fun join :: "string \<Rightarrow> string list \<Rightarrow> string" where
  "join sep [] = []"
| "join sep [x] = x"
| "join sep (x # y # ys) = x @ sep @ join sep (y # ys)"

lemma join_Cons: "join sep (x # xs) = (if xs = [] then x else x @ sep @ join sep xs)"
  by (cases xs) simp_all

lemma join_append:
  "xs \<noteq> [] \<Longrightarrow> ys \<noteq> [] \<Longrightarrow> join sep (xs @ ys) = join sep xs @ sep @ join sep ys"
  by (induction xs) (auto simp: join_Cons)

lemma join_singletons:
  "xs \<noteq> [] \<Longrightarrow> join sep (xs @ [y]) = join sep xs @ sep @ y"
  by (simp add: join_append)

lemma set_join: "set (join sep xs) \<subseteq> set sep \<union> (\<Union>x \<in> set xs. set x)"
  by (induction xs) (auto simp: join_Cons)

text \<open>\<open>s.split_once(c)\<close>: split at the first occurrence, dropping it.\<close>

fun split_once :: "char \<Rightarrow> string \<Rightarrow> (string \<times> string) option" where
  "split_once c [] = None"
| "split_once c (x # xs) =
     (if x = c then Some ([], xs)
      else case split_once c xs of None \<Rightarrow> None | Some (a, b) \<Rightarrow> Some (x # a, b))"

lemma split_once_Some_iff:
  "split_once c s = Some (a, b) \<longleftrightarrow> s = a @ c # b \<and> c \<notin> set a"
proof (induction s arbitrary: a)
  case Nil
  then show ?case by simp
next
  case (Cons x xs)
  show ?case
  proof (cases "x = c")
    case True
    then show ?thesis by (cases a) auto
  next
    case False
    then have "split_once c (x # xs) = Some (a, b) \<longleftrightarrow>
        (\<exists>a'. a = x # a' \<and> split_once c xs = Some (a', b))"
      by (auto split: option.split)
    then show ?thesis unfolding Cons.IH using False by (cases a) auto
  qed
qed

lemma split_once_None_iff: "split_once c s = None \<longleftrightarrow> c \<notin> set s"
  by (induction s) (auto split: option.splits)

text \<open>\<open>s.strip_prefix(p)\<close>\<close>

fun strip_prefix :: "string \<Rightarrow> string \<Rightarrow> string option" where
  "strip_prefix [] s = Some s"
| "strip_prefix (p # ps) [] = None"
| "strip_prefix (p # ps) (x # xs) = (if p = x then strip_prefix ps xs else None)"

lemma strip_prefix_Some_iff: "strip_prefix p s = Some r \<longleftrightarrow> s = p @ r"
  by (induction p s rule: strip_prefix.induct) auto

text \<open>Decimal rendering of an unsigned integer.\<close>

definition digit_char :: "nat \<Rightarrow> char" where
  "digit_char d = ''0123456789'' ! d"

fun show_nat :: "nat \<Rightarrow> string" where
  "show_nat n =
     (if n < 10 then [digit_char n] else show_nat (n div 10) @ [digit_char (n mod 10)])"

declare show_nat.simps [simp del]

lemma digit_char_in: "d < 10 \<Longrightarrow> digit_char d \<in> set ''0123456789''"
  unfolding digit_char_def by (rule nth_mem) simp

lemma set_show_nat: "set (show_nat n) \<subseteq> set ''0123456789''"
proof (induction n rule: show_nat.induct)
  case (1 n)
  show ?case
  proof (cases "n < 10")
    case True
    then show ?thesis using digit_char_in [of n] by (subst show_nat.simps) simp
  next
    case False
    with 1 digit_char_in [of "n mod 10"] show ?thesis by (subst show_nat.simps) simp
  qed
qed

lemma show_nat_nonempty [simp]: "show_nat n \<noteq> []"
  by (subst show_nat.simps) simp

subsection \<open>Placeholders of a piece of SQL text\<close>

definition qmarks :: "string \<Rightarrow> nat" where
  "qmarks s = length (filter (\<lambda>c. c = CHR ''?'') s)"

lemma qmarks_simps [simp, qm_simps]:
  "qmarks [] = 0"
  "qmarks (c # s) = (if c = CHR ''?'' then Suc (qmarks s) else qmarks s)"
  "qmarks (s @ t) = qmarks s + qmarks t"
  by (simp_all add: qmarks_def)

lemma qmarks_0_iff: "qmarks s = 0 \<longleftrightarrow> CHR ''?'' \<notin> set s"
  by (induction s) auto

lemma qmarks_show_nat [simp, qm_simps]: "qmarks (show_nat n) = 0"
  using set_show_nat [of n] by (auto simp: qmarks_0_iff)

lemma qmarks_join: "qmarks (join sep xs) = sum_list (map qmarks xs) + qmarks sep * (length xs - 1)"
  by (induction xs) (auto simp: join_Cons neq_Nil_conv algebra_simps)

subsection \<open>Rust integers\<close>

abbreviation u64_max :: nat where
  "u64_max \<equiv> 18446744073709551615"

abbreviation i64_max :: int where
  "i64_max \<equiv> 9223372036854775807"

abbreviation i64_min :: int where
  "i64_min \<equiv> - 9223372036854775808"

definition in_i64 :: "int \<Rightarrow> bool" where
  "in_i64 x \<longleftrightarrow> i64_min \<le> x \<and> x \<le> i64_max"

text \<open>Two's complement wrap-around of an \<open>i64\<close> result (a release build does not trap).\<close>

definition wrap_i64 :: "int \<Rightarrow> int" where
  "wrap_i64 x = (x + 9223372036854775808) mod 18446744073709551616 - 9223372036854775808"

lemma wrap_i64_id [simp]: "in_i64 x \<Longrightarrow> wrap_i64 x = x"
  by (simp add: wrap_i64_def in_i64_def)

lemma in_i64_wrap [simp]: "in_i64 (wrap_i64 x)"
proof -
  have "0 \<le> (x + 9223372036854775808) mod 18446744073709551616"
    and "(x + 9223372036854775808) mod 18446744073709551616 < 18446744073709551616"
    by simp_all
  then show ?thesis unfolding in_i64_def wrap_i64_def by linarith
qed

end
