(* ===== verification/Core_Ident.thy ===== *)
theory Core_Ident
  imports Prelude "HOL-Library.Char_ord"
begin

text \<open>
  \<open>crates/core/src/{error,ident,feature,dataset,snapshot}.rs\<close>: the error type every crate
  shares, the two identifier allowlists, the split of a namespaced feature name, and the
  row types that travel between crates. An identifier is what the compiler writes
  unquoted into SQL, so \<open>validate_ident\<close> is the injection barrier.
\<close>

subsection \<open>Errors\<close>

text \<open>A boxed upstream error is carried as its message.\<close>

datatype core_error =
    Storage msg
  | Execution msg
  | Ingestion msg
  | WriterAlreadyHeld
  | InvalidInput msg
  | CatalogueUnavailable

text \<open>The \<open>#[error(..)]\<close> text of each variant (its \<open>Display\<close>).\<close>

fun display_error :: "core_error \<Rightarrow> msg" where
  "display_error (Storage e) = Msg ''storage failure: {0}'' [AMsg e]"
| "display_error (Execution e) = Msg ''execution failure: {0}'' [AMsg e]"
| "display_error (Ingestion e) = Msg ''ingestion failure: {0}'' [AMsg e]"
| "display_error WriterAlreadyHeld =
     Msg ''writer already held: a single IngestionActor owns the catalog'' []"
| "display_error (InvalidInput m) = Msg ''invalid input: {0}'' [AMsg m]"
| "display_error CatalogueUnavailable = Msg ''semantic catalogue unavailable'' []"

subsection \<open>Identifier allowlists\<close>

text \<open>The character classes \<open>[a-zA-Z0-9_]\<close> and \<open>[a-zA-Z0-9_.]\<close> of the two regular expressions.\<close>

definition in_range :: "char \<Rightarrow> char \<Rightarrow> char \<Rightarrow> bool" where
  "in_range lo hi c \<longleftrightarrow> lo \<le> c \<and> c \<le> hi"

definition ident_char :: "char \<Rightarrow> bool" where
  "ident_char c \<longleftrightarrow>
     in_range CHR ''a'' CHR ''z'' c \<or> in_range CHR ''A'' CHR ''Z'' c \<or>
     in_range CHR ''0'' CHR ''9'' c \<or> c = CHR ''_''"

definition feature_name_char :: "char \<Rightarrow> bool" where
  "feature_name_char c \<longleftrightarrow> ident_char c \<or> c = CHR ''.''"

definition IDENT_RE :: "string \<Rightarrow> bool" where
  "IDENT_RE s \<longleftrightarrow> 1 \<le> length s \<and> length s \<le> 64 \<and> list_all ident_char s"

definition FEATURE_NAME_RE :: "string \<Rightarrow> bool" where
  "FEATURE_NAME_RE s \<longleftrightarrow> 1 \<le> length s \<and> length s \<le> 64 \<and> list_all feature_name_char s"

definition validate_ident :: "string \<Rightarrow> (core_error, unit) result" where
  "validate_ident name =
     (if IDENT_RE name then Inr ()
      else Inl (InvalidInput
        (Msg ''invalid identifier {name:?}: must match ^[a-zA-Z0-9_-]{{1,64}}$'' [AStr name])))"

definition validate_feature_name :: "string \<Rightarrow> (core_error, unit) result" where
  "validate_feature_name name =
     (if FEATURE_NAME_RE name then Inr ()
      else Inl (InvalidInput
        (Msg ''invalid feature name {name:?}: must match ^[a-zA-Z0-9_.-]{{1,64}}$'' [AStr name])))"

lemma validate_ident_ok [simp, result_simps]: "validate_ident s = Inr u \<longleftrightarrow> IDENT_RE s"
  by (simp add: validate_ident_def)

lemma validate_feature_name_ok [simp, result_simps]:
  "validate_feature_name s = Inr u \<longleftrightarrow> FEATURE_NAME_RE s"
  by (simp add: validate_feature_name_def)

lemma IDENT_RE_char: "IDENT_RE s \<Longrightarrow> c \<in> set s \<Longrightarrow> ident_char c"
  by (auto simp: IDENT_RE_def list_all_iff)

lemma not_ident_char [simp]:
  "\<not> ident_char CHR ''?''" "\<not> ident_char CHR 0x27" "\<not> ident_char CHR '' ''"
  "\<not> ident_char CHR '';''" "\<not> ident_char CHR ''.''" "\<not> ident_char CHR ''-''"
  by (simp_all add: ident_char_def in_range_def)

lemma qmarks_ident [qm_simps]: "IDENT_RE s \<Longrightarrow> qmarks s = 0"
  using IDENT_RE_char by (fastforce simp: qmarks_0_iff)

lemma IDENT_RE_feature_name: "IDENT_RE s \<Longrightarrow> FEATURE_NAME_RE s"
  by (auto simp: IDENT_RE_def FEATURE_NAME_RE_def feature_name_char_def list_all_iff)

subsection \<open>Namespaced feature names\<close>

definition split_feature_name :: "string \<Rightarrow> (core_error, string \<times> string) result" where
  "split_feature_name name =
     (case split_once CHR ''.'' name of
        None \<Rightarrow> Inl (InvalidInput
          (Msg (''feature name {name:?} must be namespaced 'family.short'' @ [CHR 0x27]) [AStr name]))
      | Some (family, short) \<Rightarrow>
          rbind (map_err (\<lambda>e. InvalidInput (Msg ''feature family: {e}'' [AMsg (display_error e)]))
                   (validate_ident family)) (\<lambda>_.
          rbind (map_err (\<lambda>e. InvalidInput (Msg ''feature short name: {e}'' [AMsg (display_error e)]))
                   (validate_ident short)) (\<lambda>_.
          Inr (family, short))))"

lemma split_feature_name_iff [result_simps]:
  "split_feature_name name = Inr (family, short) \<longleftrightarrow>
     name = family @ ''.'' @ short \<and> IDENT_RE family \<and> IDENT_RE short"
proof
  assume "split_feature_name name = Inr (family, short)"
  then show "name = family @ ''.'' @ short \<and> IDENT_RE family \<and> IDENT_RE short"
    by (auto simp: split_feature_name_def result_simps split_once_Some_iff split: option.splits)
next
  assume r: "name = family @ ''.'' @ short \<and> IDENT_RE family \<and> IDENT_RE short"
  then have "CHR ''.'' \<notin> set family"
    using IDENT_RE_char by fastforce
  with r have "split_once CHR ''.'' name = Some (family, short)"
    by (simp add: split_once_Some_iff)
  with r show "split_feature_name name = Inr (family, short)"
    by (simp add: split_feature_name_def result_simps)
qed

lemma split_feature_name_InrE:
  assumes "split_feature_name name = Inr p"
  obtains family short where
    "p = (family, short)" "name = family @ ''.'' @ short" "IDENT_RE family" "IDENT_RE short"
  using assms by (cases p) (auto simp: split_feature_name_iff)

subsection \<open>Rows that travel between crates\<close>

text \<open>\<open>f64\<close> values are only carried, never computed with, by the code modelled over them; a
  value is its IEEE-754 bit pattern, kept as a number below \<open>2 ^ 64\<close>.\<close>

type_synonym f64_bits = nat

record dataset =
  ds_system :: string
  ds_entity :: string

record snapshot_spec =
  sp_snapshot_id :: string
  sp_campaign_id :: string
  sp_as_of_ts :: string

record feature_row =
  fr_user_id :: string
  fr_feature_name :: string
  fr_num_value :: f64_bits
  fr_as_of_ts :: string
  fr_producer_id :: string

end
