(* ===== verification/Json.thy ===== *)
theory Json
  imports Core_Ident
begin

text \<open>
  The part of \<open>serde_json::Value\<close> the program uses: the value type, the numeric accessors
  and member lookup. A number is an unsigned 64-bit integer, a negative 64-bit integer or
  an IEEE double (kept as its bit pattern). Objects are the association list of their
  members. \<open>f64_of_nat\<close> is the standard \<open>as f64\<close> conversion (round half to even) on bit
  patterns.
\<close>

datatype json_number = PosInt nat | NegInt int | Float f64_bits

datatype json =
    JNull
  | JBool bool
  | JNumber json_number
  | JString string
  | JArray "json list"
  | JObject "(string \<times> json) list"

fun bit_length :: "nat \<Rightarrow> nat" where
  "bit_length n = (if n = 0 then 0 else Suc (bit_length (n div 2)))"

declare bit_length.simps [simp del]

definition round_half_even :: "nat \<Rightarrow> nat \<Rightarrow> nat" where
  "round_half_even n s =
     (let q = n div 2 ^ s; r = n mod 2 ^ s
      in if 2 * r > 2 ^ s \<or> 2 * r = 2 ^ s \<and> odd q then q + 1 else q)"

definition f64_of_nat :: "nat \<Rightarrow> f64_bits" where
  "f64_of_nat n =
     (if n = 0 then 0
      else let e = bit_length n - 1
           in if e \<le> 52 then (1023 + e) * 2 ^ 52 + (n * 2 ^ (52 - e) - 2 ^ 52)
              else (1023 + e) * 2 ^ 52 + (round_half_even n (e - 52) - 2 ^ 52))"

definition f64_of_int :: "int \<Rightarrow> f64_bits" where
  "f64_of_int i = (if i < 0 then 2 ^ 63 + f64_of_nat (nat (- i)) else f64_of_nat (nat i))"

lemma f64_of_nat_1: "f64_of_nat 1 = 4607182418800017408"
  by (simp add: f64_of_nat_def bit_length.simps)

fun num_as_i64 :: "json_number \<Rightarrow> int option" where
  "num_as_i64 (PosInt n) = (if int n \<le> i64_max then Some (int n) else None)"
| "num_as_i64 (NegInt i) = Some i"
| "num_as_i64 (Float f) = None"

fun num_as_f64 :: "json_number \<Rightarrow> f64_bits option" where
  "num_as_f64 (PosInt n) = Some (f64_of_nat n)"
| "num_as_f64 (NegInt i) = Some (f64_of_int i)"
| "num_as_f64 (Float f) = Some f"

fun as_i64 :: "json \<Rightarrow> int option" where
  "as_i64 (JNumber n) = num_as_i64 n"
| "as_i64 _ = None"

fun as_u64 :: "json \<Rightarrow> nat option" where
  "as_u64 (JNumber (PosInt n)) = Some n"
| "as_u64 _ = None"

fun as_str :: "json \<Rightarrow> string option" where
  "as_str (JString s) = Some s"
| "as_str _ = None"

fun as_array :: "json \<Rightarrow> json list option" where
  "as_array (JArray xs) = Some xs"
| "as_array _ = None"

fun json_get :: "json \<Rightarrow> string \<Rightarrow> json option" where
  "json_get (JObject ms) k = map_of ms k"
| "json_get _ k = None"

fun as_bool :: "json \<Rightarrow> bool option" where
  "as_bool (JBool b) = Some b"
| "as_bool _ = None"

fun as_f64 :: "json \<Rightarrow> f64_bits option" where
  "as_f64 (JNumber n) = num_as_f64 n"
| "as_f64 _ = None"

text \<open>\<open>v["key"]\<close> and \<open>v[0]\<close> of a JSON value, null where there is no such member; \<open>row.get(i)\<close>.\<close>

definition json_key :: "json \<Rightarrow> string \<Rightarrow> json" where
  "json_key v k = (case json_get v k of None \<Rightarrow> JNull | Some x \<Rightarrow> x)"

definition json_nth :: "json \<Rightarrow> nat \<Rightarrow> json" where
  "json_nth v i = (case as_array v of None \<Rightarrow> JNull | Some xs \<Rightarrow> if i < length xs then xs ! i else JNull)"

definition get_cell :: "json list \<Rightarrow> nat \<Rightarrow> json option" where
  "get_cell row i = (if i < length row then Some (row ! i) else None)"

lemma as_i64_or_f64: "num_as_i64 n = None \<Longrightarrow> num_as_f64 n \<noteq> None"
  by (cases n) simp_all

end
