(* ===== verification/Query_Ast.thy ===== *)
theory Query_Ast
  imports Json
begin

text \<open>
  \<open>crates/query/src/{ast,error}.rs\<close>: the DSL the agent composes, the query layer's errors,
  and the collectors of the raw columns and feature names a segment mentions (the input of
  catalogue enforcement). \<open>SegmentQuery\<close> and \<open>Op\<close> are mutually recursive through \<open>SetOp\<close>.
\<close>

subsection \<open>The AST\<close>

datatype cmp = Eq | Ne | Lt | Le | Gt | Ge | In | NotIn | Like | NotLike

datatype set_op_kind = Intersect | Union_op | Minus

datatype predicate = Predicate (p_column: string) (p_op: cmp) (p_value: json)

datatype jit_metric =
    JCount dataset
  | JSum dataset string
  | JAvg dataset string
  | JMin dataset string
  | JMax dataset string

datatype segment_query =
    SegmentQuery (q_source: dataset) (q_key: string) (q_ops: "op list") (q_as_of: "string option")
  and op =
    Filter predicate
  | Recency dataset string string nat "predicate option"
  | Lapsed dataset string string nat "predicate option"
  | SetOp set_op_kind segment_query
  | Exclude string
  | Feature string cmp f64_bits
  | Derive string jit_metric
  | Similar
  | Characterize dataset string string string

text \<open>\<open>QueryError\<close>; \<open>Guardrail rule limit\<close> carries the rule that fired and its limit.\<close>

datatype query_error =
    InvalidDsl msg
  | Guardrail string string
  | TooLarge
  | SurvivorUnbounded
  | QExecution core_error

subsection \<open>Columns and features a segment mentions\<close>

record referenced_column =
  rc_system :: string
  rc_entity :: string
  rc_column :: string

definition col_ref :: "dataset \<Rightarrow> string \<Rightarrow> referenced_column" where
  "col_ref d c = \<lparr>rc_system = ds_system d, rc_entity = ds_entity d, rc_column = c\<rparr>"

fun metric_event :: "jit_metric \<Rightarrow> dataset" where
  "metric_event (JCount e) = e"
| "metric_event (JSum e c) = e"
| "metric_event (JAvg e c) = e"
| "metric_event (JMin e c) = e"
| "metric_event (JMax e c) = e"

fun metric_column :: "jit_metric \<Rightarrow> string option" where
  "metric_column (JCount e) = None"
| "metric_column (JSum e c) = Some c"
| "metric_column (JAvg e c) = Some c"
| "metric_column (JMin e c) = Some c"
| "metric_column (JMax e c) = Some c"

text \<open>\<open>collect_columns\<close> pushes onto the vector \<open>out\<close>; \<open>collect_op\<close> is the body of its loop.\<close>

fun collect_columns :: "segment_query \<Rightarrow> referenced_column list \<Rightarrow> referenced_column list"
  and collect_ops :: "dataset \<Rightarrow> op list \<Rightarrow> referenced_column list \<Rightarrow> referenced_column list"
  and collect_op :: "dataset \<Rightarrow> op \<Rightarrow> referenced_column list \<Rightarrow> referenced_column list"
where
  "collect_columns (SegmentQuery src key ops as_of) out =
     collect_ops src ops (out @ [col_ref src key])"
| "collect_ops src [] out = out"
| "collect_ops src (x # xs) out = collect_ops src xs (collect_op src x out)"
| "collect_op src (Filter p) out = out @ [col_ref src (p_column p)]"
| "collect_op src (Recency ev user_key ts_column within_days p) out =
     out @ [col_ref ev user_key, col_ref ev ts_column] @
     (case p of None \<Rightarrow> [] | Some p \<Rightarrow> [col_ref ev (p_column p)])"
| "collect_op src (Lapsed ev user_key ts_column within_days p) out =
     out @ [col_ref ev user_key, col_ref ev ts_column] @
     (case p of None \<Rightarrow> [] | Some p \<Rightarrow> [col_ref ev (p_column p)])"
| "collect_op src (SetOp k other) out = collect_columns other out"
| "collect_op src (Derive n m) out =
     out @ [col_ref (metric_event m) ''user_id''] @
     (case metric_column m of None \<Rightarrow> [] | Some c \<Rightarrow> [col_ref (metric_event m) c])"
| "collect_op src (Feature n c v) out = out"
| "collect_op src (Exclude c) out = out"
| "collect_op src Similar out = out"
| "collect_op src (Characterize ev ts mon cat) out =
     out @ map (col_ref ev) [''user_id'', ts, mon, cat]"

definition referenced_columns :: "segment_query \<Rightarrow> referenced_column list" where
  "referenced_columns q = collect_columns q []"

fun collect_features :: "segment_query \<Rightarrow> string list \<Rightarrow> string list"
  and collect_features_ops :: "op list \<Rightarrow> string list \<Rightarrow> string list"
where
  "collect_features (SegmentQuery src key ops as_of) out = collect_features_ops ops out"
| "collect_features_ops [] out = out"
| "collect_features_ops (x # xs) out =
     collect_features_ops xs
       (case x of Feature n c v \<Rightarrow> out @ [n] | SetOp k other \<Rightarrow> collect_features other out | _ \<Rightarrow> out)"

definition referenced_features :: "segment_query \<Rightarrow> string list" where
  "referenced_features q = collect_features q []"

text \<open>The collectors only append, so their result does not depend on what \<open>out\<close> held.\<close>

lemma collect_columns_append_aux:
  "\<forall>out. collect_columns q out = out @ collect_columns q []"
  "\<forall>out. collect_op src x out = out @ collect_op src x []"
proof (induction q and x arbitrary: and src)
  case (SegmentQuery s k ops a)
  have "\<forall>out. collect_ops s ops out = out @ collect_ops s ops []"
    using SegmentQuery
  proof (induction ops)
    case Nil
    then show ?case by simp
  next
    case (Cons x xs)
    show ?case
    proof
      fix out
      have x: "collect_op s x out = out @ collect_op s x []"
        using Cons.prems by (meson list.set_intros(1))
      have xs: "collect_ops s xs out' = out' @ collect_ops s xs []" for out'
        using Cons.IH Cons.prems by (meson list.set_intros(2))
      have "collect_ops s (x # xs) out = (out @ collect_op s x []) @ collect_ops s xs []"
        using xs [of "out @ collect_op s x []"] by (simp only: collect_ops.simps x)
      moreover have "collect_ops s (x # xs) [] = collect_op s x [] @ collect_ops s xs []"
        using xs [of "collect_op s x []"] by (simp only: collect_ops.simps)
      ultimately show "collect_ops s (x # xs) out = out @ collect_ops s (x # xs) []"
        by (simp only: append.assoc)
    qed
  qed
  then have ops: "collect_ops s ops out = out @ collect_ops s ops []" for out by (rule spec)
  show ?case
  proof
    fix out
    have "collect_columns (SegmentQuery s k ops a) out = (out @ [col_ref s k]) @ collect_ops s ops []"
      unfolding collect_columns.simps by (rule ops)
    moreover have "collect_columns (SegmentQuery s k ops a) [] = [col_ref s k] @ collect_ops s ops []"
      unfolding collect_columns.simps append_Nil by (rule ops)
    ultimately show "collect_columns (SegmentQuery s k ops a) out = out @ collect_columns (SegmentQuery s k ops a) []"
      by (simp only: append.assoc)
  qed
next
  case (SetOp k other)
  show ?case unfolding collect_op.simps by (rule SetOp)
qed (simp_all only: collect_op.simps append_Nil append.assoc append_Nil2 simp_thms)

lemma collect_op_append: "collect_op src x out = out @ collect_op src x []"
  using collect_columns_append_aux(2) by (rule spec)

lemma collect_columns_append: "collect_columns q out = out @ collect_columns q []"
  using collect_columns_append_aux(1) by (rule spec)

lemma collect_ops_concat: "collect_ops src ops out = out @ concat (map (\<lambda>x. collect_op src x []) ops)"
proof (induction ops arbitrary: out)
  case Nil
  then show ?case by simp
next
  case (Cons x xs)
  have "collect_ops src (x # xs) out = collect_op src x out @ concat (map (\<lambda>x. collect_op src x []) xs)"
    unfolding collect_ops.simps by (rule Cons)
  also have "collect_op src x out = out @ collect_op src x []" by (rule collect_op_append)
  finally show ?case by simp
qed

subsection \<open>What they should collect\<close>

text \<open>The segments nested in a segment through \<open>SetOp\<close>, itself first.\<close>

fun subsegments :: "segment_query \<Rightarrow> segment_query list"
  and op_subsegments :: "op \<Rightarrow> segment_query list"
where
  "subsegments (SegmentQuery src key ops as_of) =
     SegmentQuery src key ops as_of # concat (map op_subsegments ops)"
| "op_subsegments (SetOp k other) = subsegments other"
| "op_subsegments (Filter p) = []"
| "op_subsegments (Recency ev uk ts wd p) = []"
| "op_subsegments (Lapsed ev uk ts wd p) = []"
| "op_subsegments (Exclude c) = []"
| "op_subsegments (Feature n c v) = []"
| "op_subsegments (Derive n m) = []"
| "op_subsegments Similar = []"
| "op_subsegments (Characterize ev ts mon cat) = []"

text \<open>The columns one op reads itself, as a set.\<close>

fun direct_columns :: "dataset \<Rightarrow> op \<Rightarrow> referenced_column set" where
  "direct_columns src (Filter p) = {col_ref src (p_column p)}"
| "direct_columns src (Recency ev uk ts wd p) = col_ref ev ` ({uk, ts} \<union> p_column ` set_option p)"
| "direct_columns src (Lapsed ev uk ts wd p) = col_ref ev ` ({uk, ts} \<union> p_column ` set_option p)"
| "direct_columns src (Derive n m) =
     col_ref (metric_event m) ` ({''user_id''} \<union> set_option (metric_column m))"
| "direct_columns src (Characterize ev ts mon cat) = col_ref ev ` {''user_id'', ts, mon, cat}"
| "direct_columns src x = {}"

definition segment_columns :: "segment_query \<Rightarrow> referenced_column set" where
  "segment_columns q =
     insert (col_ref (q_source q) (q_key q)) (\<Union>x \<in> set (q_ops q). direct_columns (q_source q) x)"

definition segment_features :: "segment_query \<Rightarrow> string set" where
  "segment_features q = {n. \<exists>c v. Feature n c v \<in> set (q_ops q)}"

lemma set_collect_columns:
  "set (collect_columns q []) = (\<Union>s \<in> set (subsegments q). segment_columns s)"
  "set (collect_op src x []) = direct_columns src x \<union> (\<Union>s \<in> set (op_subsegments x). segment_columns s)"
proof (induction q and x arbitrary: and src)
  case (SegmentQuery s k ops a)
  have "collect_columns (SegmentQuery s k ops a) [] =
      [col_ref s k] @ concat (map (\<lambda>x. collect_op s x []) ops)"
    unfolding collect_columns.simps append_Nil by (rule collect_ops_concat)
  then show ?case
    using SegmentQuery by (auto simp: segment_columns_def)
next
  case (SetOp k other)
  then show ?case by (simp only: collect_op.simps op_subsegments.simps direct_columns.simps Un_empty_left)
qed (auto split: option.split)

lemma set_referenced_columns:
  "set (referenced_columns q) = (\<Union>s \<in> set (subsegments q). segment_columns s)"
  unfolding referenced_columns_def by (rule set_collect_columns)

fun op_features :: "op \<Rightarrow> string list" where
  "op_features (Feature n c v) = [n]"
| "op_features (SetOp k other) = collect_features other []"
| "op_features x = []"

lemma collect_features_append_aux:
  "\<forall>out. collect_features q out = out @ collect_features q []"
  "\<forall>k other. x = SetOp k other \<longrightarrow> (\<forall>out. collect_features other out = out @ collect_features other [])"
proof (induction q and x)
  case (SegmentQuery s k ops a)
  have "collect_features_ops ops out = out @ concat (map op_features ops)" for out
    using SegmentQuery
  proof (induction ops arbitrary: out)
    case Nil
    then show ?case by simp
  next
    case (Cons x xs)
    have IH: "collect_features_ops xs out' = out' @ concat (map op_features xs)" for out'
      using Cons.IH Cons.prems by (meson list.set_intros(2))
    have x: "(case x of Feature n c v \<Rightarrow> out @ [n] | SetOp k other \<Rightarrow> collect_features other out | _ \<Rightarrow> out)
        = out @ op_features x"
    proof (cases x)
      case (SetOp k other)
      from Cons.prems [OF list.set_intros(1)] this
      have "collect_features other out = out @ collect_features other []" by blast
      with SetOp show ?thesis by simp
    qed simp_all
    show ?case unfolding collect_features_ops.simps x IH by simp
  qed
  then show ?case by simp
next
  case (SetOp k other)
  show ?case
  proof (intro allI impI)
    fix k' other' out
    assume "SetOp k other = SetOp k' other'"
    then have "other' = other" by simp
    show "collect_features other' out = out @ collect_features other' []"
      unfolding \<open>other' = other\<close> using SetOp by (rule spec)
  qed
qed simp_all

lemma collect_features_append: "collect_features q out = out @ collect_features q []"
  using collect_features_append_aux(1) by (rule spec)

lemma collect_features_concat: "collect_features_ops ops out = out @ concat (map op_features ops)"
proof (induction ops arbitrary: out)
  case Nil
  then show ?case by simp
next
  case (Cons x xs)
  have x: "(case x of Feature n c v \<Rightarrow> out @ [n] | SetOp k other \<Rightarrow> collect_features other out | _ \<Rightarrow> out)
      = out @ op_features x"
  proof (cases x)
    case (SetOp k other)
    with collect_features_append [of other out] show ?thesis by simp
  qed simp_all
  show ?case unfolding collect_features_ops.simps x Cons.IH by simp
qed

lemma set_collect_features:
  "set (collect_features q []) = (\<Union>s \<in> set (subsegments q). segment_features s)"
  "set (op_features x) = {n. \<exists>c v. x = Feature n c v} \<union> (\<Union>s \<in> set (op_subsegments x). segment_features s)"
proof (induction q and x)
  case (SegmentQuery s k ops a)
  have "collect_features (SegmentQuery s k ops a) [] = concat (map op_features ops)"
    by (simp add: collect_features_concat)
  then show ?case
    using SegmentQuery by (auto simp: segment_features_def)
qed auto

lemma set_referenced_features:
  "set (referenced_features q) = (\<Union>s \<in> set (subsegments q). segment_features s)"
  unfolding referenced_features_def by (rule set_collect_features)

end
