(* ===== verification/Query_Parse.thy ===== *)
theory Query_Parse
  imports Query_Ast
begin

text \<open>
  \<open>crates/query/src/parse.rs\<close>: the validator every segment passes before it is compiled.
  \<open>chrono\<close>'s RFC 3339 parser is the parameter \<open>rfc3339\<close> (does it accept this string).
  \<open>wf_segment\<close> states declaratively what a sound segment is; \<open>validate_iff\<close> shows that the
  validator, with its early returns, accepts exactly those.
\<close>

definition MAX_OPS :: nat where "MAX_OPS = 32"
definition MAX_PRED_VALUE_BYTES :: nat where "MAX_PRED_VALUE_BYTES = 4096"
definition MAX_IN_VALUES :: nat where "MAX_IN_VALUES = 1024"
definition MAX_WITHIN_DAYS :: nat where "MAX_WITHIN_DAYS = 3650"

definition invalid :: "msg \<Rightarrow> query_error" where
  "invalid m = InvalidDsl m"

definition validate_ident_field :: "string \<Rightarrow> string \<Rightarrow> (query_error, unit) result" where
  "validate_ident_field name kind =
     map_err (\<lambda>e. invalid (Msg ''{kind}: {e}'' [AStr kind, AMsg (display_error e)])) (validate_ident name)"

definition validate_dataset :: "dataset \<Rightarrow> (query_error, unit) result" where
  "validate_dataset d =
     rbind (validate_ident_field (ds_system d) ''event.system'') (\<lambda>_.
     rbind (validate_ident_field (ds_entity d) ''event.entity'') (\<lambda>_.
     Inr ()))"

text \<open>The value caps; the items of an array are checked as values of an \<open>eq\<close>.\<close>

fun validate_value :: "json \<Rightarrow> cmp \<Rightarrow> (query_error, unit) result" where
  "validate_value (JString s) op =
     guard (\<not> length s > MAX_PRED_VALUE_BYTES)
       (invalid (Msg ''predicate value exceeds {MAX_PRED_VALUE_BYTES} bytes'' [ANat MAX_PRED_VALUE_BYTES]))"
| "validate_value (JArray arr) op =
     rbind (guard (op = In \<or> op = NotIn) (invalid (Msg (''array value requires op 'in' or 'notIn'' @ [CHR 0x27]) []))) (\<lambda>_.
     rbind (guard (\<not> length arr > MAX_IN_VALUES)
              (invalid (Msg ''IN list exceeds {MAX_IN_VALUES} values'' [ANat MAX_IN_VALUES]))) (\<lambda>_.
     each (\<lambda>item. validate_value item Eq) arr))"
| "validate_value _ op = Inr ()"

definition validate_predicate :: "predicate \<Rightarrow> (query_error, unit) result" where
  "validate_predicate p =
     rbind (validate_ident_field (p_column p) ''predicate.column'') (\<lambda>_.
     rbind (validate_value (p_value p) (p_op p)) (\<lambda>_.
     Inr ()))"

text \<open>The shared arm of \<open>Recency\<close> and \<open>Lapsed\<close>.\<close>

definition validate_window ::
  "dataset \<Rightarrow> string \<Rightarrow> string \<Rightarrow> nat \<Rightarrow> predicate option \<Rightarrow> (query_error, unit) result"
where
  "validate_window event user_key ts_column within_days pred =
     rbind (validate_dataset event) (\<lambda>_.
     rbind (validate_ident_field user_key ''userKey'') (\<lambda>_.
     rbind (validate_ident_field ts_column ''tsColumn'') (\<lambda>_.
     rbind (guard (\<not> (within_days = 0 \<or> within_days > MAX_WITHIN_DAYS))
              (invalid (Msg ''withinDays must be in 1..={MAX_WITHIN_DAYS}'' [ANat MAX_WITHIN_DAYS]))) (\<lambda>_.
     case pred of None \<Rightarrow> Inr () | Some p \<Rightarrow> validate_predicate p))))"

definition validate_characterize ::
  "dataset \<Rightarrow> string \<Rightarrow> string \<Rightarrow> string \<Rightarrow> (query_error, unit) result"
where
  "validate_characterize event ts_column monetary_column category_column =
     rbind (validate_dataset event) (\<lambda>_.
     rbind (validate_ident_field ts_column ''characterize.tsColumn'') (\<lambda>_.
     rbind (validate_ident_field monetary_column ''characterize.monetaryColumn'') (\<lambda>_.
     rbind (validate_ident_field category_column ''characterize.categoryColumn'') (\<lambda>_.
     Inr ()))))"

definition validate_derive :: "string \<Rightarrow> jit_metric \<Rightarrow> (query_error, unit) result" where
  "validate_derive name metric =
     rbind (validate_ident_field name ''derive.name'') (\<lambda>_.
     let (event, column) = (metric_event metric, metric_column metric) in
     rbind (validate_dataset event) (\<lambda>_.
     case column of None \<Rightarrow> Inr () | Some c \<Rightarrow> validate_ident_field c ''derive.metric.column''))"

definition validate_feature :: "string \<Rightarrow> cmp \<Rightarrow> (query_error, unit) result" where
  "validate_feature name op =
     rbind (map_err (\<lambda>e. invalid (Msg ''feature name: {e}'' [AMsg (display_error e)]))
              (split_feature_name name)) (\<lambda>_.
     guard (op \<in> {Eq, Ne, Lt, Le, Gt, Ge})
       (invalid (Msg ''feature op must be one of eq/ne/lt/le/gt/ge (no in/like)'' [])))"

text \<open>The loop of \<open>validate_positions\<close>: \<open>n\<close> is \<open>q.ops.len()\<close>, \<open>i\<close> the index.\<close>

fun validate_positions_loop :: "nat \<Rightarrow> nat \<Rightarrow> bool \<Rightarrow> op list \<Rightarrow> (query_error, unit) result" where
  "validate_positions_loop n i narrowing_seen [] = Inr ()"
| "validate_positions_loop n i narrowing_seen (x # xs) =
     (case x of
        Filter p \<Rightarrow> validate_positions_loop n (i + 1) True xs
      | Recency ev uk ts wd p \<Rightarrow> validate_positions_loop n (i + 1) True xs
      | Lapsed ev uk ts wd p \<Rightarrow> validate_positions_loop n (i + 1) True xs
      | Feature nm c v \<Rightarrow> validate_positions_loop n (i + 1) True xs
      | Exclude c \<Rightarrow> validate_positions_loop n (i + 1) True xs
      | SetOp k other \<Rightarrow>
          rbind (guard (\<not> i + 1 \<noteq> n) (invalid (Msg ''no op may follow a SetOp'' []))) (\<lambda>_.
          validate_positions_loop n (i + 1) narrowing_seen xs)
      | Similar \<Rightarrow> Inl (invalid (Msg ''Similar is not supported yet'' []))
      | _ \<Rightarrow>
          rbind (guard narrowing_seen
                   (invalid (Msg ''Derive must follow B/F narrowing (filter/lapsed/recency/feature)'' []))) (\<lambda>_.
          rbind (guard (\<not> i + 1 \<noteq> n)
                   (invalid (Msg ''Derive must be the final op of the segment'' []))) (\<lambda>_.
          Inr ())))"

definition validate_positions :: "op list \<Rightarrow> (query_error, unit) result" where
  "validate_positions ops = validate_positions_loop (length ops) 0 False ops"

fun validate :: "(string \<Rightarrow> bool) \<Rightarrow> segment_query \<Rightarrow> (query_error, unit) result"
  and validate_ops :: "(string \<Rightarrow> bool) \<Rightarrow> op list \<Rightarrow> (query_error, unit) result"
  and validate_op :: "(string \<Rightarrow> bool) \<Rightarrow> op \<Rightarrow> (query_error, unit) result"
where
  "validate rfc3339 (SegmentQuery source key ops as_of) =
     rbind (validate_ident_field (ds_system source) ''source.system'') (\<lambda>_.
     rbind (validate_ident_field (ds_entity source) ''source.entity'') (\<lambda>_.
     rbind (validate_ident_field key ''key'') (\<lambda>_.
     rbind (case as_of of
              None \<Rightarrow> Inr ()
            | Some ts \<Rightarrow> guard (rfc3339 ts)
                (InvalidDsl (Msg ''asOf must be an ISO-8601 timestamp, got {as_of:?}'' [AStr ts]))) (\<lambda>_.
     rbind (guard (\<not> length ops > MAX_OPS) (invalid (Msg ''ops exceed cap of {MAX_OPS}'' [ANat MAX_OPS]))) (\<lambda>_.
     rbind (validate_ops rfc3339 ops) (\<lambda>_.
     rbind (validate_positions ops) (\<lambda>_.
     Inr ())))))))"
| "validate_ops rfc3339 [] = Inr ()"
| "validate_ops rfc3339 (x # xs) = rbind (validate_op rfc3339 x) (\<lambda>_. validate_ops rfc3339 xs)"
| "validate_op rfc3339 (Filter p) = validate_predicate p"
| "validate_op rfc3339 (Recency ev uk ts wd p) = validate_window ev uk ts wd p"
| "validate_op rfc3339 (Lapsed ev uk ts wd p) = validate_window ev uk ts wd p"
| "validate_op rfc3339 (SetOp k other) = validate rfc3339 other"
| "validate_op rfc3339 (Exclude c) = validate_ident_field c ''exclude.campaignId''"
| "validate_op rfc3339 (Feature n c v) = validate_feature n c"
| "validate_op rfc3339 (Derive n m) = validate_derive n m"
| "validate_op rfc3339 (Characterize ev ts mon cat) = validate_characterize ev ts mon cat"
| "validate_op rfc3339 Similar = Inl (invalid (Msg ''Similar is not supported yet'' []))"

text \<open>\<open>parse\<close>; the derived deserialiser is the parameter \<open>from_value\<close>.\<close>

definition parse ::
  "(json \<Rightarrow> (msg, segment_query) result) \<Rightarrow> (string \<Rightarrow> bool) \<Rightarrow> json \<Rightarrow> (query_error, segment_query) result"
where
  "parse from_value rfc3339 v =
     rbind (map_err InvalidDsl (from_value v)) (\<lambda>q.
     rbind (validate rfc3339 q) (\<lambda>_.
     Inr q))"

subsection \<open>Well-formed segments\<close>

fun narrowing :: "op \<Rightarrow> bool" where
  "narrowing (Filter p) \<longleftrightarrow> True"
| "narrowing (Recency ev uk ts wd p) \<longleftrightarrow> True"
| "narrowing (Lapsed ev uk ts wd p) \<longleftrightarrow> True"
| "narrowing (Feature n c v) \<longleftrightarrow> True"
| "narrowing (Exclude c) \<longleftrightarrow> True"
| "narrowing x \<longleftrightarrow> False"

fun is_setop :: "op \<Rightarrow> bool" where
  "is_setop (SetOp k other) \<longleftrightarrow> True"
| "is_setop x \<longleftrightarrow> False"

fun is_profile :: "op \<Rightarrow> bool" where
  "is_profile (Derive n m) \<longleftrightarrow> True"
| "is_profile (Characterize ev ts mon cat) \<longleftrightarrow> True"
| "is_profile x \<longleftrightarrow> False"

text \<open>Every op but the last narrows; the last narrows, combines, or profiles something narrowed.\<close>

definition wf_positions :: "op list \<Rightarrow> bool" where
  "wf_positions ops \<longleftrightarrow> ops = [] \<or>
     list_all narrowing (butlast ops) \<and>
     (narrowing (last ops) \<or> is_setop (last ops) \<or> is_profile (last ops) \<and> butlast ops \<noteq> [])"

fun wf_item :: "json \<Rightarrow> bool" where
  "wf_item (JString s) \<longleftrightarrow> length s \<le> MAX_PRED_VALUE_BYTES"
| "wf_item (JArray xs) \<longleftrightarrow> False"
| "wf_item _ \<longleftrightarrow> True"

definition wf_predicate :: "predicate \<Rightarrow> bool" where
  "wf_predicate p \<longleftrightarrow> IDENT_RE (p_column p) \<and>
     (case p_value p of
        JArray xs \<Rightarrow> p_op p \<in> {In, NotIn} \<and> length xs \<le> MAX_IN_VALUES \<and> list_all wf_item xs
      | v \<Rightarrow> wf_item v)"

definition wf_dataset :: "dataset \<Rightarrow> bool" where
  "wf_dataset d \<longleftrightarrow> IDENT_RE (ds_system d) \<and> IDENT_RE (ds_entity d)"

definition wf_window :: "dataset \<Rightarrow> string \<Rightarrow> string \<Rightarrow> nat \<Rightarrow> predicate option \<Rightarrow> bool" where
  "wf_window ev uk ts wd p \<longleftrightarrow> wf_dataset ev \<and> IDENT_RE uk \<and> IDENT_RE ts \<and>
     wd \<in> {1..MAX_WITHIN_DAYS} \<and> pred_option wf_predicate p"

text \<open>One op of a segment; the segment inside a \<open>SetOp\<close> is a level of its own.\<close>

fun wf_op :: "op \<Rightarrow> bool" where
  "wf_op (Filter p) \<longleftrightarrow> wf_predicate p"
| "wf_op (Recency ev uk ts wd p) \<longleftrightarrow> wf_window ev uk ts wd p"
| "wf_op (Lapsed ev uk ts wd p) \<longleftrightarrow> wf_window ev uk ts wd p"
| "wf_op (SetOp k other) \<longleftrightarrow> True"
| "wf_op (Exclude c) \<longleftrightarrow> IDENT_RE c"
| "wf_op (Feature n c v) \<longleftrightarrow>
     (\<exists>family short. split_feature_name n = Inr (family, short)) \<and> c \<in> {Eq, Ne, Lt, Le, Gt, Ge}"
| "wf_op (Derive n m) \<longleftrightarrow> IDENT_RE n \<and> wf_dataset (metric_event m) \<and> pred_option IDENT_RE (metric_column m)"
| "wf_op (Characterize ev ts mon cat) \<longleftrightarrow> wf_dataset ev \<and> IDENT_RE ts \<and> IDENT_RE mon \<and> IDENT_RE cat"
| "wf_op Similar \<longleftrightarrow> False"

definition wf_level :: "(string \<Rightarrow> bool) \<Rightarrow> segment_query \<Rightarrow> bool" where
  "wf_level rfc3339 q \<longleftrightarrow>
     wf_dataset (q_source q) \<and> IDENT_RE (q_key q) \<and> pred_option rfc3339 (q_as_of q) \<and>
     length (q_ops q) \<le> MAX_OPS \<and> list_all wf_op (q_ops q) \<and> wf_positions (q_ops q)"

definition wf_segment :: "(string \<Rightarrow> bool) \<Rightarrow> segment_query \<Rightarrow> bool" where
  "wf_segment rfc3339 q \<longleftrightarrow> list_all (wf_level rfc3339) (subsegments q)"

subsection \<open>The validator accepts exactly the well-formed segments\<close>

lemma validate_ident_field_ok [simp, result_simps]:
  "validate_ident_field n k = Inr u \<longleftrightarrow> IDENT_RE n"
  by (simp add: validate_ident_field_def)

lemma validate_dataset_ok [simp, result_simps]: "validate_dataset d = Inr u \<longleftrightarrow> wf_dataset d"
  by (simp add: validate_dataset_def wf_dataset_def result_simps)

lemma validate_value_eq: "validate_value v Eq = Inr u \<longleftrightarrow> wf_item v"
  by (cases v) (simp_all add: result_simps not_less)

lemma validate_predicate_ok [simp, result_simps]: "validate_predicate p = Inr u \<longleftrightarrow> wf_predicate p"
  by (cases "p_value p")
    (simp_all add: validate_predicate_def wf_predicate_def result_simps validate_value_eq not_less list_all_iff)

lemma validate_window_ok [simp, result_simps]:
  "validate_window ev uk ts wd p = Inr u \<longleftrightarrow> wf_window ev uk ts wd p"
  by (cases p) (auto simp: validate_window_def wf_window_def result_simps)

lemma validate_derive_ok [simp, result_simps]:
  "validate_derive n m = Inr u \<longleftrightarrow>
     IDENT_RE n \<and> wf_dataset (metric_event m) \<and> pred_option IDENT_RE (metric_column m)"
  by (cases "metric_column m") (auto simp: validate_derive_def result_simps)

lemma validate_characterize_ok [simp, result_simps]:
  "validate_characterize ev ts mon cat = Inr u \<longleftrightarrow>
     wf_dataset ev \<and> IDENT_RE ts \<and> IDENT_RE mon \<and> IDENT_RE cat"
  by (simp add: validate_characterize_def result_simps)

lemma validate_feature_ok [simp, result_simps]:
  "validate_feature n c = Inr u \<longleftrightarrow>
     (\<exists>family short. split_feature_name n = Inr (family, short)) \<and> c \<in> {Eq, Ne, Lt, Le, Gt, Ge}"
  by (simp add: validate_feature_def rbind_Inr_iff)

lemma validate_positions_loop_ok:
  "i + length xs = n \<Longrightarrow> validate_positions_loop n i seen xs = Inr u \<longleftrightarrow>
     xs = [] \<or> list_all narrowing (butlast xs) \<and>
       (narrowing (last xs) \<or> is_setop (last xs) \<or> is_profile (last xs) \<and> (seen \<or> butlast xs \<noteq> []))"
proof (induction xs arbitrary: i seen)
  case Nil
  then show ?case by simp
next
  case (Cons x xs)
  then show ?case by (cases x; cases xs) (auto simp: rbind_Inr_iff)
qed

lemma validate_positions_ok [simp, result_simps]: "validate_positions ops = Inr u \<longleftrightarrow> wf_positions ops"
  by (simp add: validate_positions_def wf_positions_def validate_positions_loop_ok)

lemma validate_ops_ok: "validate_ops rfc ops = Inr u \<longleftrightarrow> (\<forall>x \<in> set ops. validate_op rfc x = Inr ())"
  by (induction ops) (auto simp: rbind_Inr_iff)

lemma validate_ok_aux:
  "validate rfc q = Inr () \<longleftrightarrow> list_all (wf_level rfc) (subsegments q)"
  "validate_op rfc x = Inr () \<longleftrightarrow> wf_op x \<and> list_all (wf_level rfc) (op_subsegments x)"
proof (induction q and x)
  case (SegmentQuery s k ops a)
  then show ?case
    by (cases a) (auto simp: result_simps validate_ops_ok wf_level_def wf_dataset_def list_all_iff not_less)
qed (simp_all add: result_simps)

text \<open>C5: \<open>validate\<close> accepts a segment exactly when the segment, and every segment nested in
  it through \<open>SetOp\<close>, is well formed.\<close>

theorem validate_iff: "validate rfc3339 q = Inr () \<longleftrightarrow> wf_segment rfc3339 q"
  unfolding wf_segment_def by (rule validate_ok_aux)

end
