(* ===== verification/Core_Config.thy ===== *)
theory Core_Config
  imports Core_Ident
begin

text \<open>
  \<open>crates/core/src/{config,catalog}.rs\<close>: the engine's configuration with its defaults, and
  the two catalog aliases. Reading YAML into a tree and decoding the tree are the \<open>config\<close> crate's and
  serde's work and are arguments of the two constructors; a model configuration is what they returned. \<open>NonZeroU32\<close> is a number with
  \<open>nonzero_u32\<close>; the machine's core count is an argument of the defaults.
\<close>

definition READ_ONLY_CATALOG_ALIAS :: string where
  "READ_ONLY_CATALOG_ALIAS = ''dro''"

definition WRITE_CATALOG_ALIAS :: string where
  "WRITE_CATALOG_ALIAS = ''dl''"

record guardrail_config =
  gc_memory_limit :: string
  gc_threads :: nat
  gc_statement_timeout_secs :: nat
  gc_sync_row_cap :: nat
  gc_max_output_rows :: nat
  gc_j_survivor_cap :: nat
  gc_enforce_catalogue :: bool

text \<open>\<open>default_threads\<close>: the available parallelism, 8 when it cannot be read.\<close>

definition default_threads :: "nat option \<Rightarrow> nat" where
  "default_threads parallelism = (case parallelism of Some n \<Rightarrow> n | None \<Rightarrow> 8)"

definition guardrail_config_default :: "nat option \<Rightarrow> guardrail_config" where
  "guardrail_config_default parallelism =
     \<lparr>gc_memory_limit = ''8GB'',
      gc_threads = default_threads parallelism,
      gc_statement_timeout_secs = 30,
      gc_sync_row_cap = 100000,
      gc_max_output_rows = 1000000,
      gc_j_survivor_cap = 200000,
      gc_enforce_catalogue = True\<rparr>"

definition nonzero_u32 :: "nat \<Rightarrow> bool" where
  "nonzero_u32 n \<longleftrightarrow> 0 < n \<and> n < 4294967296"

record frequency_cap =
  fc_max_contacts :: nat
  fc_window_days :: nat

record suppression_rules =
  su_per_campaign_no_repeat :: bool
  su_frequency_cap :: "frequency_cap option"

definition suppression_rules_default :: suppression_rules where
  "suppression_rules_default = \<lparr>su_per_campaign_no_repeat = True, su_frequency_cap = None\<rparr>"

record compaction_config =
  cc_inlining_row_limit :: nat
  cc_target_file_size :: string
  cc_snapshot_retention_days :: nat

definition compaction_config_default :: compaction_config where
  "compaction_config_default =
     \<lparr>cc_inlining_row_limit = 0, cc_target_file_size = ''1MB'', cc_snapshot_retention_days = 730\<rparr>"

record cdc_topic_config =
  ct_topic :: string
  ct_system :: string
  ct_entity :: string
  ct_columns :: "string list"
  ct_key :: string

record cdc_config =
  cd_brokers :: string
  cd_group_id :: string
  cd_topics :: "cdc_topic_config list"

record tenant_credentials =
  tc_id :: string
  tc_token :: string

record llm_config =
  lc_base_url :: string
  lc_api_key :: string
  lc_embedding_dim :: nat

record engine_config =
  ec_catalog_path :: string
  ec_data_path :: string
  ec_compaction_interval_secs :: nat
  ec_micro_batch_flush_rows :: nat
  ec_micro_batch_flush_age_secs :: nat
  ec_read_refresh_interval_secs :: nat
  ec_tenant_id :: string
  ec_bind :: string
  ec_guardrails :: guardrail_config
  ec_suppression :: suppression_rules
  ec_compaction :: compaction_config
  ec_auth_token :: "string option"
  ec_tenants :: "tenant_credentials list"
  ec_cdc :: "cdc_config option"
  ec_sql_approval_token :: "string option"
  ec_llm :: "llm_config option"

definition engine_config_default :: "nat option \<Rightarrow> engine_config" where
  "engine_config_default parallelism =
     \<lparr>ec_catalog_path = ''catalog.db'',
      ec_data_path = ''./data'',
      ec_compaction_interval_secs = 3600,
      ec_micro_batch_flush_rows = 50000,
      ec_micro_batch_flush_age_secs = 30,
      ec_read_refresh_interval_secs = 5,
      ec_tenant_id = ''default'',
      ec_bind = ''127.0.0.1:8080'',
      ec_guardrails = guardrail_config_default parallelism,
      ec_suppression = suppression_rules_default,
      ec_compaction = compaction_config_default,
      ec_auth_token = None,
      ec_tenants = [],
      ec_cdc = None,
      ec_sql_approval_token = None,
      ec_llm = None\<rparr>"

subsection \<open>Reading\<close>

definition from_yaml_file ::
  "(string \<Rightarrow> (msg, 'tree) result) \<Rightarrow> ('tree \<Rightarrow> (msg, engine_config) result) \<Rightarrow> string \<Rightarrow> (core_error, engine_config) result"
where
  "from_yaml_file build try_deserialize path =
     rbind (map_err (\<lambda>e. InvalidInput (Msg ''read config {path:?}: {e}'' [AStr path, AMsg e])) (build path)) (\<lambda>cfg.
     map_err (\<lambda>e. InvalidInput (Msg ''parse config: {e}'' [AMsg e])) (try_deserialize cfg))"

definition from_yaml_str ::
  "(string \<Rightarrow> (msg, 'tree) result) \<Rightarrow> ('tree \<Rightarrow> (msg, engine_config) result) \<Rightarrow> string \<Rightarrow> (core_error, engine_config) result"
where
  "from_yaml_str build try_deserialize yaml =
     rbind (map_err (\<lambda>e. InvalidInput (Msg ''build config: {e}'' [AMsg e])) (build yaml)) (\<lambda>cfg.
     map_err (\<lambda>e. InvalidInput (Msg ''parse config: {e}'' [AMsg e])) (try_deserialize cfg))"

end
