(* ===== verification/Query_Compiler.thy ===== *)
theory Query_Compiler
  imports Query_Parse Core_Config
begin

text \<open>
  \<open>crates/query/src/compiler.rs\<close>: the compiler from a segment to one SQL string and the
  vector of values bound to its placeholders, written as the code writes it: the text is
  concatenated and \<open>params\<close> is threaded through every helper, so that the order of the pushes
  is the order of the statements. \<open>Query_Plan\<close> states what the two must amount to.
\<close>

subsection \<open>Values and results\<close>

text \<open>The variants of \<open>duckdb::types::Value\<close> the program binds; an \<open>f32\<close> is its bit pattern.\<close>

datatype dval =
    VNull
  | VBoolean bool
  | VInt int
  | VBigInt int
  | VFloat nat
  | VDouble f64_bits
  | VText string

record compile_options =
  co_alias :: string
  co_suppression :: suppression_rules
  co_derive_limit :: "nat option"
  co_tenant :: string

record compiled_query =
  cq_sql :: string
  cq_params :: "dval list"
  cq_sources :: "dataset list"

definition MAX_NESTING :: nat where "MAX_NESTING = 8"
definition DEFAULT_TENANT :: string where "DEFAULT_TENANT = ''default''"

text \<open>A single quote, which an Isabelle string literal cannot end with.\<close>

definition sq :: string where "sq = [CHR 0x27]"

abbreviation dsl_error :: "string \<Rightarrow> query_error" where
  "dsl_error s \<equiv> InvalidDsl (Msg s [])"

fun to_value :: "json \<Rightarrow> (query_error, dval) result" where
  "to_value JNull = Inr VNull"
| "to_value (JBool b) = Inr (VBoolean b)"
| "to_value (JNumber n) =
     (case num_as_i64 n of
        Some i \<Rightarrow> Inr (VBigInt i)
      | None \<Rightarrow> (case num_as_f64 n of
          Some f \<Rightarrow> Inr (VDouble f)
        | None \<Rightarrow> Inl (dsl_error ''unsupported numeric value'')))"
| "to_value (JString s) = Inr (VText s)"
| "to_value (JArray xs) = Inl (dsl_error ''scalar value required'')"
| "to_value (JObject ms) = Inl (dsl_error ''scalar value required'')"

subsection \<open>Conjuncts\<close>

definition raw_table :: "dataset \<Rightarrow> string \<Rightarrow> string" where
  "raw_table d alias = alias @ ''.raw_'' @ ds_system d @ ''_'' @ ds_entity d"

definition tenant_eq :: "string \<Rightarrow> dval list \<Rightarrow> string \<Rightarrow> string \<times> dval list" where
  "tenant_eq rel params tenant = (rel @ ''.tenant_id = ?'', params @ [VText tenant])"

fun binary_cmp_symbol :: "cmp \<Rightarrow> string option" where
  "binary_cmp_symbol Eq = Some ''=''"
| "binary_cmp_symbol Ne = Some ''<>''"
| "binary_cmp_symbol Lt = Some ''<''"
| "binary_cmp_symbol Le = Some ''<=''"
| "binary_cmp_symbol Gt = Some ''>''"
| "binary_cmp_symbol Ge = Some ''>=''"
| "binary_cmp_symbol Like = Some ''LIKE''"
| "binary_cmp_symbol NotLike = Some ''NOT LIKE''"
| "binary_cmp_symbol In = None"
| "binary_cmp_symbol NotIn = None"

text \<open>\<open>for item in arr { params.push(to_value(item)?); }\<close>\<close>

fun push_values :: "json list \<Rightarrow> dval list \<Rightarrow> (query_error, dval list) result" where
  "push_values [] params = Inr params"
| "push_values (item # arr) params = rbind (to_value item) (\<lambda>v. push_values arr (params @ [v]))"

definition compile_in :: "string \<Rightarrow> json \<Rightarrow> dval list \<Rightarrow> bool \<Rightarrow> (query_error, string \<times> dval list) result" where
  "compile_in col value params negate =
     rbind (ok_or (dsl_error ''IN/NotIn requires an array value'') (as_array value)) (\<lambda>arr.
     if arr = [] then Inr (if negate then ''1=1'' else ''1=0'', params)
     else
       rbind (push_values arr params) (\<lambda>params.
       let placeholders = join '', '' (replicate (length arr) ''?'')
       in Inr (if negate then col @ '' NOT IN ('' @ placeholders @ '')''
               else col @ '' IN ('' @ placeholders @ '')'', params)))"

definition compile_predicate :: "string \<Rightarrow> predicate \<Rightarrow> dval list \<Rightarrow> (query_error, string \<times> dval list) result" where
  "compile_predicate rel p params =
     (let col = rel @ ''.'' @ p_column p in
      case binary_cmp_symbol (p_op p) of
        Some symbol \<Rightarrow> rbind (to_value (p_value p)) (\<lambda>v. Inr (col @ '' '' @ symbol @ '' ?'', params @ [v]))
      | None \<Rightarrow>
          (case p_op p of
             In \<Rightarrow> compile_in col (p_value p) params False
           | NotIn \<Rightarrow> compile_in col (p_value p) params True
           | _ \<Rightarrow> Inl (dsl_error ''unsupported predicate op'')))"

text \<open>\<open>if let Some(p) = predicate { where_parts.push(compile_predicate(rel, p, params)?) }\<close>\<close>

definition push_predicate ::
  "string \<Rightarrow> predicate option \<Rightarrow> string list \<Rightarrow> dval list \<Rightarrow> (query_error, string list \<times> dval list) result"
where
  "push_predicate rel pred parts params =
     (case pred of
        None \<Rightarrow> Inr (parts, params)
      | Some p \<Rightarrow> rbind (compile_predicate rel p params) (\<lambda>(c, params). Inr (parts @ [c], params)))"

text \<open>The window test; \<open>cmp\<close> is \<open>>=\<close> (within the window) or \<open><\<close> (before it).\<close>

definition window_test :: "string \<Rightarrow> string \<Rightarrow> nat \<Rightarrow> string" where
  "window_test ts_column cmp within_days =
     ''CAST(e.'' @ ts_column @ '' AS TIMESTAMP) '' @ cmp @ '' CAST(now() AS TIMESTAMP) - INTERVAL '' @
     sq @ show_nat within_days @ sq @ '' DAY''"

definition compile_recency ::
  "dataset \<Rightarrow> string \<Rightarrow> string \<Rightarrow> string \<Rightarrow> nat \<Rightarrow> predicate option \<Rightarrow> dval list \<Rightarrow> string \<Rightarrow> string
     \<Rightarrow> (query_error, string \<times> dval list) result"
where
  "compile_recency event user_key base_key ts_column within_days pred params alias tenant =
     (let table = raw_table event alias;
          (t, params) = tenant_eq ''e'' params tenant;
          where_parts = [''e.'' @ user_key @ '' = base.'' @ base_key, t]
      in rbind (push_predicate ''e'' pred where_parts params) (\<lambda>(where_parts, params).
         let where_parts = where_parts @ [window_test ts_column ''>='' within_days]
         in Inr (''EXISTS (SELECT 1 FROM '' @ table @ '' e WHERE '' @ join '' AND '' where_parts @ '')'',
                 params)))"

definition compile_lapsed ::
  "dataset \<Rightarrow> string \<Rightarrow> string \<Rightarrow> string \<Rightarrow> nat \<Rightarrow> predicate option \<Rightarrow> dval list \<Rightarrow> string \<Rightarrow> string
     \<Rightarrow> (query_error, string \<times> dval list) result"
where
  "compile_lapsed event user_key base_key ts_column within_days pred params alias tenant =
     (let table = raw_table event alias;
          (t, params) = tenant_eq ''e'' params tenant;
          before_parts = [''e.'' @ user_key @ '' = base.'' @ base_key, t]
      in rbind (push_predicate ''e'' pred before_parts params) (\<lambda>(before_parts, params).
         let before_parts = before_parts @ [window_test ts_column ''<'' within_days];
             (t, params) = tenant_eq ''e'' params tenant;
             recent_parts = [''e.'' @ user_key @ '' = base.'' @ base_key, t]
         in rbind (push_predicate ''e'' pred recent_parts params) (\<lambda>(recent_parts, params).
            let recent_parts = recent_parts @ [window_test ts_column ''>='' within_days]
            in Inr (''EXISTS (SELECT 1 FROM '' @ table @ '' e WHERE '' @ join '' AND '' before_parts @
                    '') AND NOT EXISTS (SELECT 1 FROM '' @ table @ '' e WHERE '' @
                    join '' AND '' recent_parts @ '')'',
                    params))))"

fun cmp_symbol :: "cmp \<Rightarrow> (query_error, string) result" where
  "cmp_symbol Eq = Inr ''=''"
| "cmp_symbol Ne = Inr ''<>''"
| "cmp_symbol Lt = Inr ''<''"
| "cmp_symbol Le = Inr ''<=''"
| "cmp_symbol Gt = Inr ''>''"
| "cmp_symbol Ge = Inr ''>=''"
| "cmp_symbol _ = Inl (dsl_error ''feature op must be a numeric comparison (eq/ne/lt/le/gt/ge)'')"

definition compile_feature ::
  "string \<Rightarrow> cmp \<Rightarrow> f64_bits \<Rightarrow> string \<Rightarrow> dval list \<Rightarrow> string \<Rightarrow> string \<Rightarrow> string option
     \<Rightarrow> (query_error, string \<times> dval list) result"
where
  "compile_feature name op value base_key params alias tenant as_of =
     rbind (map_err (\<lambda>e. InvalidDsl (display_error e)) (split_feature_name name)) (\<lambda>(family, short).
     rbind (cmp_symbol op) (\<lambda>cmp.
     let (tenant, params) = tenant_eq ''f'' params tenant in
     case as_of of
       Some as_of \<Rightarrow>
         let params = params @ [VText name]; params = params @ [VText as_of]; params = params @ [VDouble value]
         in Inr (''EXISTS (SELECT 1 FROM '' @ alias @ ''.feature_store f WHERE f.user_id = base.'' @ base_key @
                 '' AND '' @ tenant @ '' AND f.feature_name = ? AND f.as_of_ts <= CAST(? AS TIMESTAMPTZ)'' @
                 '' GROUP BY f.user_id, f.feature_name HAVING arg_max(f.num_value, f.as_of_ts) '' @ cmp @ '' ?)'',
                 params)
     | None \<Rightarrow>
         let params = params @ [VDouble value]
         in Inr (''EXISTS (SELECT 1 FROM '' @ alias @ ''.feature_wide_'' @ family @ '' f WHERE f.user_id = base.'' @
                 base_key @ '' AND '' @ tenant @ '' AND f.'' @ short @ '' '' @ cmp @ '' ?)'',
                 params)))"

text \<open>\<open>compile_exclude\<close>: the two rules push onto \<open>clauses\<close> in turn.\<close>

definition no_repeat_clause ::
  "string \<Rightarrow> string \<Rightarrow> compile_options \<Rightarrow> string list \<Rightarrow> dval list \<Rightarrow> string list \<times> dval list"
where
  "no_repeat_clause campaign_id base_key opts clauses params =
     (if su_per_campaign_no_repeat (co_suppression opts) then
        let (tenant, params) = tenant_eq ''s'' params (co_tenant opts);
            params = params @ [VText campaign_id]
        in (clauses @ [''NOT EXISTS (SELECT 1 FROM '' @ co_alias opts @
              ''.suppression s WHERE s.user_id = base.'' @ base_key @ '' AND '' @ tenant @
              '' AND s.campaign_id = ? AND s.action IN ('targeted', 'delivered'))''], params)
      else (clauses, params))"

definition frequency_cap_clause ::
  "string \<Rightarrow> compile_options \<Rightarrow> string list \<Rightarrow> dval list \<Rightarrow> string list \<times> dval list"
where
  "frequency_cap_clause base_key opts clauses params =
     (case su_frequency_cap (co_suppression opts) of
        Some cap \<Rightarrow>
          let params = params @ [VText (co_tenant opts)];
              params = params @ [VBigInt (int (fc_max_contacts cap))]
          in (clauses @ [''NOT EXISTS (SELECT 1 FROM '' @ co_alias opts @
                ''.suppression s WHERE s.user_id = base.'' @ base_key @
                '' AND s.tenant_id = ? AND s.action = 'targeted' AND s.occurred_ts >= '' @
                ''CAST(CAST(now() AS TIMESTAMP) - INTERVAL '' @ sq @ show_nat (fc_window_days cap) @ sq @
                '' DAY AS TIMESTAMPTZ) GROUP BY s.user_id HAVING count('' @ ''*) >= ?)''], params)
      | None \<Rightarrow> (clauses, params))"

definition compile_exclude :: "string \<Rightarrow> string \<Rightarrow> compile_options \<Rightarrow> dval list \<Rightarrow> string \<times> dval list" where
  "compile_exclude campaign_id base_key opts params =
     (let (clauses, params) = no_repeat_clause campaign_id base_key opts [] params;
          (clauses, params) = frequency_cap_clause base_key opts clauses params
      in (if clauses = [] then ''1=1'' else join '' AND '' clauses, params))"

subsection \<open>The segment\<close>

definition base_select :: "dataset \<Rightarrow> string \<Rightarrow> string list \<Rightarrow> string \<Rightarrow> string" where
  "base_select source key conjuncts alias =
     (let table = raw_table source alias in
      if conjuncts = [] then ''SELECT DISTINCT base.'' @ key @ '' FROM '' @ table @ '' base''
      else ''SELECT DISTINCT base.'' @ key @ '' FROM '' @ table @ '' base WHERE '' @ join '' AND '' conjuncts)"

definition survivor_cte :: "dataset \<Rightarrow> string \<Rightarrow> string list \<Rightarrow> string \<Rightarrow> nat \<Rightarrow> string" where
  "survivor_cte source key conjuncts alias limit =
     (let table = raw_table source alias;
          where_sql = if conjuncts = [] then [] else '' WHERE '' @ join '' AND '' conjuncts
      in ''SELECT DISTINCT base.'' @ key @ '' AS user_id FROM '' @ table @ '' base'' @ where_sql @
         '' LIMIT '' @ show_nat limit)"

fun metric_agg :: "jit_metric \<Rightarrow> string" where
  "metric_agg (JCount ev) = ''count('' @ ''*)''"
| "metric_agg (JSum ev c) = ''sum(CAST(e.'' @ c @ '' AS DOUBLE))''"
| "metric_agg (JAvg ev c) = ''avg(CAST(e.'' @ c @ '' AS DOUBLE))''"
| "metric_agg (JMin ev c) = ''min(CAST(e.'' @ c @ '' AS DOUBLE))''"
| "metric_agg (JMax ev c) = ''max(CAST(e.'' @ c @ '' AS DOUBLE))''"

definition compile_derive_metric ::
  "string \<Rightarrow> string \<Rightarrow> jit_metric \<Rightarrow> dval list \<Rightarrow> string \<Rightarrow> string \<Rightarrow> string \<times> dval list"
where
  "compile_derive_metric survivor name metric params alias tenant =
     (let (event, agg) = (metric_event metric, metric_agg metric);
          params = params @ [VText name];
          (tenant, params) = tenant_eq ''e'' params tenant;
          table = raw_table event alias
      in (''WITH survivor AS ('' @ survivor @ '') SELECT ? AS name, '' @ agg @
          '' AS value FROM survivor s JOIN '' @ table @ '' e ON e.user_id = s.user_id AND '' @ tenant, params))"

fun setop_keyword :: "set_op_kind \<Rightarrow> string" where
  "setop_keyword Intersect = ''INTERSECT''"
| "setop_keyword Union_op = ''UNION''"
| "setop_keyword Minus = ''EXCEPT''"

text \<open>The locals of \<open>compile_at\<close>'s loop, and the two ways it ends: a \<open>Derive\<close> returns the
  compiled query from inside the loop, otherwise the loop falls through.\<close>

record compile_locals =
  cl_params :: "dval list"
  cl_sources :: "dataset list"
  cl_conjuncts :: "string list"
  cl_setop :: "(set_op_kind \<times> segment_query) option"

datatype loop_end = Returned compiled_query | Fell compile_locals

definition push_conjunct :: "compile_locals \<Rightarrow> string \<times> dval list \<Rightarrow> compile_locals" where
  "push_conjunct l c = l\<lparr>cl_conjuncts := cl_conjuncts l @ [fst c], cl_params := snd c\<rparr>"

definition push_source :: "compile_locals \<Rightarrow> dataset \<Rightarrow> compile_locals" where
  "push_source l d = l\<lparr>cl_sources := cl_sources l @ [d]\<rparr>"

text \<open>The \<open>Derive\<close> arm.\<close>

definition compile_derive ::
  "compile_options \<Rightarrow> segment_query \<Rightarrow> string \<Rightarrow> jit_metric \<Rightarrow> compile_locals \<Rightarrow> (query_error, loop_end) result"
where
  "compile_derive opts q name metric l =
     rbind (ok_or (dsl_error
              (''Derive requires the survivor count; the engine must plan the prior B/F '' @ ''stages first''))
              (co_derive_limit opts)) (\<lambda>limit.
     let l = push_source l (metric_event metric);
         survivor = survivor_cte (q_source q) (q_key q) (cl_conjuncts l) (co_alias opts) limit;
         (sql, params) = compile_derive_metric survivor name metric (cl_params l) (co_alias opts) (co_tenant opts)
     in Inr (Returned \<lparr>cq_sql = sql, cq_params = params, cq_sources = cl_sources l\<rparr>))"

text \<open>\<open>for op in &q.ops\<close>\<close>

fun compile_loop ::
  "compile_options \<Rightarrow> segment_query \<Rightarrow> op list \<Rightarrow> compile_locals \<Rightarrow> (query_error, loop_end) result"
where
  "compile_loop opts q [] l = Inr (Fell l)"
| "compile_loop opts q (x # xs) l =
     (if cl_setop l \<noteq> None then Inl (dsl_error ''ops after a SetOp are not supported in M1'')
      else case x of
        Filter p \<Rightarrow>
          rbind (compile_predicate ''base'' p (cl_params l)) (\<lambda>c.
          compile_loop opts q xs (push_conjunct l c))
      | Recency ev uk ts wd p \<Rightarrow>
          let l = push_source l ev in
          rbind (compile_recency ev uk (q_key q) ts wd p (cl_params l) (co_alias opts) (co_tenant opts)) (\<lambda>c.
          compile_loop opts q xs (push_conjunct l c))
      | Lapsed ev uk ts wd p \<Rightarrow>
          let l = push_source l ev in
          rbind (compile_lapsed ev uk (q_key q) ts wd p (cl_params l) (co_alias opts) (co_tenant opts)) (\<lambda>c.
          compile_loop opts q xs (push_conjunct l c))
      | Feature n c v \<Rightarrow>
          rbind (compile_feature n c v (q_key q) (cl_params l) (co_alias opts) (co_tenant opts) (q_as_of q)) (\<lambda>c.
          compile_loop opts q xs (push_conjunct l c))
      | SetOp k other \<Rightarrow> compile_loop opts q xs (l\<lparr>cl_setop := Some (k, other)\<rparr>)
      | Exclude c \<Rightarrow>
          compile_loop opts q xs (push_conjunct l (compile_exclude c (q_key q) opts (cl_params l)))
      | Derive n m \<Rightarrow> compile_derive opts q n m l
      | Similar \<Rightarrow> Inl (dsl_error ''capability not supported yet'')
      | Characterize ev ts mon cat \<Rightarrow> Inl (dsl_error ''Characterize must go through the profile path''))"

definition compile_start :: "compile_options \<Rightarrow> segment_query \<Rightarrow> compile_locals" where
  "compile_start opts q =
     (let (t, params) = tenant_eq ''base'' [] (co_tenant opts)
      in \<lparr>cl_params = params, cl_sources = [q_source q], cl_conjuncts = [t], cl_setop = None\<rparr>)"

text \<open>The segment a \<open>SetOp\<close> left behind is one of the ops, so the recursion is on a smaller segment.\<close>

lemma compile_loop_setop:
  "compile_loop opts q xs l = Inr (Fell l') \<Longrightarrow> cl_setop l' = Some (k, other) \<Longrightarrow>
     cl_setop l = Some (k, other) \<or> SetOp k other \<in> set xs"
proof (induction opts q xs l arbitrary: l' rule: compile_loop.induct)
  case (1 opts q l)
  then show ?case by simp
next
  case (2 opts q x xs l)
  then show ?case
    by (auto simp: rbind_Inr_iff push_conjunct_def push_source_def compile_derive_def
        split: if_splits op.splits prod.splits)
qed

lemma size_setop: "SetOp k other \<in> set (q_ops q) \<Longrightarrow> size other < size q"
proof -
  assume "SetOp k other \<in> set (q_ops q)"
  then have "size (SetOp k other) \<le> size_list size (q_ops q)"
    by (simp add: size_list_estimation')
  then show ?thesis by (cases q) simp
qed

function compile_at :: "segment_query \<Rightarrow> nat \<Rightarrow> compile_options \<Rightarrow> (query_error, compiled_query) result" where
  "compile_at q depth opts =
     (if depth > MAX_NESTING then
        Inl (InvalidDsl (Msg ''segment nesting exceeds depth limit of {MAX_NESTING}'' [ANat MAX_NESTING]))
      else
        rbind (compile_loop opts q (q_ops q) (compile_start opts q)) (\<lambda>r.
        case r of
          Returned cq \<Rightarrow> Inr cq
        | Fell l \<Rightarrow>
            (case cl_setop l of
               Some (kind, other) \<Rightarrow>
                 rbind (compile_at other (depth + 1) opts) (\<lambda>other_c.
                 let kw = setop_keyword kind;
                     sources = cl_sources l @ cq_sources other_c;
                     this_sql = base_select (q_source q) (q_key q) (cl_conjuncts l) (co_alias opts);
                     all_params = cl_params l @ cq_params other_c
                 in Inr \<lparr>cq_sql = ''('' @ this_sql @ '') '' @ kw @ '' ('' @ cq_sql other_c @ '')'',
                         cq_params = all_params, cq_sources = sources\<rparr>)
             | None \<Rightarrow>
                 Inr \<lparr>cq_sql = base_select (q_source q) (q_key q) (cl_conjuncts l) (co_alias opts),
                      cq_params = cl_params l, cq_sources = cl_sources l\<rparr>)))"
  by auto
termination
proof (relation "measure (\<lambda>(q, depth, opts). size q)")
  fix q depth opts r l p kind other
  assume "compile_loop opts q (q_ops q) (compile_start opts q) = Inr r"
    and "r = Fell l" "cl_setop l = Some p" "(kind, other) = p"
  then have "cl_setop (compile_start opts q) = Some (kind, other) \<or> SetOp kind other \<in> set (q_ops q)"
    using compile_loop_setop by blast
  then have "SetOp kind other \<in> set (q_ops q)"
    by (auto simp: compile_start_def tenant_eq_def)
  then show "((other, depth + 1, opts), (q, depth, opts)) \<in> measure (\<lambda>(q, depth, opts). size q)"
    by (simp add: size_setop)
qed simp

declare compile_at.simps [simp del]

definition compile_with_opts :: "segment_query \<Rightarrow> compile_options \<Rightarrow> (query_error, compiled_query) result" where
  "compile_with_opts q opts = compile_at q 0 opts"

definition compile_with_alias :: "segment_query \<Rightarrow> string \<Rightarrow> (query_error, compiled_query) result" where
  "compile_with_alias q alias =
     compile_with_opts q \<lparr>co_alias = alias, co_suppression = suppression_rules_default,
       co_derive_limit = None, co_tenant = DEFAULT_TENANT\<rparr>"

definition compile :: "segment_query \<Rightarrow> (query_error, compiled_query) result" where
  "compile q =
     compile_with_opts q \<lparr>co_alias = READ_ONLY_CATALOG_ALIAS, co_suppression = suppression_rules_default,
       co_derive_limit = None, co_tenant = DEFAULT_TENANT\<rparr>"

subsection \<open>The three queries of a profile\<close>

record characterize_queries =
  ch_metrics :: compiled_query
  ch_recency :: compiled_query
  ch_categories :: compiled_query

definition strip_last_op :: "segment_query \<Rightarrow> segment_query" where
  "strip_last_op q =
     SegmentQuery (q_source q) (q_key q) (take (length (q_ops q) - 1) (q_ops q)) (q_as_of q)"

text \<open>The text of each query around the segment CTE \<open>with_seg\<close>.\<close>

definition metrics_tail :: string where
  "metrics_tail =
     '') SELECT (SELECT count('' @ ''*) FROM segment) AS seg_users, (SELECT count(DISTINCT '' @
     ''user_id) FROM ev) AS base_users, (SELECT sum(amount) FROM ev WHERE in_seg) * '' @
     ''1.0 / NULLIF((SELECT count('' @ ''*) FROM ev WHERE in_seg), 0) AS seg_aov, (SELECT '' @
     ''sum(amount) FROM ev) * 1.0 / NULLIF((SELECT count('' @ ''*) FROM ev), 0) AS '' @
     ''base_aov, (SELECT count('' @ ''*) FROM ev WHERE in_seg) * 1.0 / NULLIF((SELECT '' @
     ''count(DISTINCT user_id) FROM ev WHERE in_seg), 0) AS seg_freq, (SELECT '' @
     ''count('' @ ''*) FROM ev) * 1.0 / NULLIF((SELECT count(DISTINCT user_id) FROM ev), 0) '' @
     ''AS base_freq, (SELECT count('' @ ''*) FROM ev WHERE in_seg) AS seg_orders, (SELECT '' @
     ''count('' @ ''*) FROM ev) AS base_orders''"

definition metrics_sql :: "string \<Rightarrow> string \<Rightarrow> string \<Rightarrow> string \<Rightarrow> string" where
  "metrics_sql with_seg event_table ev_tenant monetary_column =
    with_seg @ '', ev AS (SELECT e.user_id, CAST(e.'' @ monetary_column @
     '' AS DOUBLE) AS amount, (s.user_id IS NOT NULL) AS in_seg FROM '' @ event_table @
     '' e LEFT JOIN segment s ON s.user_id = e.user_id WHERE '' @ ev_tenant @ metrics_tail"

definition recency_tail :: string where
  "recency_tail =
     ''), per_user AS (SELECT user_id, bool_or(in_seg) AS in_seg, max(ts) AS last_ts '' @
     ''FROM ev GROUP BY user_id) SELECT avg(extract(epoch FROM (CAST(now() AS '' @
     ''TIMESTAMP) - last_ts)) / 86400.0) FILTER (WHERE in_seg) AS seg_recency_days, '' @
     ''avg(extract(epoch FROM (CAST(now() AS TIMESTAMP) - last_ts)) / 86400.0) AS '' @
     ''base_recency_days FROM per_user''"

definition recency_sql :: "string \<Rightarrow> string \<Rightarrow> string \<Rightarrow> string \<Rightarrow> string" where
  "recency_sql with_seg event_table ev_tenant ts_column =
    with_seg @ '', ev AS (SELECT e.user_id, CAST(e.'' @ ts_column @
     '' AS TIMESTAMP) AS ts, (s.user_id IS NOT NULL) AS in_seg FROM '' @ event_table @
     '' e LEFT JOIN segment s ON s.user_id = e.user_id WHERE '' @ ev_tenant @ recency_tail"

definition categories_tail :: string where
  "categories_tail =
     '') SELECT category, count('' @ ''*) FILTER (WHERE in_seg) AS seg_n, count('' @ ''*) AS '' @
     ''base_n FROM ev GROUP BY category ORDER BY seg_n DESC LIMIT 3''"

definition categories_sql :: "string \<Rightarrow> string \<Rightarrow> string \<Rightarrow> string \<Rightarrow> string" where
  "categories_sql with_seg event_table ev_tenant category_column =
    with_seg @ '', ev AS (SELECT e.user_id, e.'' @ category_column @
     '' AS category, (s.user_id IS NOT NULL) AS in_seg FROM '' @ event_table @
     '' e LEFT JOIN segment s ON s.user_id = e.user_id WHERE '' @ ev_tenant @ categories_tail"

text \<open>\<open>q.ops.last()\<close>\<close>

definition last_op :: "op list \<Rightarrow> op option" where
  "last_op ops = (if ops = [] then None else Some (last ops))"

definition compile_characterize ::
  "segment_query \<Rightarrow> compile_options \<Rightarrow> (query_error, characterize_queries) result"
where
  "compile_characterize q opts =
     (case last_op (q_ops q) of
        Some (Characterize event ts_column monetary_column category_column) \<Rightarrow>
          rbind (compile_with_opts (strip_last_op q) opts) (\<lambda>seg.
          let with_seg = ''WITH segment AS ('' @ cq_sql seg @ '')'';
              event_table = raw_table event (co_alias opts);
              (ev_tenant, params) = tenant_eq ''e'' (cq_params seg) (co_tenant opts);
              sources = cq_sources seg @ [event];
              query = (\<lambda>sql. \<lparr>cq_sql = sql, cq_params = params, cq_sources = sources\<rparr>)
          in Inr \<lparr>ch_metrics = query (metrics_sql with_seg event_table ev_tenant monetary_column),
                  ch_recency = query (recency_sql with_seg event_table ev_tenant ts_column),
                  ch_categories = query (categories_sql with_seg event_table ev_tenant category_column)\<rparr>)
      | _ \<Rightarrow> Inl (dsl_error ''segment does not end in Characterize''))"

end
