(* ===== verification/Core_Decimal.thy ===== *)
theory Core_Decimal
  imports Core_Ident
begin

text \<open>
  \<open>str::parse::<u64>\<close> of the standard library, which the EXPLAIN walk and the export tokens use,
  and its round trip with \<open>show_nat\<close>.
\<close>

text \<open>\<open>str::parse::<u64>\<close>: an optional plus sign, then digits; overflow is an error.\<close>

fun digit_val :: "char \<Rightarrow> nat option" where
  "digit_val c =
     (if in_range CHR ''0'' CHR ''9'' c then Some (of_char c - of_char CHR ''0'') else None)"

fun parse_digits :: "nat \<Rightarrow> string \<Rightarrow> nat option" where
  "parse_digits acc [] = Some acc"
| "parse_digits acc (c # s) =
     (case digit_val c of
        None \<Rightarrow> None
      | Some d \<Rightarrow> let n = acc * 10 + d in if n > u64_max then None else parse_digits n s)"

definition parse_u64 :: "string \<Rightarrow> nat option" where
  "parse_u64 s =
     (case s of
        [] \<Rightarrow> None
      | c # rest \<Rightarrow>
          if c = CHR ''+'' then (if rest = [] then None else parse_digits 0 rest) else parse_digits 0 s)"

lemma less_sixteen: "(d :: nat) < 16 \<Longrightarrow> d \<in> {0, 1, 2, 3, 4, 5, 6, 7, 8, 9, 10, 11, 12, 13, 14, 15}"
  by simp presburger

lemma digit_val_char [simp]: "d < 10 \<Longrightarrow> digit_val (digit_char d) = Some d"
  using less_sixteen [of d] by (auto simp: digit_char_def in_range_def less_eq_char_def)

lemma parse_digits_append:
  "parse_digits a (s @ t) = (case parse_digits a s of None \<Rightarrow> None | Some b \<Rightarrow> parse_digits b t)"
  by (induction a s rule: parse_digits.induct) (auto simp: Let_def simp del: digit_val.simps split: option.split)

lemma parse_digits_show: "n \<le> u64_max \<Longrightarrow> parse_digits 0 (show_nat n) = Some n"
proof (induction n rule: show_nat.induct)
  case (1 n)
  show ?case
  proof (cases "n < 10")
    case True
    with 1 show ?thesis by (subst show_nat.simps) (simp del: digit_val.simps)
  next
    case False
    with 1 have "parse_digits 0 (show_nat (n div 10)) = Some (n div 10)" by simp
    with 1 False show ?thesis
      by (subst show_nat.simps) (simp add: parse_digits_append del: digit_val.simps)
  qed
qed

lemma plus_not_digit: "CHR ''+'' \<notin> set (show_nat n)" "CHR ''.'' \<notin> set (show_nat n)"
  using set_show_nat [of n] by auto

lemma parse_show [simp]: "n \<le> u64_max \<Longrightarrow> parse_u64 (show_nat n) = Some n"
  using parse_digits_show [of n] plus_not_digit [of n]
  by (auto simp: parse_u64_def split: list.split)

end
