(* ===== verification/Query_Guardrail.thy ===== *)
theory Query_Guardrail
  imports Query_Compiler Core_Decimal
begin

text \<open>
  \<open>crates/query/src/guardrail.rs\<close>: the row budget and the reading of DuckDB's EXPLAIN output.
  \<open>serde_json\<close>'s parser is the parameter \<open>from_str\<close>. \<open>plan_node\<close> says which nodes of the JSON
  text are plan nodes; \<open>walk_cardinality_spec\<close> shows that the walk misses none of them.
\<close>

record query_result =
  qr_columns :: "string list"
  qr_rows :: "json list list"

record estimate =
  est_rows :: nat

definition estimate_unknown :: estimate where
  "estimate_unknown = \<lparr>est_rows = 0\<rparr>"

definition enforce :: "estimate \<Rightarrow> guardrail_config \<Rightarrow> (query_error, unit) result" where
  "enforce est cfg =
     guard (\<not> est_rows est > gc_max_output_rows cfg)
       (Guardrail ''max_output_rows'' (show_nat (gc_max_output_rows cfg)))"

datatype run_mode = Sync | Async

record plan_info =
  pl_mode :: run_mode
  pl_est :: estimate
  pl_sources :: "dataset list"

subsection \<open>Reading the plan\<close>

text \<open>The estimate of one node: \<open>extra_info."Estimated Cardinality"\<close>, a decimal string.\<close>

definition node_cardinality :: "json \<Rightarrow> nat option" where
  "node_cardinality v =
     Option.bind (json_get v ''extra_info'') (\<lambda>e.
     Option.bind (json_get e ''Estimated Cardinality'') (\<lambda>c.
     Option.bind (as_str c) parse_u64))"

definition node_children :: "json \<Rightarrow> json list option" where
  "node_children v = Option.bind (json_get v ''children'') as_array"

lemma as_array_size: "as_array v = Some xs \<Longrightarrow> x \<in> set xs \<Longrightarrow> size x < size v"
  by (cases v) (auto dest: size_list_estimation' [OF _ order.refl, of x xs size])

lemma json_get_size: "json_get v k = Some w \<Longrightarrow> size w < size v"
proof (cases v)
  case (JObject ms)
  moreover assume "json_get v k = Some w"
  ultimately have "(k, w) \<in> set ms" by (simp add: map_of_SomeD)
  then have "size (snd (k, w)) \<le> size_list (\<lambda>p. size (snd p)) ms"
    by (rule size_list_estimation') simp
  also have "\<dots> \<le> size_list (size_prod (\<lambda>_. 0) size) ms"
    by (rule size_list_pointwise) (simp add: size_prod_def split: prod.split)
  finally show ?thesis by (simp add: JObject)
qed simp_all

lemma node_children_size: "node_children v = Some cs \<Longrightarrow> c \<in> set cs \<Longrightarrow> size c < size v"
  unfolding node_children_def
  by (auto simp: Option.bind_eq_Some_conv dest!: json_get_size as_array_size)

function walk_cardinality :: "json \<Rightarrow> nat \<Rightarrow> nat" where
  "walk_cardinality v mx =
     (case as_array v of
        Some arr \<Rightarrow> fold walk_cardinality arr mx
      | None \<Rightarrow>
          let mx = (case node_cardinality v of Some n \<Rightarrow> if n > mx then n else mx | None \<Rightarrow> mx)
          in (case node_children v of Some cs \<Rightarrow> fold walk_cardinality cs mx | None \<Rightarrow> mx))"
  by auto
termination
  by (relation "measure (size \<circ> fst)") (auto simp: as_array_size node_children_size)

declare walk_cardinality.simps [simp del]

definition max_cardinality :: "(string \<Rightarrow> json option) \<Rightarrow> query_result \<Rightarrow> nat option" where
  "max_cardinality from_str qr =
     (case qr_rows qr of
        (cell # text # row) # rows \<Rightarrow>
          Option.bind (as_str text) (\<lambda>json_text.
          Option.bind (from_str json_text) (\<lambda>parsed.
          let mx = walk_cardinality parsed 0 in if mx > 0 then Some mx else None))
      | _ \<Rightarrow> None)"

subsection \<open>Every node counts\<close>

inductive plan_node :: "json \<Rightarrow> json \<Rightarrow> bool" where
  here: "as_array v = None \<Longrightarrow> plan_node v v"
| item: "as_array v = Some arr \<Longrightarrow> e \<in> set arr \<Longrightarrow> plan_node e n \<Longrightarrow> plan_node v n"
| child: "as_array v = None \<Longrightarrow> node_children v = Some cs \<Longrightarrow> c \<in> set cs \<Longrightarrow> plan_node c n \<Longrightarrow> plan_node v n"

inductive_simps plan_node_iff: "plan_node v n"

definition cardinalities :: "json \<Rightarrow> nat set" where
  "cardinalities v = {k. \<exists>n. plan_node v n \<and> node_cardinality n = Some k}"

lemma cardinalities_array:
  assumes "as_array v = Some arr"
  shows "cardinalities v = (\<Union>e \<in> set arr. cardinalities e)"
proof -
  have "plan_node v n \<longleftrightarrow> (\<exists>e \<in> set arr. plan_node e n)" for n
    by (subst plan_node_iff) (auto simp: assms)
  then show ?thesis by (auto simp: cardinalities_def)
qed

lemma cardinalities_node:
  assumes "as_array v = None"
  shows "cardinalities v =
     set_option (node_cardinality v) \<union>
     (case node_children v of None \<Rightarrow> {} | Some cs \<Rightarrow> \<Union>c \<in> set cs. cardinalities c)"
proof -
  have "plan_node v n \<longleftrightarrow>
      n = v \<or> (case node_children v of None \<Rightarrow> False | Some cs \<Rightarrow> \<exists>c \<in> set cs. plan_node c n)" for n
    by (subst plan_node_iff) (auto simp: assms split: option.split)
  then show ?thesis by (auto simp: cardinalities_def split: option.split)
qed

lemma fold_max_cards:
  assumes "\<And>e m. e \<in> set xs \<Longrightarrow> finite (cardinalities e) \<and> f e m = Max (insert m (cardinalities e))"
  shows "finite (\<Union>e \<in> set xs. cardinalities e) \<and>
    fold f xs m = Max (insert m (\<Union>e \<in> set xs. cardinalities e))"
  using assms
proof (induction xs arbitrary: m)
  case Nil
  then show ?case by simp
next
  case (Cons x xs)
  let ?A = "cardinalities x" and ?B = "\<Union>e \<in> set xs. cardinalities e"
  have A: "finite ?A" "f x m = Max (insert m ?A)" using Cons.prems by auto
  have B: "finite ?B" "fold f xs k = Max (insert k ?B)" for k using Cons by auto
  have "Max (insert (Max (insert m ?A)) ?B) = Max (insert m (?A \<union> ?B))"
    using A(1) B(1) by (cases "?A = {}"; cases "?B = {}") (simp_all add: Max_Un Max_insert max.assoc)
  with A B show ?case by simp
qed

lemma walk_cardinality_Max:
  "finite (cardinalities v) \<and> walk_cardinality v m = Max (insert m (cardinalities v))"
proof (induction v m rule: walk_cardinality.induct)
  case (1 v m)
  show ?case
  proof (cases "as_array v")
    case (Some arr)
    with fold_max_cards [of arr walk_cardinality m] 1(2) [OF Some] show ?thesis
      by (simp add: walk_cardinality.simps [of v] cardinalities_array)
  next
    case None
    let ?m = "case node_cardinality v of Some n \<Rightarrow> if n > m then n else m | None \<Rightarrow> m"
    have m: "?m = Max (insert m (set_option (node_cardinality v)))"
      by (cases "node_cardinality v") auto
    show ?thesis
    proof (cases "node_children v")
      case None
      with \<open>as_array v = None\<close> m show ?thesis
        by (simp add: walk_cardinality.simps [of v] cardinalities_node)
    next
      case (Some cs)
      let ?C = "\<Union>c \<in> set cs. cardinalities c"
      have "finite ?C \<and> fold walk_cardinality cs ?m = Max (insert ?m ?C)"
        using 1(1) [OF None refl Some] by (rule fold_max_cards)
      moreover have "finite ?C \<Longrightarrow> Max (insert ?m ?C) = Max (insert m (set_option (node_cardinality v) \<union> ?C))"
        unfolding m
        by (cases "?C = {}"; cases "node_cardinality v") (simp_all add: Max_insert max.assoc max.left_commute)
      ultimately show ?thesis
        using None Some by (simp add: walk_cardinality.simps [of v] cardinalities_node)
    qed
  qed
qed

text \<open>The estimate the guard compares is the largest cardinality of any node of the plan:
  the walk visits every operator, at any depth and in any array.\<close>

theorem max_cardinality_spec:
  assumes "qr_rows qr = (cell # JString t # row) # rows" and "from_str t = Some parsed"
  shows "max_cardinality from_str qr =
    (let mx = Max (insert 0 (cardinalities parsed)) in if mx > 0 then Some mx else None)"
  using assms walk_cardinality_Max [of parsed 0] by (simp add: max_cardinality_def Let_def)

definition sample_explain :: json where
  "sample_explain =
     JArray [JObject
       [(''name'', JString ''FILTER''),
        (''extra_info'', JObject [(''Estimated Cardinality'', JString ''7'')]),
        (''children'', JArray [JObject
          [(''children'', JArray []),
           (''extra_info'', JObject [(''Estimated Cardinality'', JString ''12'')])]])]]"

theorem max_cardinality_spec_witness:
  "max_cardinality (\<lambda>t. Some sample_explain) \<lparr>qr_columns = [], qr_rows = [[JNull, JString ''[..]'']]\<rparr> = Some 12 \<and>
   Max (insert 0 (cardinalities sample_explain)) = 12"
proof -
  have "max_cardinality (\<lambda>t. Some sample_explain) \<lparr>qr_columns = [], qr_rows = [[JNull, JString ''[..]'']]\<rparr> = Some 12"
    by (simp add: max_cardinality_def walk_cardinality.simps sample_explain_def node_children_def
        node_cardinality_def parse_u64_def in_range_def less_eq_char_def)
  moreover from max_cardinality_spec [of "\<lparr>qr_columns = [], qr_rows = [[JNull, JString ''[..]'']]\<rparr>", OF _ refl] this
  have "Max (insert 0 (cardinalities sample_explain)) = 12"
    by (fastforce simp: Let_def split: if_splits)
  ultimately show ?thesis ..
qed

end
