(* ===== verification/Float64.thy ===== *)
theory Float64
  imports Json
begin

text \<open>
  The arithmetic of Rust's \<open>f64\<close> and \<open>f32\<close>: IEEE 754 binary64 and binary32, rounding to nearest
  with ties to even. A finite number is a sign, a mantissa and an exponent, \<open>(-1)^s * m * 2^e\<close>;
  every operation computes its exact result as a quotient of natural numbers and rounds it once.
  The rows and JSON values of the other theories hold floats as bit patterns; \<open>fl_of_bits\<close> and
  \<open>bits_of\<close> convert. The sign and payload of a computed NaN, which Rust leaves open, are those of the
  default quiet NaN.
\<close>

datatype ieee = F32 | F64

fun prec :: "ieee \<Rightarrow> nat" where
  "prec F32 = 24"
| "prec F64 = 53"

fun emin :: "ieee \<Rightarrow> int" where
  "emin F32 = - 149"
| "emin F64 = - 1074"

fun emax :: "ieee \<Rightarrow> int" where
  "emax F32 = 104"
| "emax F64 = 971"

datatype fl = NaN | Inf bool | Fin bool nat int

subsection \<open>Rounding\<close>

definition div_half_even :: "nat \<Rightarrow> nat \<Rightarrow> nat" where
  "div_half_even n d =
     (let q = n div d; r = n mod d in if 2 * r > d \<or> 2 * r = d \<and> odd q then q + 1 else q)"

text \<open>\<open>2 ^ log2_ratio num den\<close> is the largest power of two not above the quotient.\<close>

definition log2_ratio :: "nat \<Rightarrow> nat \<Rightarrow> int" where
  "log2_ratio num den =
     (let k = int (bit_length num) - int (bit_length den)
      in if den * 2 ^ nat k \<le> num * 2 ^ nat (- k) then k else k - 1)"

definition finish :: "ieee \<Rightarrow> bool \<Rightarrow> nat \<Rightarrow> int \<Rightarrow> fl" where
  "finish f neg m e = (if e > emax f then Inf neg else Fin neg m e)"

definition round_ratio :: "ieee \<Rightarrow> bool \<Rightarrow> nat \<Rightarrow> nat \<Rightarrow> fl" where
  "round_ratio f neg num den =
     (if num = 0 then Fin neg 0 (emin f)
      else let e = max (emin f) (log2_ratio num den - (int (prec f) - 1));
               m = div_half_even (num * 2 ^ nat (- e)) (den * 2 ^ nat e)
           in if m = 2 ^ prec f then finish f neg (2 ^ (prec f - 1)) (e + 1) else finish f neg m e)"

subsection \<open>Arithmetic\<close>

definition sgn_int :: "bool \<Rightarrow> nat \<Rightarrow> int" where
  "sgn_int neg m = (if neg then - int m else int m)"

text \<open>An exponent at which both numbers are integers; a zero has any exponent.\<close>

definition common_exp :: "nat \<Rightarrow> int \<Rightarrow> nat \<Rightarrow> int \<Rightarrow> int" where
  "common_exp m e m' e' = (if m = 0 then e' else if m' = 0 then e else min e e')"

fun fadd :: "ieee \<Rightarrow> fl \<Rightarrow> fl \<Rightarrow> fl" where
  "fadd f (Inf s) (Inf s') = (if s = s' then Inf s else NaN)"
| "fadd f (Inf s) (Fin s' m' e') = Inf s"
| "fadd f (Fin s m e) (Inf s') = Inf s'"
| "fadd f (Fin s m e) (Fin s' m' e') =
     (let b = common_exp m e m' e';
          v = sgn_int s (m * 2 ^ nat (e - b)) + sgn_int s' (m' * 2 ^ nat (e' - b))
      in if v = 0 then Fin (s \<and> s') 0 (emin f)
         else round_ratio f (v < 0) (nat \<bar>v\<bar> * 2 ^ nat b) (2 ^ nat (- b)))"
| "fadd f _ _ = NaN"

fun fneg :: "fl \<Rightarrow> fl" where
  "fneg (Inf s) = Inf (\<not> s)"
| "fneg (Fin s m e) = Fin (\<not> s) m e"
| "fneg NaN = NaN"

definition fsub :: "ieee \<Rightarrow> fl \<Rightarrow> fl \<Rightarrow> fl" where
  "fsub f x y = fadd f x (fneg y)"

fun fmul :: "ieee \<Rightarrow> fl \<Rightarrow> fl \<Rightarrow> fl" where
  "fmul f (Inf s) (Inf s') = Inf (s \<noteq> s')"
| "fmul f (Inf s) (Fin s' m' e') = (if m' = 0 then NaN else Inf (s \<noteq> s'))"
| "fmul f (Fin s m e) (Inf s') = (if m = 0 then NaN else Inf (s \<noteq> s'))"
| "fmul f (Fin s m e) (Fin s' m' e') =
     round_ratio f (s \<noteq> s') (m * m' * 2 ^ nat (e + e')) (2 ^ nat (- (e + e')))"
| "fmul f _ _ = NaN"

fun fdiv :: "ieee \<Rightarrow> fl \<Rightarrow> fl \<Rightarrow> fl" where
  "fdiv f (Inf s) (Fin s' m' e') = Inf (s \<noteq> s')"
| "fdiv f (Fin s m e) (Inf s') = Fin (s \<noteq> s') 0 (emin f)"
| "fdiv f (Fin s m e) (Fin s' m' e') =
     (if m' = 0 then (if m = 0 then NaN else Inf (s \<noteq> s'))
      else round_ratio f (s \<noteq> s') (m * 2 ^ nat (e - e')) (m' * 2 ^ nat (e' - e)))"
| "fdiv f _ _ = NaN"

fun isqrt :: "nat \<Rightarrow> nat" where
  "isqrt n = (if n = 0 then 0 else let r = 2 * isqrt (n div 4) in if (r + 1)\<^sup>2 \<le> n then r + 1 else r)"

declare isqrt.simps [simp del]

text \<open>The root of the mantissa, scaled to at least 55 bits, with a sticky last bit.\<close>

fun fsqrt :: "fl \<Rightarrow> fl" where
  "fsqrt (Inf s) = (if s then NaN else Inf s)"
| "fsqrt (Fin s m e) =
     (if m = 0 then Fin s m e
      else if s then NaN
      else let n = (if even e then m else 2 * m) * 2 ^ 110; r = isqrt n;
               q = 2 * r + (if r\<^sup>2 = n then 0 else 1);
               k = (if even e then e else e - 1) div 2 - 56
           in round_ratio F64 False (q * 2 ^ nat k) (2 ^ nat (- k)))"
| "fsqrt NaN = NaN"

subsection \<open>Comparison\<close>

definition fl_cmp_int :: "bool \<Rightarrow> nat \<Rightarrow> int \<Rightarrow> bool \<Rightarrow> nat \<Rightarrow> int \<Rightarrow> int" where
  "fl_cmp_int s m e s' m' e' =
     (let b = common_exp m e m' e' in sgn_int s (m * 2 ^ nat (e - b)) - sgn_int s' (m' * 2 ^ nat (e' - b)))"

fun flt :: "fl \<Rightarrow> fl \<Rightarrow> bool" where
  "flt (Inf s) (Inf s') = (s \<and> \<not> s')"
| "flt (Inf s) (Fin s' m' e') = s"
| "flt (Fin s m e) (Inf s') = (\<not> s')"
| "flt (Fin s m e) (Fin s' m' e') = (fl_cmp_int s m e s' m' e' < 0)"
| "flt _ _ = False"

fun feq :: "fl \<Rightarrow> fl \<Rightarrow> bool" where
  "feq (Inf s) (Inf s') = (s = s')"
| "feq (Fin s m e) (Fin s' m' e') = (fl_cmp_int s m e s' m' e' = 0)"
| "feq _ _ = False"

text \<open>\<open>f64::max\<close>, which prefers a number to a NaN.\<close>

definition fmax :: "fl \<Rightarrow> fl \<Rightarrow> fl" where
  "fmax x y = (if x = NaN then y else if y = NaN then x else if flt x y then y else x)"

definition zero :: "ieee \<Rightarrow> fl" where
  "zero f = Fin False 0 (emin f)"

definition one :: fl where
  "one = Fin False (2 ^ 52) (- 52)"

text \<open>\<open>Iterator::sum\<close> of floats starts at \<open>-0.0\<close>.\<close>

definition fsum :: "fl list \<Rightarrow> fl" where
  "fsum xs = foldl (fadd F64) (Fin True 0 (emin F64)) xs"

subsection \<open>Conversions\<close>

definition fl_of_int :: "ieee \<Rightarrow> int \<Rightarrow> fl" where
  "fl_of_int f i = round_ratio f (i < 0) (nat \<bar>i\<bar>) 1"

fun fl_cast :: "ieee \<Rightarrow> fl \<Rightarrow> fl" where
  "fl_cast f (Fin s m e) = round_ratio f s (m * 2 ^ nat e) (2 ^ nat (- e))"
| "fl_cast f x = x"

definition exp_bits :: "ieee \<Rightarrow> nat" where
  "exp_bits f = (case f of F32 \<Rightarrow> 8 | F64 \<Rightarrow> 11)"

text \<open>A bit pattern is the sign, the biased exponent and the fraction.\<close>

definition fl_of_bits :: "ieee \<Rightarrow> nat \<Rightarrow> fl" where
  "fl_of_bits f b =
     (let w = 2 ^ (prec f - 1); ex = b div w mod 2 ^ exp_bits f; fr = b mod w;
          s = (b div (w * 2 ^ exp_bits f) mod 2 = 1)
      in if ex = 2 ^ exp_bits f - 1 then (if fr = 0 then Inf s else NaN)
         else if ex = 0 then Fin s fr (emin f)
         else Fin s (w + fr) (emin f + int ex - 1))"

fun bits_of :: "ieee \<Rightarrow> fl \<Rightarrow> nat" where
  "bits_of f (Fin s m e) =
     (let w = 2 ^ (prec f - 1)
      in (if s then w * 2 ^ exp_bits f else 0) + (if m < w then m else nat (e - emin f + 1) * w + (m - w)))"
| "bits_of f (Inf s) =
     (let w = 2 ^ (prec f - 1) in (if s then w * 2 ^ exp_bits f else 0) + (2 ^ exp_bits f - 1) * w)"
| "bits_of f NaN = (let w = 2 ^ (prec f - 1) in (2 ^ exp_bits f - 1) * w + w div 2)"

subsection \<open>Evaluation\<close>

text \<open>Rules that evaluate the operations on concrete floats, to be used with \<open>cong: let_weak_cong\<close>: an
  argument of \<open>let\<close> is evaluated before its body is looked at.\<close>

lemma bit_length_small: "bit_length 0 = 0" "bit_length (Suc 0) = 1"
  by (simp_all add: bit_length.simps)

lemma isqrt_small: "isqrt 0 = 0" "isqrt (Suc 0) = 1"
  by (simp_all add: isqrt.simps)

lemmas fl_eval =
  wrap_i64_def bit_length_small bit_length.simps [of "numeral w" for w] isqrt_small isqrt.simps [of "numeral w" for w]
  log2_ratio_def round_ratio_def div_half_even_def finish_def common_exp_def sgn_int_def fsum_def fl_of_int_def
  fsub_def fmax_def zero_def one_def fl_cmp_int_def exp_bits_def fl_of_bits_def Let_def

end
