(* ===== verification/Query_Profile.thy ===== *)
theory Query_Profile
  imports Query_Guardrail Float64
begin

text \<open>
  \<open>assemble_profile\<close> of \<open>crates/query/src/engine.rs\<close>: the profile of a segment from the rows of its three
  statements, in \<open>f64\<close> arithmetic. The members of a JSON object stand in the order the code writes them.
\<close>

text \<open>\<open>json!\<close> of an \<open>f64\<close>: infinities and NaN have no JSON number.\<close>

fun json_fl :: "fl \<Rightarrow> json" where
  "json_fl (Fin s m e) = JNumber (Float (bits_of F64 (Fin s m e)))"
| "json_fl _ = JNull"

text \<open>\<open>f as u64\<close> truncates and saturates.\<close>

fun fl_to_u64 :: "fl \<Rightarrow> nat" where
  "fl_to_u64 (Fin s m e) = (if s then 0 else min u64_max (m * 2 ^ nat e div 2 ^ nat (- e)))"
| "fl_to_u64 (Inf s) = (if s then 0 else u64_max)"
| "fl_to_u64 NaN = 0"

definition f64_or_zero :: "json option \<Rightarrow> fl" where
  "f64_or_zero v = (case Option.bind v as_f64 of None \<Rightarrow> zero F64 | Some b \<Rightarrow> fl_of_bits F64 b)"

definition cell_f64 :: "json list \<Rightarrow> nat \<Rightarrow> fl" where
  "cell_f64 row i = f64_or_zero (get_cell row i)"

text \<open>\<open>v["key"] = x\<close>.\<close>

fun set_member :: "string \<Rightarrow> json \<Rightarrow> (string \<times> json) list \<Rightarrow> (string \<times> json) list" where
  "set_member k x [] = [(k, x)]"
| "set_member k x ((k', y) # ms) = (if k' = k then (k, x) # ms else (k', y) # set_member k x ms)"

fun json_set :: "json \<Rightarrow> string \<Rightarrow> json \<Rightarrow> json" where
  "json_set (JObject ms) k x = JObject (set_member k x ms)"
| "json_set v k x = v"

definition share :: "fl \<Rightarrow> fl \<Rightarrow> fl" where
  "share n whole = (if flt (zero F64) whole then fdiv F64 n whole else zero F64)"

definition ratio :: "fl \<Rightarrow> fl \<Rightarrow> fl" where
  "ratio seg base = (if feq base (zero F64) then zero F64 else fdiv F64 seg base)"

text \<open>One entry of a category mix: first its category and orders, then its share.\<close>

definition mix_entry :: "nat \<Rightarrow> json list \<Rightarrow> json" where
  "mix_entry col row =
     JObject [(''category'', JString (case Option.bind (get_cell row 0) as_str of None \<Rightarrow> [] | Some s \<Rightarrow> s)),
              (''orders'', json_fl (cell_f64 row col))]"

definition add_share :: "fl \<Rightarrow> json \<Rightarrow> json" where
  "add_share whole v = json_set v ''share'' (json_fl (share (f64_or_zero (Some (json_key v ''orders''))) whole))"

definition first_row :: "query_result \<Rightarrow> json list" where
  "first_row qr = (case qr_rows qr of [] \<Rightarrow> [] | r # _ \<Rightarrow> r)"

definition json_u64 :: "nat \<Rightarrow> json" where
  "json_u64 n = JNumber (PosInt n)"

definition side :: "nat \<Rightarrow> fl \<Rightarrow> fl \<Rightarrow> fl \<Rightarrow> json list \<Rightarrow> json" where
  "side users aov freq recency mix =
     JObject [(''users'', json_u64 users), (''averageOrderValue'', json_fl aov), (''frequency'', json_fl freq),
              (''recencyDays'', json_fl recency), (''categoryMix'', JArray mix)]"

definition assemble_profile :: "query_result \<Rightarrow> query_result \<Rightarrow> query_result \<Rightarrow> json" where
  "assemble_profile metrics recency categories =
     (let m = first_row metrics; r = first_row recency;
          seg_users = fl_to_u64 (cell_f64 m 0); base_users = fl_to_u64 (cell_f64 m 1);
          seg_aov = cell_f64 m 2; base_aov = cell_f64 m 3;
          seg_freq = cell_f64 m 4; base_freq = cell_f64 m 5;
          seg_orders = cell_f64 m 6; base_orders = cell_f64 m 7;
          seg_recency = cell_f64 r 0; base_recency = cell_f64 r 1;
          seg_mix = map (add_share seg_orders) (map (mix_entry 1) (qr_rows categories));
          base_mix = map (add_share base_orders) (map (mix_entry 2) (qr_rows categories))
      in JObject
        [(''segment'', side seg_users seg_aov seg_freq seg_recency seg_mix),
         (''baseline'', side base_users base_aov base_freq base_recency base_mix),
         (''ratios'', JObject
           [(''averageOrderValue'', json_fl (ratio seg_aov base_aov)),
            (''frequency'', json_fl (ratio seg_freq base_freq)),
            (''recencyDays'', json_fl (ratio seg_recency base_recency))])])"

end
