(* ===== verification/Keyed_Maps.thy ===== *)
theory Keyed_Maps
  imports Prelude "HOL-Library.Char_ord" "HOL-Library.List_Lexorder" "HOL-Library.Product_Lexorder"
begin

text \<open>
  The two map types the program keeps its state in, behind one interface.

  \<^item> \<open>kv_store\<close> is what every client relies on: what a lookup returns after an insert or a
    remove. \<open>ordered_kv_store\<close> adds the iteration order of a \<open>BTreeMap\<close>.
  \<^item> \<open>dm_*\<close> model \<open>DashMap\<close> (the freshness, job and producer registries) as a partial
    function; its shards' locks make each call atomic, which is how the model uses it.
  \<^item> \<open>bt_*\<close> model \<open>BTreeMap\<close> (the writer's pending batches, the grouping of columns and
    features) as a list sorted by key. Strings compare byte by byte, as Rust's \<open>Ord\<close> does.
\<close>

subsection \<open>The interface\<close>

locale kv_store =
  fixes empty :: "'m"
    and lookup :: "'m \<Rightarrow> 'k \<Rightarrow> 'v option"
    and insert :: "'k \<Rightarrow> 'v \<Rightarrow> 'm \<Rightarrow> 'm"
    and remove :: "'k \<Rightarrow> 'm \<Rightarrow> 'm"
    and inv :: "'m \<Rightarrow> bool"
  assumes inv_empty: "inv empty"
    and inv_insert: "inv m \<Longrightarrow> inv (insert k v m)"
    and inv_remove: "inv m \<Longrightarrow> inv (remove k m)"
    and lookup_empty: "lookup empty k = None"
    and lookup_insert: "inv m \<Longrightarrow> lookup (insert k v m) k' = (if k' = k then Some v else lookup m k')"
    and lookup_remove: "inv m \<Longrightarrow> lookup (remove k m) k' = (if k' = k then None else lookup m k')"
begin

lemmas laws = inv_empty inv_insert inv_remove lookup_empty lookup_insert lookup_remove

lemma lookup_insert_same: "inv m \<Longrightarrow> lookup (insert k v m) k = Some v"
  by (simp add: lookup_insert)

lemma lookup_insert_other: "inv m \<Longrightarrow> k' \<noteq> k \<Longrightarrow> lookup (insert k v m) k' = lookup m k'"
  by (simp add: lookup_insert)

lemma lookup_remove_then_insert:
  "inv m \<Longrightarrow> lookup (insert k v (remove k m)) = lookup (insert k v m)"
  by (simp add: fun_eq_iff lookup_insert lookup_remove inv_remove)

end

text \<open>A map whose values are vectors (\<open>map.entry(k).or_default().push(x)\<close>).\<close>

locale kv_multimap = kv_store empty lookup insert remove inv
  for empty :: "'m" and lookup :: "'m \<Rightarrow> 'k \<Rightarrow> 'x list option" and insert remove inv
begin

lemma lookup_push_all:
  assumes "inv m"
  shows "lookup (fold (\<lambda>(k, x) m. insert k ((case lookup m k of None \<Rightarrow> [] | Some xs \<Rightarrow> xs) @ [x]) m) ps m) k =
     (case lookup m k of
        None \<Rightarrow> (if k \<in> fst ` set ps then Some (map snd (filter (\<lambda>p. fst p = k) ps)) else None)
      | Some xs \<Rightarrow> Some (xs @ map snd (filter (\<lambda>p. fst p = k) ps)))"
  using assms
proof (induction ps arbitrary: m)
  case Nil
  then show ?case by (simp split: option.split)
next
  case (Cons p ps)
  obtain k' x where p: "p = (k', x)" by (cases p)
  let ?m = "insert k' ((case lookup m k' of None \<Rightarrow> [] | Some xs \<Rightarrow> xs) @ [x]) m"
  have "inv ?m" using Cons.prems by (rule inv_insert)
  from Cons.IH [OF this] Cons.prems show ?case
    by (auto simp: p lookup_insert split: option.splits)
qed

end

locale ordered_kv_store = kv_store empty lookup insert remove inv
  for empty :: "'m" and lookup :: "'m \<Rightarrow> 'k::linorder \<Rightarrow> 'v option" and insert remove inv +
  fixes entries :: "'m \<Rightarrow> ('k \<times> 'v) list"
  assumes entries_lookup: "inv m \<Longrightarrow> map_of (entries m) = lookup m"
    and entries_sorted: "inv m \<Longrightarrow> sorted (map fst (entries m)) \<and> distinct (map fst (entries m))"
begin

lemma entries_iff: "inv m \<Longrightarrow> (k, v) \<in> set (entries m) \<longleftrightarrow> lookup m k = Some v"
  by (metis entries_lookup entries_sorted map_of_eq_Some_iff)

lemma keys_iff: "inv m \<Longrightarrow> k \<in> fst ` set (entries m) \<longleftrightarrow> lookup m k \<noteq> None"
  by (metis entries_lookup map_of_eq_None_iff)

lemma entries_remove:
  assumes "inv m"
  shows "set (entries (remove k m)) = {p \<in> set (entries m). fst p \<noteq> k}"
  using assms by (auto simp: entries_iff inv_remove lookup_remove split: if_splits)

end

subsection \<open>DashMap\<close>

type_synonym ('k, 'v) dashmap = "'k \<rightharpoonup> 'v"

definition dm_empty :: "('k, 'v) dashmap" where
  "dm_empty = Map.empty"

definition dm_get :: "('k, 'v) dashmap \<Rightarrow> 'k \<Rightarrow> 'v option" where
  "dm_get m k = m k"

definition dm_insert :: "'k \<Rightarrow> 'v \<Rightarrow> ('k, 'v) dashmap \<Rightarrow> ('k, 'v) dashmap" where
  "dm_insert k v m = m(k \<mapsto> v)"

definition dm_remove :: "'k \<Rightarrow> ('k, 'v) dashmap \<Rightarrow> ('k, 'v) dashmap" where
  "dm_remove k m = m(k := None)"

interpretation dm: kv_store dm_empty dm_get dm_insert dm_remove "\<lambda>_. True"
  by unfold_locales (auto simp: dm_empty_def dm_get_def dm_insert_def dm_remove_def)

subsection \<open>BTreeMap\<close>

type_synonym ('k, 'v) btree = "('k \<times> 'v) list"

definition bt_empty :: "('k::linorder, 'v) btree" where
  "bt_empty = []"

fun bt_get :: "('k::linorder, 'v) btree \<Rightarrow> 'k \<Rightarrow> 'v option" where
  "bt_get [] k = None"
| "bt_get ((a, b) # m) k = (if k = a then Some b else bt_get m k)"

fun bt_insert :: "'k::linorder \<Rightarrow> 'v \<Rightarrow> ('k, 'v) btree \<Rightarrow> ('k, 'v) btree" where
  "bt_insert k v [] = [(k, v)]"
| "bt_insert k v ((a, b) # m) =
     (if k < a then (k, v) # (a, b) # m
      else if k = a then (k, v) # m
      else (a, b) # bt_insert k v m)"

fun bt_remove :: "'k::linorder \<Rightarrow> ('k, 'v) btree \<Rightarrow> ('k, 'v) btree" where
  "bt_remove k [] = []"
| "bt_remove k ((a, b) # m) = (if k = a then m else (a, b) # bt_remove k m)"

definition bt_inv :: "('k::linorder, 'v) btree \<Rightarrow> bool" where
  "bt_inv m \<longleftrightarrow> sorted_wrt (<) (map fst m)"

lemma bt_get_map_of: "bt_get m k = map_of m k"
  by (induction m k rule: bt_get.induct) auto

lemma bt_inv_Cons: "bt_inv ((a, b) # m) \<longleftrightarrow> (\<forall>x \<in> fst ` set m. a < x) \<and> bt_inv m"
  by (auto simp: bt_inv_def)

lemma fst_bt_insert: "fst ` set (bt_insert k v m) = Set.insert k (fst ` set m)"
  by (induction k v m rule: bt_insert.induct) auto

lemma set_bt_remove: "set (bt_remove k m) \<subseteq> set m"
  by (induction k m rule: bt_remove.induct) auto

lemma bt_inv_insert: "bt_inv m \<Longrightarrow> bt_inv (bt_insert k v m)"
proof (induction k v m rule: bt_insert.induct)
  case (1 k v)
  then show ?case by (simp add: bt_inv_def)
next
  case (2 k v a b m)
  then show ?case by (auto simp: bt_inv_Cons fst_bt_insert)
qed

lemma bt_inv_remove: "bt_inv m \<Longrightarrow> bt_inv (bt_remove k m)"
proof (induction k m rule: bt_remove.induct)
  case (1 k)
  then show ?case by simp
next
  case (2 k a b m)
  then show ?case using set_bt_remove [of k m] by (auto simp: bt_inv_Cons)
qed

lemma bt_get_insert: "bt_get (bt_insert k v m) k' = (if k' = k then Some v else bt_get m k')"
  by (induction k v m rule: bt_insert.induct) auto

lemma bt_get_None: "k \<notin> fst ` set m \<Longrightarrow> bt_get m k = None"
  by (simp add: bt_get_map_of map_of_eq_None_iff)

lemma bt_get_remove:
  "bt_inv m \<Longrightarrow> bt_get (bt_remove k m) k' = (if k' = k then None else bt_get m k')"
proof (induction k m rule: bt_remove.induct)
  case (1 k)
  then show ?case by simp
next
  case (2 k a b m)
  then have "k = a \<Longrightarrow> bt_get m k = None"
    by (intro bt_get_None) (auto simp: bt_inv_Cons)
  with 2 show ?case by (auto simp: bt_inv_Cons)
qed

interpretation bt: ordered_kv_store bt_empty bt_get bt_insert bt_remove bt_inv "\<lambda>m. m"
proof unfold_locales
  show "bt_inv m \<Longrightarrow> map_of m = bt_get m" for m :: "('a, 'b) btree"
    by (simp add: fun_eq_iff bt_get_map_of)
  show "bt_inv m \<Longrightarrow> sorted (map fst m) \<and> distinct (map fst m)" for m :: "('a, 'b) btree"
    by (auto simp: bt_inv_def strict_sorted_iff)
qed (auto simp: bt_empty_def bt_inv_def [of "[]"] bt_inv_insert bt_inv_remove bt_get_insert bt_get_remove)

interpretation btm: kv_multimap bt_empty bt_get bt_insert bt_remove bt_inv ..

text \<open>\<open>map.entry(k).or_default().push(x)\<close> on a \<open>BTreeMap\<close> of vectors.\<close>

definition bt_push :: "'k::linorder \<Rightarrow> 'x \<Rightarrow> ('k, 'x list) btree \<Rightarrow> ('k, 'x list) btree" where
  "bt_push k x m = bt_insert k ((case bt_get m k of None \<Rightarrow> [] | Some xs \<Rightarrow> xs) @ [x]) m"

definition bt_push_all :: "('k::linorder \<times> 'x) list \<Rightarrow> ('k, 'x list) btree" where
  "bt_push_all ps = fold (\<lambda>(k, x) m. bt_push k x m) ps bt_empty"

lemma bt_get_push_all:
  "bt_get (bt_push_all ps) k =
     (if k \<in> fst ` set ps then Some (map snd (filter (\<lambda>p. fst p = k) ps)) else None)"
  using btm.lookup_push_all [of bt_empty ps k]
  by (simp add: bt_push_all_def bt_push_def bt.inv_empty bt.lookup_empty)

lemma bt_inv_push_all: "bt_inv (bt_push_all ps)"
proof -
  have "bt_inv m \<Longrightarrow> bt_inv (fold (\<lambda>(k, x) m. bt_push k x m) ps m)" for m :: "('a, 'b list) btree"
    by (induction ps arbitrary: m) (auto simp: bt_push_def bt_inv_insert)
  then show ?thesis by (simp add: bt_push_all_def bt.inv_empty)
qed

text \<open>A \<open>BTreeSet\<close>: the sorted list of its elements.\<close>

definition bt_set :: "'a::linorder list \<Rightarrow> 'a list" where
  "bt_set xs = sort (remdups xs)"

lemma bt_set_simps [simp]: "set (bt_set xs) = set xs" "sorted (bt_set xs)" "distinct (bt_set xs)"
  by (simp_all add: bt_set_def)

lemma bt_set_empty [simp]: "bt_set xs = [] \<longleftrightarrow> xs = []"
  by (metis bt_set_simps(1) set_empty)

end
