(* ===== verification/Core_Freshness.thy ===== *)
theory Core_Freshness
  imports Core_Ident Keyed_Maps
begin

text \<open>
  \<open>crates/core/src/freshness.rs\<close>: the registry of per-source freshness and the label a
  query result carries. The registry is a \<open>DashMap\<close> from \<open>"{system}.{entity}"\<close>; \<open>set\<close>
  validates both identifiers, so two sources never share a key. \<open>worst\<close> folds over the
  sources in order, skipping repeats; its specification \<open>worst_lag_of\<close>/\<open>worst_type_of\<close> does
  not mention the order.
\<close>

datatype source_type = Batch | Cdc

fun source_type_as_str :: "source_type \<Rightarrow> string" where
  "source_type_as_str Batch = ''batch''"
| "source_type_as_str Cdc = ''cdc''"

record source_meta =
  sm_source_type :: source_type
  sm_last_epoch_secs :: int

record freshness =
  worst_source :: string
  lag_seconds :: int

definition freshness_batch :: "int \<Rightarrow> freshness" where
  "freshness_batch lag = \<lparr>worst_source = ''batch'', lag_seconds = max lag 0\<rparr>"

type_synonym freshness_registry = "(string, source_meta) dashmap"

definition registry_new :: freshness_registry where
  "registry_new = dm_empty"

definition source_key :: "string \<Rightarrow> string \<Rightarrow> string" where
  "source_key sys ent = sys @ ''.'' @ ent"

definition registry_set ::
  "freshness_registry \<Rightarrow> string \<Rightarrow> string \<Rightarrow> source_type \<Rightarrow> int \<Rightarrow> (core_error, freshness_registry) result"
where
  "registry_set reg sys ent ty epoch =
     rbind (validate_ident sys) (\<lambda>_.
     rbind (validate_ident ent) (\<lambda>_.
     Inr (dm_insert (source_key sys ent)
            \<lparr>sm_source_type = ty, sm_last_epoch_secs = epoch\<rparr> reg)))"

definition registry_get :: "freshness_registry \<Rightarrow> string \<Rightarrow> string \<Rightarrow> source_meta option" where
  "registry_get reg sys ent = dm_get reg (source_key sys ent)"

lemma source_key_inj:
  assumes "IDENT_RE s" "IDENT_RE s'"
  shows "source_key s e = source_key s' e' \<longleftrightarrow> s = s' \<and> e = e'"
proof -
  have "CHR ''.'' \<notin> set s" "CHR ''.'' \<notin> set s'"
    using assms IDENT_RE_char by fastforce+
  then have "split_once CHR ''.'' (source_key s e) = Some (s, e)"
    and "split_once CHR ''.'' (source_key s' e') = Some (s', e')"
    by (simp_all add: source_key_def split_once_Some_iff)
  then show ?thesis by (metis option.inject prod.inject)
qed

lemma registry_get_set:
  assumes "registry_set reg s e ty epoch = Inr reg'" and "IDENT_RE s'"
  shows "registry_get reg' s' e' =
    (if s' = s \<and> e' = e then Some \<lparr>sm_source_type = ty, sm_last_epoch_secs = epoch\<rparr>
     else registry_get reg s' e')"
  using assms
  by (auto simp: registry_set_def registry_get_def result_simps dm.lookup_insert source_key_inj)

subsection \<open>The worst source\<close>

text \<open>The lag of one source: \<open>(now - last).max(0)\<close>; an unknown source reads as just refreshed.\<close>

definition meta_or_default :: "freshness_registry \<Rightarrow> dataset \<Rightarrow> int \<Rightarrow> source_meta" where
  "meta_or_default reg d now =
     (case registry_get reg (ds_system d) (ds_entity d) of
        None \<Rightarrow> \<lparr>sm_source_type = Batch, sm_last_epoch_secs = now\<rparr>
      | Some m \<Rightarrow> m)"

definition source_lag :: "source_meta \<Rightarrow> int \<Rightarrow> int" where
  "source_lag m now = max (wrap_i64 (now - sm_last_epoch_secs m)) 0"

text \<open>The loop of \<open>worst\<close> with its three locals: the seen set, the worst type, the worst lag.\<close>

fun worst_loop ::
  "freshness_registry \<Rightarrow> int \<Rightarrow> (string \<times> string) list \<Rightarrow> source_type \<Rightarrow> int \<Rightarrow> dataset list
     \<Rightarrow> source_type \<times> int"
where
  "worst_loop reg now seen wt wl [] = (wt, wl)"
| "worst_loop reg now seen wt wl (d # ds) =
     (if (ds_system d, ds_entity d) \<in> set seen then worst_loop reg now seen wt wl ds
      else let m = meta_or_default reg d now; lag = source_lag m now
           in if lag > wl \<or> lag = wl \<and> sm_source_type m = Batch \<and> wt \<noteq> Batch
              then worst_loop reg now ((ds_system d, ds_entity d) # seen) (sm_source_type m) lag ds
              else worst_loop reg now ((ds_system d, ds_entity d) # seen) wt wl ds)"

definition registry_worst :: "freshness_registry \<Rightarrow> dataset list \<Rightarrow> int \<Rightarrow> freshness" where
  "registry_worst reg sources now =
     (let (wt, wl) = worst_loop reg now [] Batch 0 sources
      in \<lparr>worst_source = source_type_as_str wt, lag_seconds = wl\<rparr>)"

text \<open>What it should be: the largest lag, and \<open>batch\<close> exactly when no source lags or a batch
  source is among the most lagging ones.\<close>

abbreviation lag_of :: "freshness_registry \<Rightarrow> int \<Rightarrow> dataset \<Rightarrow> int" where
  "lag_of reg now d \<equiv> source_lag (meta_or_default reg d now) now"

abbreviation type_of_source :: "freshness_registry \<Rightarrow> int \<Rightarrow> dataset \<Rightarrow> source_type" where
  "type_of_source reg now d \<equiv> sm_source_type (meta_or_default reg d now)"

definition worst_lag_of :: "freshness_registry \<Rightarrow> int \<Rightarrow> dataset list \<Rightarrow> int" where
  "worst_lag_of reg now ds = Max (insert 0 (lag_of reg now ` set ds))"

definition worst_type_of :: "freshness_registry \<Rightarrow> int \<Rightarrow> dataset list \<Rightarrow> source_type" where
  "worst_type_of reg now ds =
     (if worst_lag_of reg now ds = 0 \<or>
         (\<exists>d \<in> set ds. lag_of reg now d = worst_lag_of reg now ds \<and> type_of_source reg now d = Batch)
      then Batch else Cdc)"

lemma source_lag_nonneg [simp]: "0 \<le> source_lag m now"
  by (simp add: source_lag_def)

lemma meta_or_default_key:
  "ds_system d = ds_system d' \<Longrightarrow> ds_entity d = ds_entity d' \<Longrightarrow>
     meta_or_default reg d now = meta_or_default reg d' now"
  by (simp add: meta_or_default_def)

text \<open>The invariant: the locals hold the answer for the sources processed so far.\<close>

definition worst_inv :: "freshness_registry \<Rightarrow> int \<Rightarrow> dataset list \<Rightarrow> source_type \<Rightarrow> int \<Rightarrow> bool" where
  "worst_inv reg now processed wt wl \<longleftrightarrow>
     0 \<le> wl \<and> (\<forall>d \<in> set processed. lag_of reg now d \<le> wl) \<and>
     (wl = 0 \<and> wt = Batch \<or> (\<exists>d \<in> set processed. lag_of reg now d = wl \<and> type_of_source reg now d = wt)) \<and>
     (wt = Cdc \<longrightarrow> (\<forall>d \<in> set processed. lag_of reg now d = wl \<longrightarrow> type_of_source reg now d = Cdc)) \<and>
     (wt = Cdc \<longrightarrow> 0 < wl)"

lemma worst_inv_step:
  assumes "worst_inv reg now processed wt wl"
    and "m = meta_or_default reg d now" and "lag = source_lag m now"
  shows "worst_inv reg now (d # processed)
     (if lag > wl \<or> lag = wl \<and> sm_source_type m = Batch \<and> wt \<noteq> Batch then sm_source_type m else wt)
     (if lag > wl \<or> lag = wl \<and> sm_source_type m = Batch \<and> wt \<noteq> Batch then lag else wl)"
  using assms unfolding worst_inv_def
  by (cases wt; cases "sm_source_type m") (auto 0 3 intro: order.trans less_imp_le)

lemma worst_inv_repeat:
  assumes "worst_inv reg now processed wt wl"
    and "(ds_system d, ds_entity d) \<in> (\<lambda>d. (ds_system d, ds_entity d)) ` set processed"
  shows "worst_inv reg now (d # processed) wt wl"
proof -
  obtain d' where d': "d' \<in> set processed" "ds_system d = ds_system d'" "ds_entity d = ds_entity d'"
    using assms(2) by auto
  then have "meta_or_default reg d now = meta_or_default reg d' now"
    by (intro meta_or_default_key)
  with assms(1) d'(1) show ?thesis by (auto simp: worst_inv_def)
qed

lemma worst_loop_inv:
  assumes "worst_inv reg now processed wt wl"
    and "set seen = (\<lambda>d. (ds_system d, ds_entity d)) ` set processed"
    and "worst_loop reg now seen wt wl ds = (wt', wl')"
  shows "worst_inv reg now (rev ds @ processed) wt' wl'"
  using assms
proof (induction ds arbitrary: seen processed wt wl)
  case Nil
  then show ?case by simp
next
  case (Cons d ds)
  show ?case
  proof (cases "(ds_system d, ds_entity d) \<in> set seen")
    case True
    with Cons.prems have "worst_inv reg now (d # processed) wt wl"
      by (intro worst_inv_repeat) auto
    from Cons.IH [OF this, of seen] True Cons.prems show ?thesis by (auto simp: insert_absorb)
  next
    case False
    note step = worst_inv_step [OF Cons.prems(1) refl refl, of d]
    from Cons.IH [OF step, of "(ds_system d, ds_entity d) # seen"] False Cons.prems(2,3)
    show ?thesis by (auto simp: Let_def split: if_splits)
  qed
qed

lemma worst_inv_spec:
  assumes "worst_inv reg now ds wt wl"
  shows "wl = worst_lag_of reg now ds" and "wt = worst_type_of reg now ds"
proof -
  show l: "wl = worst_lag_of reg now ds"
    unfolding worst_lag_of_def using assms
    by (intro Max_eqI [symmetric]) (auto simp: worst_inv_def)
  show "wt = worst_type_of reg now ds"
    unfolding worst_type_of_def l [symmetric] using assms
    by (cases wt) (auto simp: worst_inv_def)
qed

lemma registry_worst_spec:
  "registry_worst reg ds now =
     \<lparr>worst_source = source_type_as_str (worst_type_of reg now ds),
      lag_seconds = worst_lag_of reg now ds\<rparr>"
proof -
  obtain wt wl where l: "worst_loop reg now [] Batch 0 ds = (wt, wl)" by fastforce
  have "worst_inv reg now [] Batch 0" by (simp add: worst_inv_def)
  from worst_loop_inv [OF this _ l] have "worst_inv reg now (rev ds) wt wl" by simp
  from worst_inv_spec [OF this] show ?thesis
    by (simp add: registry_worst_def l worst_lag_of_def worst_type_of_def)
qed

end
