(* ===== verification/Core_Labels.thy ===== *)
theory Core_Labels
  imports Json
begin

text \<open>
  \<open>crates/core/src/{suppression,semantic,freshness}.rs\<close>: the closed enums with their wire
  labels (\<open>as_str\<close>) and the parsers that read a label back across the trust boundary
  (\<open>parse\<close>: an unknown label is rejected, never coerced). \<open>label_codec\<close> states what such a
  pair promises; each enum interprets it.
\<close>

locale label_codec =
  fixes label :: "'a \<Rightarrow> string"
    and parse_label :: "string \<Rightarrow> 'a option"
  assumes parse_of_label: "parse_label (label x) = Some x"
    and label_of_parse: "parse_label s = Some x \<Longrightarrow> s = label x"
begin

lemma parse_iff: "parse_label s = Some x \<longleftrightarrow> s = label x"
  using parse_of_label label_of_parse by blast

lemma label_inj: "label x = label y \<longleftrightarrow> x = y"
  using parse_of_label by (metis option.inject)

lemma rejected_iff: "parse_label s = None \<longleftrightarrow> s \<notin> range label"
  using parse_iff by (metis not_None_eq rangeE rangeI)

end

text \<open>A parser that returns a \<open>Result\<close>, read as an option.\<close>

definition ok_option :: "('e, 'a) result \<Rightarrow> 'a option" where
  "ok_option r = (case r of Inl _ \<Rightarrow> None | Inr x \<Rightarrow> Some x)"

lemma ok_option_simps [simp]:
  "ok_option (Inl e) = None"
  "ok_option (Inr x) = Some x"
  "ok_option r = Some x \<longleftrightarrow> r = Inr x"
  by (cases r; simp add: ok_option_def)+

subsection \<open>Suppression channel and action\<close>

datatype suppression_channel = Sms | Email | Push | Ads

fun channel_as_str :: "suppression_channel \<Rightarrow> string" where
  "channel_as_str Sms = ''sms''"
| "channel_as_str Email = ''email''"
| "channel_as_str Push = ''push''"
| "channel_as_str Ads = ''ads''"

definition channel_parse :: "string \<Rightarrow> (core_error, suppression_channel) result" where
  "channel_parse s =
     (if s = ''sms'' then Inr Sms
      else if s = ''email'' then Inr Email
      else if s = ''push'' then Inr Push
      else if s = ''ads'' then Inr Ads
      else Inl (InvalidInput (Msg ''unknown channel {s:?}; expected sms|email|push|ads'' [AStr s])))"

interpretation channel: label_codec channel_as_str "\<lambda>s. ok_option (channel_parse s)"
proof unfold_locales
  show "ok_option (channel_parse (channel_as_str x)) = Some x" for x
    by (cases x) (simp_all add: channel_parse_def)
  show "ok_option (channel_parse s) = Some x \<Longrightarrow> s = channel_as_str x" for s x
    by (auto simp: channel_parse_def split: if_splits)
qed

datatype suppression_action = Targeted | Delivered | Converted | OptedOut | Bounced

fun action_as_str :: "suppression_action \<Rightarrow> string" where
  "action_as_str Targeted = ''targeted''"
| "action_as_str Delivered = ''delivered''"
| "action_as_str Converted = ''converted''"
| "action_as_str OptedOut = ''opted_out''"
| "action_as_str Bounced = ''bounced''"

definition action_parse :: "string \<Rightarrow> (core_error, suppression_action) result" where
  "action_parse s =
     (if s = ''targeted'' then Inr Targeted
      else if s = ''delivered'' then Inr Delivered
      else if s = ''converted'' then Inr Converted
      else if s = ''opted_out'' then Inr OptedOut
      else if s = ''bounced'' then Inr Bounced
      else Inl (InvalidInput
        (Msg ''unknown action {s:?}; expected targeted|delivered|converted|opted_out|bounced''
          [AStr s])))"

interpretation action: label_codec action_as_str "\<lambda>s. ok_option (action_parse s)"
proof unfold_locales
  show "ok_option (action_parse (action_as_str x)) = Some x" for x
    by (cases x) (simp_all add: action_parse_def)
  show "ok_option (action_parse s) = Some x \<Longrightarrow> s = action_as_str x" for s x
    by (auto simp: action_parse_def split: if_splits)
qed

text \<open>
  The derived serde label of an action (\<open>rename_all = "lowercase"\<close> lower-cases the variant
  name, with no separator). It is not the label \<open>parse\<close> reads.
\<close>

fun action_serde_label :: "suppression_action \<Rightarrow> string" where
  "action_serde_label Targeted = ''targeted''"
| "action_serde_label Delivered = ''delivered''"
| "action_serde_label Converted = ''converted''"
| "action_serde_label OptedOut = ''optedout''"
| "action_serde_label Bounced = ''bounced''"

lemma action_serde_label_agrees_iff: "action_serde_label a = action_as_str a \<longleftrightarrow> a \<noteq> OptedOut"
  by (cases a) simp_all

record suppression_row =
  sr_suppression_id :: string
  sr_campaign_id :: string
  sr_user_id :: string
  sr_channel :: suppression_channel
  sr_action :: suppression_action
  sr_occurred_ts :: string
  sr_received_ts :: string

subsection \<open>Semantic type of a catalogued column\<close>

datatype semantic_type = Identifier | Dimension | Measure | EventTs | Pii | Fk | Table

fun semantic_as_str :: "semantic_type \<Rightarrow> string" where
  "semantic_as_str Identifier = ''identifier''"
| "semantic_as_str Dimension = ''dimension''"
| "semantic_as_str Measure = ''measure''"
| "semantic_as_str EventTs = ''eventTs''"
| "semantic_as_str Pii = ''pii''"
| "semantic_as_str Fk = ''fk''"
| "semantic_as_str Table = ''table''"

definition semantic_parse :: "string \<Rightarrow> semantic_type option" where
  "semantic_parse s =
     (if s = ''identifier'' then Some Identifier
      else if s = ''dimension'' then Some Dimension
      else if s = ''measure'' then Some Measure
      else if s = ''eventTs'' then Some EventTs
      else if s = ''pii'' then Some Pii
      else if s = ''fk'' then Some Fk
      else if s = ''table'' then Some Table
      else None)"

interpretation semantic: label_codec semantic_as_str semantic_parse
proof unfold_locales
  show "semantic_parse (semantic_as_str x) = Some x" for x
    by (cases x) (simp_all add: semantic_parse_def)
  show "semantic_parse s = Some x \<Longrightarrow> s = semantic_as_str x" for s x
    by (auto simp: semantic_parse_def split: if_splits)
qed

text \<open>A row of the semantic catalogue and a retrieval hit; \<open>f32\<close> and \<open>f64\<close> values as bit patterns.\<close>

record catalog_row =
  ca_entity_type :: string
  ca_system :: string
  ca_table_name :: string
  ca_column_name :: "string option"
  ca_semantic_type :: semantic_type
  ca_data_type :: string
  ca_description :: string
  ca_pii_flag :: bool
  ca_sample_values :: json
  ca_embedding :: "nat list"
  ca_source_epoch :: int

record catalog_hit =
  hi_system :: string
  hi_table_name :: string
  hi_column_name :: "string option"
  hi_semantic_type :: semantic_type
  hi_description :: string
  hi_score :: f64_bits

end
