(* ===== verification/Effects.thy ===== *)
theory Effects
  imports Prelude
begin

text \<open>
  Operations that talk to the outside, as state passing over the log of what they asked:
  \<open>('ev, 'err, 'a) logged\<close> takes the log of events so far and returns a result and the longer log.
  \<open>ebind\<close> is the \<open>?\<close> operator and \<open>eeach\<close> a loop whose body ends in \<open>?\<close>. The query engine (its
  events are statements) and the request handlers are written with them. \<open>ensures P m Q\<close> is the
  contract of such an operation: every event it adds satisfies \<open>P\<close>, and its result, when it has
  one, satisfies \<open>Q\<close>.
\<close>

type_synonym ('ev, 'err, 'a) logged = "'ev list \<Rightarrow> ('err, 'a) result \<times> 'ev list"

definition eret :: "'a \<Rightarrow> ('ev, 'err, 'a) logged" where
  "eret x log = (Inr x, log)"

definition efail :: "'err \<Rightarrow> ('ev, 'err, 'a) logged" where
  "efail e log = (Inl e, log)"

definition elift :: "('err, 'a) result \<Rightarrow> ('ev, 'err, 'a) logged" where
  "elift r log = (r, log)"

definition ebind ::
  "('ev, 'err, 'a) logged \<Rightarrow> ('a \<Rightarrow> ('ev, 'err, 'b) logged) \<Rightarrow> ('ev, 'err, 'b) logged" where
  "ebind m f log = (case m log of (Inl e, log) \<Rightarrow> (Inl e, log) | (Inr x, log) \<Rightarrow> f x log)"

lemma ebind_Inr_iff:
  "ebind m f log = (Inr y, log') \<longleftrightarrow> (\<exists>x l. m log = (Inr x, l) \<and> f x l = (Inr y, log'))"
  by (auto simp: ebind_def split: prod.splits sum.splits)

lemma elift_Inr_iff: "elift r log = (Inr y, log') \<longleftrightarrow> r = Inr y \<and> log' = log"
  by (auto simp: elift_def)

text \<open>The history, read by clocks, uuids and the registry.\<close>

definition ehist :: "('ev, 'err, 'ev list) logged" where
  "ehist log = (Inr log, log)"

fun eeach :: "('a \<Rightarrow> ('ev, 'err, unit) logged) \<Rightarrow> 'a list \<Rightarrow> ('ev, 'err, unit) logged" where
  "eeach f [] = eret ()"
| "eeach f (x # xs) = ebind (f x) (\<lambda>_. eeach f xs)"

text \<open>Record an event and read the answer, a function of the log; read a clock.\<close>

definition ask :: "'ev \<Rightarrow> ('ev list \<Rightarrow> 'a) \<Rightarrow> ('ev, 'err, 'a) logged" where
  "ask ev answer log = (Inr (answer (log @ [ev])), log @ [ev])"

definition peek :: "('ev list \<Rightarrow> 'a) \<Rightarrow> ('ev, 'err, 'a) logged" where
  "peek f log = (Inr (f log), log)"

subsection \<open>Contracts\<close>

definition ensures :: "('ev \<Rightarrow> bool) \<Rightarrow> ('ev, 'err, 'a) logged \<Rightarrow> ('a \<Rightarrow> bool) \<Rightarrow> bool" where
  "ensures P m Q \<longleftrightarrow>
     (\<forall>log. (\<exists>reqs. snd (m log) = log @ reqs \<and> list_all P reqs) \<and>
            (\<forall>x. fst (m log) = Inr x \<longrightarrow> Q x))"

lemma ensures_eret: "Q x \<Longrightarrow> ensures P (eret x) Q"
  by (simp add: ensures_def eret_def)

lemma ensures_efail: "ensures P (efail e) Q"
  by (simp add: ensures_def efail_def)

lemma ensures_elift: "(\<And>x. r = Inr x \<Longrightarrow> Q x) \<Longrightarrow> ensures P (elift r) Q"
  by (simp add: ensures_def elift_def)

lemma ensures_ehist: "(\<And>log. Q log) \<Longrightarrow> ensures P ehist Q"
  by (simp add: ensures_def ehist_def)

lemma ensures_ebind:
  assumes m: "ensures P m Q" and f: "\<And>x. Q x \<Longrightarrow> ensures P (f x) R"
  shows "ensures P (ebind m f) R"
  unfolding ensures_def
proof (rule allI)
  fix log
  from m obtain reqs where reqs: "snd (m log) = log @ reqs" "list_all P reqs"
    and res: "\<And>x. fst (m log) = Inr x \<Longrightarrow> Q x"
    unfolding ensures_def by meson
  show "(\<exists>reqs. snd (ebind m f log) = log @ reqs \<and> list_all P reqs) \<and>
      (\<forall>x. fst (ebind m f log) = Inr x \<longrightarrow> R x)"
  proof (cases "fst (m log)")
    case (Inl e)
    with reqs show ?thesis by (cases "m log") (auto simp: ebind_def)
  next
    case (Inr x)
    with reqs have m': "m log = (Inr x, log @ reqs)" by (cases "m log") simp
    from f [OF res [OF Inr]] obtain reqs' where "snd (f x (log @ reqs)) = (log @ reqs) @ reqs'" "list_all P reqs'"
      "\<And>y. fst (f x (log @ reqs)) = Inr y \<Longrightarrow> R y"
      unfolding ensures_def by meson
    with reqs m' show ?thesis by (auto simp: ebind_def)
  qed
qed

lemma ensures_seq: "ensures P m (\<lambda>_. True) \<Longrightarrow> (\<And>x. ensures P (f x) R) \<Longrightarrow> ensures P (ebind m f) R"
  by (rule ensures_ebind)

lemma ensures_eeach: "(\<And>x. x \<in> set xs \<Longrightarrow> ensures P (f x) (\<lambda>_. True)) \<Longrightarrow> ensures P (eeach f xs) (\<lambda>_. True)"
  by (induction xs) (auto intro: ensures_eret ensures_ebind)

lemma ensures_weaken: "ensures P m Q \<Longrightarrow> (\<And>x. Q x \<Longrightarrow> R x) \<Longrightarrow> ensures P m R"
  by (auto simp: ensures_def)

lemma ensures_log:
  assumes "ensures P m Q" "m log = (r, log')"
  shows "\<exists>reqs. log' = log @ reqs \<and> list_all P reqs"
  using assms unfolding ensures_def by (metis snd_conv)

lemma ensures_result: "ensures P m Q \<Longrightarrow> m log = (Inr x, log') \<Longrightarrow> Q x"
  unfolding ensures_def by (metis fst_conv)

lemma ensures_ask: "P ev \<Longrightarrow> ensures P (ask ev answer) (\<lambda>_. True)"
  by (simp add: ensures_def ask_def)

lemma ensures_peek: "ensures P (peek f) (\<lambda>_. True)"
  by (simp add: ensures_def peek_def)

subsection \<open>Traces\<close>

text \<open>\<open>emits m T\<close>: the events \<open>m\<close> adds are a member of \<open>T\<close> when it succeeds, and the beginning of a
  member when it fails.\<close>

definition emits :: "('ev, 'err, 'a) logged \<Rightarrow> 'ev list set \<Rightarrow> bool" where
  "emits m T \<longleftrightarrow>
     (\<forall>log. \<exists>d r. snd (m log) = log @ d \<and> d @ r \<in> T \<and> (is_ok (fst (m log)) \<longrightarrow> d \<in> T))"

definition seq :: "'ev list set \<Rightarrow> 'ev list set \<Rightarrow> 'ev list set" where
  "seq S T = {s @ t |s t. s \<in> S \<and> t \<in> T}"

fun seqs :: "('x \<Rightarrow> 'ev list set) \<Rightarrow> 'x list \<Rightarrow> 'ev list set" where
  "seqs T [] = {[]}"
| "seqs T (x # xs) = seq (T x) (seqs T xs)"

lemma seq_single [simp]: "seq {s} {t} = {s @ t}"
  by (auto simp: seq_def)

lemma seqs_single: "seqs (\<lambda>x. {f x}) xs = {concat (map f xs)}"
  by (induction xs) simp_all

lemma emitsD: "emits m T \<Longrightarrow> \<exists>d r. snd (m log) = log @ d \<and> d @ r \<in> T \<and> (is_ok (fst (m log)) \<longrightarrow> d \<in> T)"
  by (simp add: emits_def)

lemma emits_ok: "emits m T \<Longrightarrow> m log = (Inr x, log') \<Longrightarrow> \<exists>t \<in> T. log' = log @ t"
  using emitsD [of m T log] by auto

lemma emits_fail: "emits m T \<Longrightarrow> m log = (Inl e, log') \<Longrightarrow> \<exists>d r. d @ r \<in> T \<and> log' = log @ d"
  using emitsD [of m T log] by auto

lemma emits_nonempty: "emits m T \<Longrightarrow> T \<noteq> {}"
  using emitsD by blast

lemma emits_mono: "emits m S \<Longrightarrow> S \<subseteq> T \<Longrightarrow> emits m T"
  unfolding emits_def by (meson subset_iff)

lemma emits_eret [intro]: "emits (eret x) {[]}"
  by (simp add: emits_def eret_def)

lemma emits_efail: "T \<noteq> {} \<Longrightarrow> emits (efail e) T"
  by (auto simp: emits_def efail_def)

lemma emits_elift [intro]: "emits (elift r) {[]}"
  by (simp add: emits_def elift_def)

lemma emits_ask [intro]: "emits (ask ev answer) {[ev]}"
  by (simp add: emits_def ask_def)

lemma emits_peek [intro]: "emits (peek f) {[]}"
  by (simp add: emits_def peek_def)

lemma emits_ebind:
  assumes m: "emits m S" and f: "\<And>x. emits (f x) T"
  shows "emits (ebind m f) (seq S T)"
  unfolding emits_def
proof (rule allI)
  fix log
  obtain d r where d: "snd (m log) = log @ d" "d @ r \<in> S" "is_ok (fst (m log)) \<longrightarrow> d \<in> S"
    using emitsD [OF m] by blast
  obtain t where t: "t \<in> T" using emits_nonempty [OF f] by blast
  show "\<exists>d r. snd (ebind m f log) = log @ d \<and> d @ r \<in> seq S T \<and>
      (is_ok (fst (ebind m f log)) \<longrightarrow> d \<in> seq S T)"
  proof (cases "fst (m log)")
    case (Inl e)
    with d have "ebind m f log = (Inl e, log @ d)" by (cases "m log") (simp add: ebind_def)
    moreover have "d @ (r @ t) \<in> seq S T" using d(2) t unfolding seq_def by (metis (mono_tags, lifting) append.assoc mem_Collect_eq)
    ultimately show ?thesis by (metis fst_conv is_ok_simps(1) snd_conv)
  next
    case (Inr x)
    with d have m': "ebind m f log = f x (log @ d)" and "d \<in> S" by (cases "m log"; simp add: ebind_def)+
    obtain d' r' where d': "snd (f x (log @ d)) = (log @ d) @ d'" "d' @ r' \<in> T"
      "is_ok (fst (f x (log @ d))) \<longrightarrow> d' \<in> T"
      using emitsD [OF f] by blast
    from \<open>d \<in> S\<close> d' have "(d @ d') @ r' \<in> seq S T" "is_ok (fst (f x (log @ d))) \<longrightarrow> d @ d' \<in> seq S T"
      by (auto simp: seq_def)
    with d'(1) m' show ?thesis by (intro exI [of _ "d @ d'"] exI [of _ r']) simp
  qed
qed

lemma emits_eeach: "(\<And>x. emits (f x) (T x)) \<Longrightarrow> emits (eeach f xs) (seqs T xs)"
  by (induction xs) (auto intro: emits_ebind)

end
