(* ===== verification/Query_Engine.thy ===== *)
theory Query_Engine
  imports Query_Profile Core_Freshness Core_Labels Effects
begin

text \<open>
  \<open>crates/query/src/engine.rs\<close> with \<open>explain_cost\<close>: the engine's operations as state passing over
  the log of the requests sent to the reader pool and to the writer. What comes back is the
  environment's choice: each answer, clock reading and fresh uuid is a function of the whole
  history (\<open>env\<close>), so every concurrent activity of the database is covered. The semaphore is
  never closed by the code, so acquiring a permit succeeds.
\<close>

subsection \<open>Requests and the environment\<close>

datatype request =
    Read_request string "dval list"
  | Write_request string "dval list" string snapshot_spec string

datatype read_outcome = Timed_out | Read_failed core_error | Read_rows query_result

record env =
  en_read :: "request list \<Rightarrow> read_outcome"
  en_write :: "request list \<Rightarrow> (core_error, nat) result"
  en_now :: "request list \<Rightarrow> int"
  en_uuid :: "request list \<Rightarrow> string"
  en_freshness :: "request list \<Rightarrow> freshness_registry"
  en_from_str :: "string \<Rightarrow> json option"
  en_to_rfc3339 :: "int \<Rightarrow> string option"
  en_utc_now :: "request list \<Rightarrow> string"
  en_ops_json :: "op list \<Rightarrow> (msg, string) result"

record query_engine =
  eg_guardrails :: guardrail_config
  eg_suppression :: suppression_rules

record sync_result =
  sy_columns :: "string list"
  sy_rows :: "json list list"
  sy_count :: nat
  sy_freshness :: freshness
  sy_query_id :: string

record snapshot_meta_row =
  me_snapshot_id :: string
  me_campaign_id :: string
  me_as_of_ts :: string
  me_row_count :: nat

type_synonym 'a eng = "(request, query_error, 'a) logged"

definition read_request :: "env \<Rightarrow> string \<Rightarrow> dval list \<Rightarrow> read_outcome eng" where
  "read_request env sql params log =
     (let log = log @ [Read_request sql params] in (Inr (en_read env log), log))"

definition timeout_error :: "query_engine \<Rightarrow> query_error" where
  "timeout_error eng =
     Guardrail ''statement_timeout'' (show_nat (gc_statement_timeout_secs (eg_guardrails eng)) @ ''s'')"

definition timed_read :: "env \<Rightarrow> query_engine \<Rightarrow> string \<Rightarrow> dval list \<Rightarrow> query_result eng" where
  "timed_read env eng sql params =
     ebind (read_request env sql params) (\<lambda>out.
     case out of
       Timed_out \<Rightarrow> efail (timeout_error eng)
     | Read_failed e \<Rightarrow> efail (QExecution e)
     | Read_rows qr \<Rightarrow> eret qr)"

definition explain_cost :: "env \<Rightarrow> compiled_query \<Rightarrow> estimate eng" where
  "explain_cost env compiled =
     ebind (read_request env (''EXPLAIN (FORMAT JSON) '' @ cq_sql compiled) (cq_params compiled)) (\<lambda>out.
     case out of
       Read_rows qr \<Rightarrow>
         (case max_cardinality (en_from_str env) qr of
            Some rows \<Rightarrow> eret \<lparr>est_rows = rows\<rparr>
          | None \<Rightarrow> eret estimate_unknown)
     | _ \<Rightarrow> eret estimate_unknown)"

subsection \<open>Shape of the segment\<close>

fun is_derive :: "op \<Rightarrow> bool" where
  "is_derive (Derive n m) \<longleftrightarrow> True"
| "is_derive x \<longleftrightarrow> False"

fun is_characterize :: "op \<Rightarrow> bool" where
  "is_characterize (Characterize ev ts mon cat) \<longleftrightarrow> True"
| "is_characterize x \<longleftrightarrow> False"

definition has_derive :: "segment_query \<Rightarrow> bool" where
  "has_derive q = list_ex is_derive (q_ops q)"

definition has_characterize :: "segment_query \<Rightarrow> bool" where
  "has_characterize q = list_ex is_characterize (q_ops q)"

definition strip_derive :: "segment_query \<Rightarrow> segment_query" where
  "strip_derive q =
     SegmentQuery (q_source q) (q_key q) (filter (\<lambda>x. \<not> is_derive x) (q_ops q)) (q_as_of q)"

subsection \<open>Catalogue enforcement\<close>

text \<open>\<open>rows.first().and_then(|r| r.first())\<close> and its string reading.\<close>

definition first_opt :: "'a list \<Rightarrow> 'a option" where
  "first_opt xs = (case xs of [] \<Rightarrow> None | x # _ \<Rightarrow> Some x)"

definition first_cell :: "query_result \<Rightarrow> json option" where
  "first_cell qr = Option.bind (first_opt (qr_rows qr)) first_opt"

definition first_strings :: "query_result \<Rightarrow> string list" where
  "first_strings qr = List.map_filter (\<lambda>row. Option.bind (first_opt row) as_str) (qr_rows qr)"

text \<open>The UTF-8 bytes of the section sign in two messages.\<close>

definition section_sign :: string where
  "section_sign = [CHR 0xC2, CHR 0xA7]"

definition catalogue_sql :: string where
  "catalogue_sql =
     ''SELECT DISTINCT column_name FROM '' @ READ_ONLY_CATALOG_ALIAS @
     ''.semantic_catalog WHERE system = ? AND table_name = ? AND column_name IS NOT NULL''"

definition catalogue_epoch_sql :: string where
  "catalogue_epoch_sql =
     ''SELECT max(source_epoch) FROM '' @ READ_ONLY_CATALOG_ALIAS @
     ''.semantic_catalog WHERE system = ? AND table_name = ? AND tenant_id = ?''"

definition feature_probe_sql :: string where
  "feature_probe_sql =
     ''SELECT 1 FROM '' @ READ_ONLY_CATALOG_ALIAS @
     ''.feature_store WHERE feature_name = ? AND tenant_id = ? LIMIT 1''"

definition columns_by_table :: "segment_query \<Rightarrow> ((string \<times> string) \<times> string list) list" where
  "columns_by_table q =
     map (\<lambda>(t, cols). (t, bt_set cols))
       (bt_push_all (map (\<lambda>r. ((rc_system r, rc_entity r), rc_column r)) (referenced_columns q)))"

definition check_table :: "env \<Rightarrow> query_engine \<Rightarrow> string \<Rightarrow> (string \<times> string) \<times> string list \<Rightarrow> unit eng" where
  "check_table env eng tenant t =
     (let ((sys, ent), cols) = t in
      ebind (timed_read env eng catalogue_sql [VText sys, VText ent]) (\<lambda>qr.
      let catalogued = first_strings qr in
      ebind (eeach (\<lambda>col.
               if col \<notin> set catalogued then
                 efail (InvalidDsl (Msg (''column {system}.{entity}.{col} is not in the semantic catalogue; '' @
                   ''onboard + profile {system}.{entity} first (spec 13 '' @ section_sign @ ''1)'')
                   [AStr sys, AStr ent, AStr col]))
               else eret ()) cols) (\<lambda>_.
      ebind ehist (\<lambda>log.
      case registry_get (en_freshness env log) sys ent of
        Some meta \<Rightarrow>
          ebind (timed_read env eng catalogue_epoch_sql [VText sys, VText ent, VText tenant]) (\<lambda>qr.
          eret ())
      | None \<Rightarrow> eret ()))))"

definition check_feature :: "env \<Rightarrow> query_engine \<Rightarrow> string \<Rightarrow> string \<Rightarrow> unit eng" where
  "check_feature env eng tenant name =
     ebind (timed_read env eng feature_probe_sql [VText name, VText tenant]) (\<lambda>qr.
     if qr_rows qr = [] then
       efail (InvalidDsl (Msg (''feature {name} is not registered; run the producer first (spec 13 '' @ section_sign @ ''1)'')
         [AStr name]))
     else eret ())"

definition enforce_catalogue :: "env \<Rightarrow> query_engine \<Rightarrow> segment_query \<Rightarrow> string \<Rightarrow> unit eng" where
  "enforce_catalogue env eng q tenant =
     (if \<not> gc_enforce_catalogue (eg_guardrails eng) then eret ()
      else
        ebind (eeach (check_table env eng tenant) (columns_by_table q)) (\<lambda>_.
        eeach (check_feature env eng tenant) (referenced_features q)))"

subsection \<open>Compiling under the guardrails\<close>

definition read_options :: "query_engine \<Rightarrow> string \<Rightarrow> nat option \<Rightarrow> compile_options" where
  "read_options eng tenant limit =
     \<lparr>co_alias = READ_ONLY_CATALOG_ALIAS, co_suppression = eg_suppression eng,
      co_derive_limit = limit, co_tenant = tenant\<rparr>"

definition derive_survivor_limit :: "env \<Rightarrow> query_engine \<Rightarrow> segment_query \<Rightarrow> string \<Rightarrow> nat eng" where
  "derive_survivor_limit env eng q tenant =
     ebind (elift (compile_with_opts (strip_derive q) (read_options eng tenant None))) (\<lambda>c.
     let count_sql = ''SELECT count('' @ ''*) FROM ('' @ cq_sql c @ '') sub'' in
     ebind (timed_read env eng count_sql (cq_params c)) (\<lambda>qr.
     let count = (case Option.bind (first_cell qr) as_u64 of Some n \<Rightarrow> n | None \<Rightarrow> 0) in
     if count > gc_j_survivor_cap (eg_guardrails eng) then efail SurvivorUnbounded else eret count))"

definition compile_and_check :: "env \<Rightarrow> query_engine \<Rightarrow> segment_query \<Rightarrow> string \<Rightarrow> compiled_query eng" where
  "compile_and_check env eng q tenant =
     ebind (enforce_catalogue env eng q tenant) (\<lambda>_.
     if has_derive q then
       ebind (derive_survivor_limit env eng q tenant) (\<lambda>limit.
       elift (compile_with_opts q (read_options eng tenant (Some limit))))
     else elift (compile_with_opts q (read_options eng tenant None)))"

definition prepare :: "env \<Rightarrow> query_engine \<Rightarrow> segment_query \<Rightarrow> string \<Rightarrow> (plan_info \<times> compiled_query) eng" where
  "prepare env eng q tenant =
     ebind (compile_and_check env eng q tenant) (\<lambda>compiled.
     ebind (explain_cost env compiled) (\<lambda>est.
     ebind (elift (enforce est (eg_guardrails eng))) (\<lambda>_.
     let md = if est_rows est > gc_sync_row_cap (eg_guardrails eng) then Async else Sync
     in eret (\<lparr>pl_mode = md, pl_est = est, pl_sources = cq_sources compiled\<rparr>, compiled))))"

definition plan_query :: "env \<Rightarrow> query_engine \<Rightarrow> segment_query \<Rightarrow> string \<Rightarrow> plan_info eng" where
  "plan_query env eng q tenant = ebind (prepare env eng q tenant) (\<lambda>(plan, compiled). eret plan)"

subsection \<open>Running\<close>

definition fresh_query_id :: "env \<Rightarrow> request list \<Rightarrow> string" where
  "fresh_query_id env log = ''q_'' @ en_uuid env log"

definition run_characterize :: "env \<Rightarrow> query_engine \<Rightarrow> segment_query \<Rightarrow> string \<Rightarrow> sync_result eng" where
  "run_characterize env eng q tenant =
     ebind (enforce_catalogue env eng q tenant) (\<lambda>_.
     ebind (elift (compile_characterize q (read_options eng tenant None))) (\<lambda>queries.
     ebind (timed_read env eng (cq_sql (ch_metrics queries)) (cq_params (ch_metrics queries))) (\<lambda>metrics.
     ebind (timed_read env eng (cq_sql (ch_recency queries)) (cq_params (ch_recency queries))) (\<lambda>recency.
     ebind (timed_read env eng (cq_sql (ch_categories queries)) (cq_params (ch_categories queries))) (\<lambda>categories.
     ebind ehist (\<lambda>log.
     eret \<lparr>sy_columns = [''profile''], sy_rows = [[assemble_profile metrics recency categories]], sy_count = 1,
           sy_freshness = registry_worst (en_freshness env log) (cq_sources (ch_metrics queries)) (en_now env log),
           sy_query_id = fresh_query_id env log\<rparr>))))))"

definition output_cap_error :: "query_engine \<Rightarrow> query_error" where
  "output_cap_error eng = Guardrail ''max_output_rows'' (show_nat (gc_max_output_rows (eg_guardrails eng)))"

definition run_sync :: "env \<Rightarrow> query_engine \<Rightarrow> segment_query \<Rightarrow> string \<Rightarrow> sync_result eng" where
  "run_sync env eng q tenant =
     (if has_characterize q then run_characterize env eng q tenant
      else
        ebind (prepare env eng q tenant) (\<lambda>(plan, compiled).
        if pl_mode plan = Async then efail TooLarge
        else
          ebind (timed_read env eng (cq_sql compiled) (cq_params compiled)) (\<lambda>qr.
          if length (qr_rows qr) > gc_max_output_rows (eg_guardrails eng) then efail (output_cap_error eng)
          else
            ebind ehist (\<lambda>log.
            eret \<lparr>sy_columns = qr_columns qr, sy_rows = qr_rows qr, sy_count = length (qr_rows qr),
                  sy_freshness = registry_worst (en_freshness env log) (cq_sources compiled) (en_now env log),
                  sy_query_id = fresh_query_id env log\<rparr>))))"

definition run_query ::
  "(json \<Rightarrow> (msg, segment_query) result) \<Rightarrow> (string \<Rightarrow> bool) \<Rightarrow> env \<Rightarrow> query_engine \<Rightarrow> json \<Rightarrow> string \<Rightarrow> sync_result eng"
where
  "run_query from_value rfc3339 env eng dsl tenant =
     ebind (elift (parse from_value rfc3339 dsl)) (\<lambda>q. run_sync env eng q tenant)"

definition run_sql_approved :: "env \<Rightarrow> query_engine \<Rightarrow> string \<Rightarrow> string \<Rightarrow> sync_result eng" where
  "run_sql_approved env eng sql tenant =
     ebind (timed_read env eng sql []) (\<lambda>qr.
     if length (qr_rows qr) > gc_max_output_rows (eg_guardrails eng) then efail (output_cap_error eng)
     else
       ebind ehist (\<lambda>log.
       eret \<lparr>sy_columns = qr_columns qr, sy_rows = qr_rows qr, sy_count = length (qr_rows qr),
             sy_freshness = freshness_batch 0, sy_query_id = fresh_query_id env log\<rparr>))"

subsection \<open>Materialising\<close>

text \<open>Best effort: an unreadable store freezes no features.\<close>

definition feature_families_sql :: string where
  "feature_families_sql = ''SELECT DISTINCT feature_name FROM dro.feature_store WHERE tenant_id = ?''"

definition group_families :: "string list \<Rightarrow> (string \<times> string list) list" where
  "group_families names =
     map (\<lambda>(family, shorts). (family, bt_set shorts))
       (bt_push_all (List.map_filter (\<lambda>n. ok_option (split_feature_name n)) names))"

definition feature_families :: "env \<Rightarrow> query_engine \<Rightarrow> string \<Rightarrow> (string \<times> string list) list eng" where
  "feature_families env eng tenant log =
     (case timed_read env eng feature_families_sql [VText tenant] log of
        (Inl e, log) \<Rightarrow> (Inr bt_empty, log)
      | (Inr qr, log) \<Rightarrow> (Inr (group_families (first_strings qr)), log))"

definition min_opt :: "int list \<Rightarrow> int option" where
  "min_opt xs = (if xs = [] then None else Some (Min (set xs)))"

text \<open>The cut-off: the least epoch of the registered sources, now when none is registered.\<close>

definition as_of_epoch :: "freshness_registry \<Rightarrow> dataset list \<Rightarrow> int \<Rightarrow> int" where
  "as_of_epoch reg sources now =
     (case min_opt (map sm_last_epoch_secs
         (List.map_filter (\<lambda>d. registry_get reg (ds_system d) (ds_entity d)) sources)) of
        Some e \<Rightarrow> e | None \<Rightarrow> now)"

text \<open>One iteration of the loop over the families: its join, its two parameters, its pairs.\<close>

definition family_alias :: "nat \<Rightarrow> string" where
  "family_alias idx = ''fs_'' @ show_nat idx"

definition pivot_select :: "string \<Rightarrow> string list \<Rightarrow> string" where
  "pivot_select family shorts =
     join '', '' ([''user_id'', ''tenant_id''] @
       map (\<lambda>short. ''arg_max(num_value, as_of_ts) FILTER (WHERE feature_name = '' @ sq @ family @ ''.'' @ short @ sq @
                     '') AS '' @ short) shorts)"

definition family_join :: "nat \<Rightarrow> string \<Rightarrow> string list \<Rightarrow> string \<Rightarrow> string" where
  "family_join idx family shorts key =
     (let fa = family_alias idx in
      '' LEFT JOIN (SELECT '' @ pivot_select family shorts @ '' FROM '' @ WRITE_CATALOG_ALIAS @
      ''.feature_store WHERE starts_with(feature_name, '' @ sq @ family @ ''.'' @ sq @
      '') AND as_of_ts <= CAST(? AS TIMESTAMPTZ) GROUP BY user_id, tenant_id) '' @ fa @ '' ON '' @ fa @
      ''.user_id = s.'' @ key @ '' AND '' @ fa @ ''.tenant_id = ?'')"

definition family_pairs :: "nat \<Rightarrow> string \<Rightarrow> string list \<Rightarrow> string list" where
  "family_pairs idx family shorts =
     map (\<lambda>short. sq @ family @ ''.'' @ short @ sq @ '', '' @ family_alias idx @ ''.'' @ short) shorts"

fun freeze_loop ::
  "string \<Rightarrow> string \<Rightarrow> string \<Rightarrow> nat \<Rightarrow> (string \<times> string list) list
     \<Rightarrow> string \<times> dval list \<times> string list \<Rightarrow> string \<times> dval list \<times> string list"
where
  "freeze_loop key as_of_ts tenant idx [] (joins, params, pairs) = (joins, params, pairs)"
| "freeze_loop key as_of_ts tenant idx ((family, shorts) # rest) (joins, params, pairs) =
     freeze_loop key as_of_ts tenant (idx + 1) rest
       (joins @ family_join idx family shorts key,
        params @ [VText as_of_ts] @ [VText tenant],
        pairs @ family_pairs idx family shorts)"

definition features_expr :: "string list \<Rightarrow> string" where
  "features_expr pairs = (if pairs = [] then ''json_object()'' else ''json_object('' @ join '', '' pairs @ '')'')"

text \<open>The wrapped statement of the writer and its parameters.\<close>

definition wrap_segment ::
  "string \<Rightarrow> string \<Rightarrow> string \<Rightarrow> string \<Rightarrow> (string \<times> string list) list \<Rightarrow> compiled_query \<Rightarrow> string \<times> dval list"
where
  "wrap_segment key hit_reason as_of_ts tenant families wr =
     (let (joins, params, pairs) =
            freeze_loop key as_of_ts tenant 0 families ([], [VText hit_reason] @ cq_params wr, [])
      in (''SELECT s.'' @ key @ '' AS '' @ key @ '', '' @ features_expr pairs @
          '' AS features, CAST(? AS JSON) AS hit_reason FROM ('' @ cq_sql wr @ '') s'' @ joins, params))"

definition write_options :: "query_engine \<Rightarrow> string \<Rightarrow> compile_options" where
  "write_options eng tenant =
     \<lparr>co_alias = WRITE_CATALOG_ALIAS, co_suppression = eg_suppression eng,
      co_derive_limit = None, co_tenant = tenant\<rparr>"

definition materialize_request ::
  "env \<Rightarrow> string \<Rightarrow> dval list \<Rightarrow> string \<Rightarrow> snapshot_spec \<Rightarrow> string \<Rightarrow> nat eng"
where
  "materialize_request env sql params key spec tenant log =
     (let log = log @ [Write_request sql params key spec tenant]
      in (map_err QExecution (en_write env log), log))"

definition materialize :: "env \<Rightarrow> query_engine \<Rightarrow> segment_query \<Rightarrow> string \<Rightarrow> string \<Rightarrow> string eng" where
  "materialize env eng q campaign_id tenant =
     (if has_derive q then
        efail (InvalidDsl (Msg
          ''a JIT Derive returns a metric, not a segment; it cannot be materialised'' []))
      else if has_characterize q then
        efail (InvalidDsl (Msg
          ''a Characterize returns a profile, not a segment; it cannot be materialised'' []))
      else
        ebind (compile_and_check env eng q tenant) (\<lambda>compiled.
        ebind (explain_cost env compiled) (\<lambda>est.
        ebind ehist (\<lambda>log.
        let snapshot_id = en_uuid env log;
            epoch = as_of_epoch (en_freshness env log) (cq_sources compiled) (en_now env log);
            as_of_ts = (case en_to_rfc3339 env epoch of Some s \<Rightarrow> s | None \<Rightarrow> en_utc_now env log) in
        ebind (elift (map_err (\<lambda>e. InvalidDsl (Msg ''serialize hit_reason: {e}'' [AMsg e]))
                 (en_ops_json env (q_ops q)))) (\<lambda>hit_reason.
        ebind (feature_families env eng tenant) (\<lambda>families.
        ebind (elift (compile_with_opts q (write_options eng tenant))) (\<lambda>wr.
        let (sql, params) = wrap_segment (q_key q) hit_reason as_of_ts tenant families wr;
            spec = \<lparr>sp_snapshot_id = snapshot_id, sp_campaign_id = campaign_id, sp_as_of_ts = as_of_ts\<rparr> in
        ebind (materialize_request env sql params (q_key q) spec tenant) (\<lambda>_.
        eret (''snap_'' @ snapshot_id)))))))))"

subsection \<open>Snapshot metadata\<close>

definition snapshot_meta_sql :: string where
  "snapshot_meta_sql =
     ''SELECT campaign_id, CAST(as_of_ts AS VARCHAR), count('' @ ''*) FROM dro.audience_snapshot WHERE '' @
     ''snapshot_id = CAST(? AS UUID) AND tenant_id = ? GROUP BY campaign_id, as_of_ts''"

text \<open>\<open>row.get(i)\<close>\<close>

definition cell_at :: "json list \<Rightarrow> nat \<Rightarrow> json option" where
  "cell_at row i = (if i < length row then Some (row ! i) else None)"

definition str_or_empty :: "json option \<Rightarrow> string" where
  "str_or_empty c = (case Option.bind c as_str of Some s \<Rightarrow> s | None \<Rightarrow> [])"

definition snapshot_meta :: "env \<Rightarrow> query_engine \<Rightarrow> string \<Rightarrow> string \<Rightarrow> snapshot_meta_row option eng" where
  "snapshot_meta env eng snap_uuid tenant =
     ebind (timed_read env eng snapshot_meta_sql [VText snap_uuid, VText tenant]) (\<lambda>qr.
     case qr_rows qr of
       [] \<Rightarrow> eret None
     | row # _ \<Rightarrow>
         eret (Some \<lparr>me_snapshot_id = snap_uuid,
                     me_campaign_id = str_or_empty (cell_at row 0),
                     me_as_of_ts = str_or_empty (cell_at row 1),
                     me_row_count = (case Option.bind (cell_at row 2) as_u64 of Some n \<Rightarrow> n | None \<Rightarrow> 0)\<rparr>))"

end
