(* ===== verification/Float64_Props.thy ===== *)
theory Float64_Props
  imports Float64 Complex_Main
begin

text \<open>
  What rounding guarantees: the nearest float of the format, within half a unit of the last place
  (\<open>round_parts\<close>, \<open>round_ratio_le\<close>), always canonical (\<open>round_ratio_wf\<close> and its consequences for the
  operations), so that bit patterns and floats correspond (\<open>bits_round_trip\<close>); and the sign of results.
\<close>

subsection \<open>Quotients and shifts\<close>

lemma bit_length_bounds: "0 < n \<Longrightarrow> 2 ^ (bit_length n - 1) \<le> n \<and> n < 2 ^ bit_length n"
proof (induction n rule: bit_length.induct)
  case (1 n)
  show ?case
  proof (cases "n div 2 = 0")
    case True
    with 1(2) have "n = 1" by simp
    then show ?thesis by (simp add: bit_length.simps)
  next
    case False
    with 1 have ih: "2 ^ (bit_length (n div 2) - 1) \<le> n div 2" "n div 2 < 2 ^ bit_length (n div 2)" by auto
    from False have "0 < bit_length (n div 2)" by (subst bit_length.simps) simp
    then obtain k where k: "bit_length (n div 2) = Suc k" by (cases "bit_length (n div 2)") auto
    with 1(2) have "bit_length n = Suc (Suc k)" by (subst bit_length.simps) simp
    with ih k show ?thesis by simp linarith
  qed
qed

lemma bit_length_pos: "0 < n \<Longrightarrow> 0 < bit_length n"
  by (subst bit_length.simps) simp

text \<open>Shifting by a signed amount, exactly.\<close>

lemma shift_ratio:
  "real (num * 2 ^ nat (- e)) / real (den * 2 ^ nat e) = real num / real den * 2 powi (- e)"
proof (cases "0 \<le> e")
  case True
  then show ?thesis by (simp add: power_int_minus power_int_def field_simps)
next
  case False
  then show ?thesis by (simp add: power_int_def field_simps)
qed

lemma log2_ratio_bounds:
  assumes "0 < num" "0 < den"
  shows "2 powi log2_ratio num den \<le> real num / real den" "real num / real den < 2 powi (log2_ratio num den + 1)"
proof -
  let ?q = "real num / real den"
  define k where "k = int (bit_length num) - int (bit_length den)"
  note bn = bit_length_bounds [OF assms(1)] and bd = bit_length_bounds [OF assms(2)]
  note pn = bit_length_pos [OF assms(1)] and pd = bit_length_pos [OF assms(2)]
  have n1: "2 ^ (bit_length num - 1) \<le> real num" and n2: "real num < 2 ^ bit_length num"
    using bn by (metis of_nat_le_iff of_nat_less_iff of_nat_numeral of_nat_power)+
  have d1: "2 ^ (bit_length den - 1) \<le> real den" and d2: "real den < 2 ^ bit_length den"
    using bd by (metis of_nat_le_iff of_nat_less_iff of_nat_numeral of_nat_power)+
  have cmp: "den * 2 ^ nat k \<le> num * 2 ^ nat (- k) \<longleftrightarrow> 2 powi k \<le> ?q"
  proof -
    have "den * 2 ^ nat k \<le> num * 2 ^ nat (- k) \<longleftrightarrow> real (den * 2 ^ nat k) \<le> real (num * 2 ^ nat (- k))"
      by (simp only: of_nat_le_iff)
    also have "\<dots> \<longleftrightarrow> 1 \<le> real (num * 2 ^ nat (- k)) / real (den * 2 ^ nat k)"
      using assms by (simp add: le_divide_eq)
    also have "\<dots> \<longleftrightarrow> 2 powi k \<le> ?q"
      unfolding shift_ratio using assms by (simp add: power_int_minus field_simps)
    finally show ?thesis .
  qed
  have pow_n: "(2 :: real) ^ bit_length num = 2 * 2 ^ (bit_length num - 1)"
    and pow_d: "(2 :: real) ^ bit_length den = 2 * 2 ^ (bit_length den - 1)"
    using pn pd by (metis power_eq_if less_numeral_extra(3))+
  have k2: "(2 :: real) powi k = 2 ^ bit_length num / 2 ^ bit_length den"
    by (simp add: k_def power_int_diff)
  have up: "?q < 2 powi (k + 1)"
  proof -
    have "?q < 2 ^ bit_length num / 2 ^ (bit_length den - 1)"
      by (rule frac_less) (use n1 n2 d1 in simp_all)
    also have "\<dots> = 2 powi k * 2" by (simp add: k2 pow_d)
    finally show ?thesis by (simp add: power_int_add)
  qed
  have low: "2 powi (k - 1) \<le> ?q"
  proof -
    have "2 powi (k - 1) = (2 :: real) ^ (bit_length num - 1) / 2 ^ bit_length den"
      by (simp add: power_int_diff k2 pow_n)
    also have "\<dots> \<le> ?q"
      by (rule frac_le) (use n1 d2 assms in simp_all)
    finally show ?thesis .
  qed
  show "2 powi log2_ratio num den \<le> ?q" "?q < 2 powi (log2_ratio num den + 1)"
    using cmp up low by (auto simp: log2_ratio_def k_def [symmetric] Let_def)
qed

lemma div_half_even_near:
  assumes "0 < d"
  shows "\<bar>real (div_half_even n d) - real n / real d\<bar> \<le> 1 / 2"
proof -
  let ?q = "n div d" and ?r = "n mod d"
  have r: "?r < d" using assms by simp
  have "real n = real ?q * real d + real ?r"
    by (metis div_mult_mod_eq of_nat_add of_nat_mult)
  then have n: "real n / real d = real ?q + real ?r / real d" using assms by (simp add: field_simps)
  show ?thesis
  proof (cases "2 * ?r > d \<or> 2 * ?r = d \<and> odd ?q")
    case True
    then have "d \<le> 2 * ?r" by auto
    then have "real d \<le> real (2 * ?r)" by (simp only: of_nat_le_iff)
    then have "1 / 2 \<le> real ?r / real d" "real ?r / real d \<le> 1" using assms r by (simp_all add: field_simps)
    with True n show ?thesis by (simp add: div_half_even_def Let_def)
  next
    case False
    then have "2 * ?r \<le> d" by auto
    then have "real (2 * ?r) \<le> real d" by (simp only: of_nat_le_iff)
    then have "real ?r / real d \<le> 1 / 2" using assms by (simp add: field_simps)
    moreover from False have "div_half_even n d = ?q" by (auto simp: div_half_even_def Let_def)
    ultimately show ?thesis using n by simp
  qed
qed

lemma div_half_even_le: "0 < d \<Longrightarrow> real n / real d \<le> real b \<Longrightarrow> div_half_even n d \<le> b"
proof -
  assume d: "0 < d" and le: "real n / real d \<le> real b"
  from div_half_even_near [OF d, of n] le have "real (div_half_even n d) \<le> real b + 1 / 2" by linarith
  then have "real (div_half_even n d) < real (b + 1)" by simp
  then have "div_half_even n d < b + 1" by (simp only: of_nat_less_iff)
  then show ?thesis by simp
qed

lemma div_half_even_ge: "0 < d \<Longrightarrow> real b \<le> real n / real d \<Longrightarrow> b \<le> div_half_even n d"
proof -
  assume d: "0 < d" and le: "real b \<le> real n / real d"
  from div_half_even_near [OF d, of n] le have "real b < real (div_half_even n d) + 1" by linarith
  then have "real b < real (div_half_even n d + 1)" by simp
  then have "b < div_half_even n d + 1" by (simp only: of_nat_less_iff)
  then show ?thesis by simp
qed

subsection \<open>What rounding gives\<close>

text \<open>The canonical floats of a format: the mantissa fits, and is normalised above the least exponent.\<close>

fun fl_wf :: "ieee \<Rightarrow> fl \<Rightarrow> bool" where
  "fl_wf f (Fin s m e) \<longleftrightarrow>
     m < 2 ^ prec f \<and> emin f \<le> e \<and> e \<le> emax f \<and> (2 ^ (prec f - 1) \<le> m \<or> e = emin f)"
| "fl_wf f x \<longleftrightarrow> True"

fun fl_val :: "fl \<Rightarrow> real" where
  "fl_val (Fin s m e) = (if s then - 1 else 1) * real m * 2 powi e"
| "fl_val x = 0"

lemma format_facts: "0 < prec f" "(2 :: nat) ^ prec f = 2 * 2 ^ (prec f - 1)" "emin f < emax f"
    "emin f + int (prec f) - 1 \<le> 0" "0 \<le> emax f"
  by (cases f; simp)+

lemma powi_nat: "0 \<le> i \<Longrightarrow> (2 :: real) powi i = real (2 ^ nat i)"
  by (simp add: power_int_def)

text \<open>The exponent and the mantissa before a carry.\<close>

lemma round_parts:
  fixes f :: ieee
  assumes "0 < num" "0 < den"
  defines "e \<equiv> max (emin f) (log2_ratio num den - (int (prec f) - 1))"
  defines "m \<equiv> div_half_even (num * 2 ^ nat (- e)) (den * 2 ^ nat e)"
  shows "round_ratio f s num den = (if m = 2 ^ prec f then finish f s (2 ^ (prec f - 1)) (e + 1) else finish f s m e)"
    and "m \<le> 2 ^ prec f" and "e = emin f \<or> 2 ^ (prec f - 1) \<le> m" and "emin f \<le> e"
    and "\<bar>real m - real num / real den * 2 powi (- e)\<bar> \<le> 1 / 2"
proof -
  let ?L = "log2_ratio num den" and ?x = "real num / real den * 2 powi (- e)"
  note L = log2_ratio_bounds [OF assms(1,2)]
  have d: "0 < den * 2 ^ nat e" using assms by simp
  have x: "real (num * 2 ^ nat (- e)) / real (den * 2 ^ nat e) = ?x" by (rule shift_ratio)
  show "round_ratio f s num den = (if m = 2 ^ prec f then finish f s (2 ^ (prec f - 1)) (e + 1) else finish f s m e)"
    using assms by (simp add: round_ratio_def Let_def)
  show "\<bar>real m - ?x\<bar> \<le> 1 / 2"
    using div_half_even_near [OF d, of "num * 2 ^ nat (- e)"] x by (simp only: m_def)
  show "emin f \<le> e" by (simp add: e_def)
  have "?x \<le> 2 powi (?L + 1) * 2 powi (- e)" using L(2) by (intro mult_right_mono) simp_all
  also have "\<dots> = 2 powi (?L + 1 - e)" by (simp add: power_int_add [symmetric])
  also have "\<dots> \<le> 2 powi (int (prec f))" by (rule power_int_increasing) (simp_all add: e_def)
  also have "\<dots> = real (2 ^ prec f)" by (simp add: power_int_def)
  finally show "m \<le> 2 ^ prec f" unfolding m_def using d x by (intro div_half_even_le) simp_all
  show "e = emin f \<or> 2 ^ (prec f - 1) \<le> m"
  proof (cases "e = emin f")
    case False
    then have e: "e = ?L - (int (prec f) - 1)" by (simp add: e_def max_def split: if_splits)
    have "real (2 ^ (prec f - 1)) = 2 powi (?L - e)"
      using format_facts(1) [of f] by (simp add: e power_int_def nat_diff_distrib)
    also have "\<dots> = 2 powi ?L * 2 powi (- e)" by (simp add: power_int_add [symmetric])
    also have "\<dots> \<le> ?x" using L(1) by (intro mult_right_mono) simp_all
    finally have "2 ^ (prec f - 1) \<le> m" unfolding m_def using d x by (intro div_half_even_ge) simp_all
    then show ?thesis ..
  qed simp
qed

lemma round_ratio_wf: "0 < den \<Longrightarrow> fl_wf f (round_ratio f s num den)"
proof (cases "num = 0")
  case True
  then show ?thesis using format_facts(3) [of f] by (simp add: round_ratio_def)
next
  case False
  assume den: "0 < den"
  define e where "e = max (emin f) (log2_ratio num den - (int (prec f) - 1))"
  define m where "m = div_half_even (num * 2 ^ nat (- e)) (den * 2 ^ nat e)"
  have parts: "round_ratio f s num den = (if m = 2 ^ prec f then finish f s (2 ^ (prec f - 1)) (e + 1) else finish f s m e)"
      "m \<le> 2 ^ prec f" "e = emin f \<or> 2 ^ (prec f - 1) \<le> m" "emin f \<le> e"
    using False den round_parts(1) [of num den f s] round_parts(2-4) [of num den f] by (simp_all add: e_def m_def)
  then show ?thesis using format_facts(2,3) [of f] by (auto simp: finish_def)
qed

lemma round_ratio_sign: "round_ratio f s num den = Inf s \<or> (\<exists>m e. round_ratio f s num den = Fin s m e)"
  by (auto simp: round_ratio_def finish_def Let_def)

lemma round_ratio_le:
  assumes den: "0 < den" and le: "real num / real den \<le> 2 powi k"
    and k: "emin f + int (prec f) - 1 \<le> k" "k \<le> emax f"
  obtains m e where "round_ratio f s num den = Fin s m e" "real m * 2 powi e \<le> 2 powi k"
proof (cases "num = 0")
  case True
  then show thesis using that by (simp add: round_ratio_def)
next
  case False
  define e where "e = max (emin f) (log2_ratio num den - (int (prec f) - 1))"
  define m where "m = div_half_even (num * 2 ^ nat (- e)) (den * 2 ^ nat e)"
  have parts: "round_ratio f s num den = (if m = 2 ^ prec f then finish f s (2 ^ (prec f - 1)) (e + 1) else finish f s m e)"
    using False den round_parts(1) [of num den f s] by (simp add: e_def m_def)
  from False den log2_ratio_bounds(1) [of num den] le have "(2 :: real) powi log2_ratio num den \<le> 2 powi k" by simp
  then have "log2_ratio num den \<le> k" using power_int_strict_increasing [of k "log2_ratio num den" "2 :: real"] by (cases "log2_ratio num den \<le> k") auto
  with k have e: "e \<le> k - int (prec f) + 1" by (simp add: e_def)
  have "real (num * 2 ^ nat (- e)) / real (den * 2 ^ nat e) \<le> 2 powi k * 2 powi (- e)"
    unfolding shift_ratio using le by (intro mult_right_mono) simp_all
  also have "\<dots> = real (2 ^ nat (k - e))"
    using e format_facts(1) [of f] by (simp add: power_int_add [symmetric] powi_nat)
  finally have m: "m \<le> 2 ^ nat (k - e)" unfolding m_def using den by (intro div_half_even_le) simp_all
  then have "real m * 2 powi e \<le> real (2 ^ nat (k - e)) * 2 powi e"
    by (intro mult_right_mono) (simp_all only: of_nat_le_iff zero_le_power_int zero_le_numeral)
  also have "\<dots> = 2 powi k"
    using e format_facts(1) [of f] by (simp add: powi_nat [symmetric] power_int_add [symmetric] del: of_nat_power)
  finally have val: "real m * 2 powi e \<le> 2 powi k" .
  show thesis
  proof (cases "m = 2 ^ prec f")
    case True
    with m have "(2 :: nat) ^ prec f \<le> 2 ^ nat (k - e)" by simp
    then have "prec f \<le> nat (k - e)" by simp
    with k format_facts(1) [of f] have "e + 1 \<le> emax f" by linarith
    moreover have "real (2 ^ (prec f - 1)) * 2 powi (e + 1) = real m * 2 powi e"
      by (simp add: True format_facts(2) power_int_add)
    ultimately show thesis using that [of "2 ^ (prec f - 1)" "e + 1"] parts True val by (simp add: finish_def)
  next
    case F: False
    with that [of m e] parts val e k format_facts(1) [of f] show thesis by (simp add: finish_def)
  qed
qed


text \<open>Every operation gives a canonical float.\<close>

lemma fl_wf_zero: "fl_wf f (Fin s 0 (emin f))"
  using format_facts(3) [of f] by simp

lemma fadd_wf: "fl_wf f (fadd f x y)"
  by (cases "(f, x, y)" rule: fadd.cases) (auto simp: Let_def fl_wf_zero simp del: fl_wf.simps(1) intro!: round_ratio_wf)

lemma fmul_wf: "fl_wf f (fmul f x y)"
  by (cases "(f, x, y)" rule: fmul.cases) (auto simp del: fl_wf.simps(1) intro!: round_ratio_wf)

lemma fdiv_wf: "fl_wf f (fdiv f x y)"
  by (cases "(f, x, y)" rule: fdiv.cases) (auto simp: fl_wf_zero simp del: fl_wf.simps(1) intro!: round_ratio_wf)

lemma fsub_wf: "fl_wf f (fsub f x y)"
  by (simp add: fsub_def fadd_wf)

lemma fmax_wf: "fl_wf f x \<Longrightarrow> fl_wf f y \<Longrightarrow> fl_wf f (fmax x y)"
  by (simp add: fmax_def)

lemma common_exp_commute: "m \<noteq> 0 \<or> m' \<noteq> 0 \<Longrightarrow> common_exp m e m' e' = common_exp m' e' m e"
  by (auto simp: common_exp_def min.commute)

lemma fadd_fin_commute: "fadd f (Fin s m e) (Fin s' m' e') = fadd f (Fin s' m' e') (Fin s m e)"
proof (cases "m = 0 \<and> m' = 0")
  case True
  then show ?thesis by (simp add: sgn_int_def conj_commute Let_def)
next
  case False
  then have "common_exp m' e' m e = common_exp m e m' e'" using common_exp_commute by blast
  then show ?thesis by (simp only: fadd.simps Let_def add.commute [of "sgn_int s' _"] conj_commute [of s'])
qed

lemma fadd_commute: "fadd f x y = fadd f y x"
  by (cases x; cases y) (auto simp only: fadd_fin_commute fadd.simps split: if_split)

lemma fmul_commute: "fmul f x y = fmul f y x"
  by (cases "(f, x, y)" rule: fmul.cases) (auto simp: mult.commute add.commute eq_commute)

subsection \<open>Signs\<close>

text \<open>\<open>nonneg x\<close>: no sign bit, or a NaN.\<close>

fun nonneg :: "fl \<Rightarrow> bool" where
  "nonneg NaN \<longleftrightarrow> True"
| "nonneg (Inf s) \<longleftrightarrow> \<not> s"
| "nonneg (Fin s m e) \<longleftrightarrow> \<not> s"

lemma nonneg_round [simp]: "nonneg (round_ratio f s num den) \<longleftrightarrow> \<not> s"
  using round_ratio_sign [of f s num den] by auto

lemma sgn_int_pos: "0 \<le> sgn_int False m"
  by (simp add: sgn_int_def)

lemma sgn_int_neg: "(sgn_int s n < 0) = (s \<and> 0 < n)"
  by (simp add: sgn_int_def)

lemma nonneg_fadd: "nonneg x \<Longrightarrow> nonneg y \<Longrightarrow> nonneg (fadd f x y)"
  by (cases "(f, x, y)" rule: fadd.cases)
     (auto simp: Let_def not_less intro: add_nonneg_nonneg sgn_int_pos)

lemma nonneg_fadd_zero: "nonneg y \<Longrightarrow> nonneg (fadd f (Fin True 0 e) y)"
  by (cases y) (auto simp: Let_def sgn_int_neg [of True] sgn_int_neg [of False] sgn_int_def [of _ 0])

lemma nonneg_square: "nonneg (fmul f x x)"
  by (cases x) auto

lemma nonneg_fdiv: "nonneg x \<Longrightarrow> nonneg y \<Longrightarrow> nonneg (fdiv f x y)"
  by (cases "(f, x, y)" rule: fdiv.cases) auto

lemma nonneg_fsqrt: "nonneg x \<Longrightarrow> nonneg (fsqrt x)"
  by (cases x) (auto simp: Let_def)

lemma nonneg_of_int: "0 \<le> i \<Longrightarrow> nonneg (fl_of_int f i)"
  by (simp add: fl_of_int_def)

lemma nonneg_foldl: "nonneg a \<Longrightarrow> list_all nonneg xs \<Longrightarrow> nonneg (foldl (fadd f) a xs)"
  by (induction xs arbitrary: a) (auto intro: nonneg_fadd)

lemma nonneg_fsum: "xs \<noteq> [] \<Longrightarrow> list_all nonneg xs \<Longrightarrow> nonneg (fsum xs)"
  by (cases xs) (auto simp: fsum_def intro!: nonneg_foldl nonneg_fadd_zero)

text \<open>One minus a number that is not negative, cut off below at zero, lies between zero and one.\<close>

lemma fl_cmp_int_zero: "fl_cmp_int s m e False 0 e' < 0 \<longleftrightarrow> s \<and> 0 < m"
  by (simp add: fl_cmp_int_def Let_def sgn_int_neg sgn_int_def [of _ 0])

lemma one_minus_unit:
  assumes "nonneg x"
  obtains s m e where "fmax (fsub F64 one x) (zero F64) = Fin s m e"
    "0 \<le> fl_val (Fin s m e)" "fl_val (Fin s m e) \<le> 1"
proof (cases x)
  case NaN
  then show thesis using that [of False 0 "emin F64"] by (simp add: fsub_def one_def fmax_def zero_def)
next
  case (Inf s)
  with assms show thesis using that [of False 0 "emin F64"] by (simp add: fsub_def one_def fmax_def zero_def)
next
  case (Fin s m e)
  with assms have x: "x = Fin False m e" by simp
  define b where "b = common_exp (2 ^ 52) (- 52) m e"
  define v where "v = int (2 ^ 52 * 2 ^ nat (- 52 - b)) - int (m * 2 ^ nat (e - b))"
  have sub: "fsub F64 one x = (if v = 0 then Fin False 0 (emin F64)
      else round_ratio F64 (v < 0) (nat \<bar>v\<bar> * 2 ^ nat b) (2 ^ nat (- b)))"
    by (simp add: fsub_def one_def x Let_def sgn_int_def b_def v_def)
  consider "v = 0" | "v < 0" | "0 < v" by linarith
  then show thesis
  proof cases
    case 1
    then show thesis using that [of False 0 "emin F64"] by (simp add: sub fmax_def zero_def fl_cmp_int_def sgn_int_def)
  next
    case 2
    show thesis
    proof (cases "flt (fsub F64 one x) (zero F64)")
      case True
      then show thesis using that [of False 0 "emin F64"] by (auto simp: fmax_def zero_def)
    next
      case False
      with 2 obtain m' e' where m': "fsub F64 one x = Fin True m' e'"
        using round_ratio_sign [of F64 True "nat \<bar>v\<bar> * 2 ^ nat b" "2 ^ nat (- b)"] by (auto simp: sub zero_def)
      with False have "m' = 0" by (simp add: zero_def fl_cmp_int_zero)
      with m' False show thesis using that [of True 0 e'] by (simp add: fmax_def zero_def)
    qed
  next
    case 3
    have b: "b \<le> - 52" by (simp add: b_def common_exp_def)
    have "nat \<bar>v\<bar> \<le> 2 ^ 52 * 2 ^ nat (- 52 - b)" using 3 unfolding v_def by linarith
    also have "\<dots> = 2 ^ nat (- b)" using b by (simp add: power_add [symmetric] nat_add_distrib [symmetric] flip: nat_numeral)
    finally have le: "nat \<bar>v\<bar> \<le> 2 ^ nat (- b)" .
    then have "real (nat \<bar>v\<bar>) \<le> real (2 ^ nat (- b))" by (simp only: of_nat_le_iff)
    then have "real (nat \<bar>v\<bar> * 2 ^ nat b) / real (2 ^ nat (- b)) \<le> 2 powi 0"
      using b by simp
    then obtain m' e' where r: "round_ratio F64 (v < 0) (nat \<bar>v\<bar> * 2 ^ nat b) (2 ^ nat (- b)) = Fin (v < 0) m' e'"
      "real m' * 2 powi e' \<le> 2 powi 0"
      using round_ratio_le [of "2 ^ nat (- b)" "nat \<bar>v\<bar> * 2 ^ nat b" 0 F64 "v < 0"] by (metis format_facts(4,5) zero_less_numeral zero_less_power)
    with 3 have "fsub F64 one x = Fin False m' e'" by (simp add: sub)
    with r show thesis using that [of False m' e'] by (simp add: fmax_def zero_def fl_cmp_int_zero)
  qed
qed

subsection \<open>Bit patterns\<close>

lemma bit_fields:
  fixes W X k r S :: nat
  assumes "r < W" "k < X"
  defines "b \<equiv> S * (W * X) + (k * W + r)"
  shows "b div W mod X = k" "b mod W = r" "b div (W * X) = S"
proof -
  have b: "b = r + W * (S * X + k)" by (simp add: b_def algebra_simps)
  have "b div W = S * X + k" using assms(1) by (simp add: b)
  then show "b div W mod X = k" "b mod W = r" "b div (W * X) = S"
    using assms(1,2) by (simp_all add: b div_mult2_eq)
qed

lemma field_facts: "nat (emax f - emin f + 1) < 2 ^ exp_bits f - 1" "(1 :: nat) < 2 ^ exp_bits f - 1"
  by (cases f; simp add: exp_bits_def)+

theorem bits_round_trip:
  assumes wf: "fl_wf f x" and num: "x \<noteq> NaN"
  shows "fl_of_bits f (bits_of f x) = x"
proof -
  let ?W = "2 ^ (prec f - 1) :: nat" and ?X = "2 ^ exp_bits f :: nat"
  show ?thesis
  proof (cases x)
    case (Fin s m e)
    define S k r where "S = (if s then 1 else 0 :: nat)" and "k = (if m < ?W then 0 else nat (e - emin f + 1))"
      and "r = (if m < ?W then m else m - ?W)"
    from wf Fin format_facts(2) [of f] have r: "r < ?W" by (auto simp: r_def)
    from wf Fin have "k \<le> nat (emax f - emin f + 1)" by (auto simp: k_def)
    with field_facts(1) [of f] have k: "k < ?X - 1" by linarith
    then have kX: "k < ?X" by simp
    have bits: "bits_of f x = S * (?W * ?X) + (k * ?W + r)"
      by (simp add: Fin S_def k_def r_def Let_def)
    note fields = bit_fields [OF r kX, of S, folded bits]
    from k have k': "k \<noteq> ?X - 1" by simp
    have S: "(S mod 2 = 1) = s" by (simp add: S_def)
    have "fl_of_bits f (bits_of f x) = (if k = 0 then Fin s r (emin f) else Fin s (?W + r) (emin f + int k - 1))"
      unfolding fl_of_bits_def Let_def fields S using k' by (simp only: if_False)
    also have "\<dots> = x"
    proof (cases "m < ?W")
      case True
      with wf Fin have "e = emin f" by auto
      with True show ?thesis by (simp add: Fin k_def r_def)
    next
      case False
      with wf Fin have "int k = e - emin f + 1" "r + ?W = m" "k \<noteq> 0" by (auto simp: k_def r_def)
      then show ?thesis by (simp add: Fin)
    qed
    finally show ?thesis .
  next
    case (Inf s)
    define S where "S = (if s then 1 else 0 :: nat)"
    have bits: "bits_of f x = S * (?W * ?X) + ((?X - 1) * ?W + 0)"
      by (simp add: Inf S_def Let_def)
    have kX: "?X - 1 < ?X" using field_facts(2) [of f] by simp
    have W: "0 < ?W" by simp
    note fields = bit_fields [OF W kX, of S, folded bits]
    have S: "(S mod 2 = 1) = s" by (simp add: S_def)
    show ?thesis unfolding fl_of_bits_def Let_def fields S by (simp only: Inf simp_thms if_True)
  qed (use num in simp)
qed

end
