(* ===== verification/Semantic_Cells.thy ===== *)
theory Semantic_Cells
  imports Core_Labels Float64_Props "HOL-Library.Product_Lexorder"
begin

text \<open>
  \<open>crates/semantic/src/cells.rs\<close>: reading the JSON cells of catalogue rows, and cosine similarity in
  \<open>f64\<close> arithmetic over embeddings kept as \<open>f32\<close> bit patterns. \<open>fl_rank\<close> shows that the comparison
  of floats is the order of their values, which the ranking of retrieval hits needs.
\<close>

subsection \<open>Cells\<close>

definition cell_string :: "json option \<Rightarrow> string" where
  "cell_string v = (case Option.bind v as_str of None \<Rightarrow> [] | Some s \<Rightarrow> s)"

definition cell_opt_string :: "json option \<Rightarrow> string option" where
  "cell_opt_string v = Option.bind v as_str"

definition parse_semantic_type :: "json option \<Rightarrow> semantic_type option" where
  "parse_semantic_type v = Option.bind (Option.bind v as_str) semantic_parse"

text \<open>\<open>f as f32\<close>.\<close>

definition num_to_f32 :: "json \<Rightarrow> nat option" where
  "num_to_f32 v = map_option (\<lambda>b. bits_of F32 (fl_cast F32 (fl_of_bits F64 b))) (as_f64 v)"

definition embedding_to_vec :: "json \<Rightarrow> nat list" where
  "embedding_to_vec v = (case as_array v of None \<Rightarrow> [] | Some arr \<Rightarrow> List.map_filter num_to_f32 arr)"

subsection \<open>Cosine similarity\<close>

definition widen :: "nat \<Rightarrow> fl" where
  "widen x = fl_cast F64 (fl_of_bits F32 x)"

definition vec_norm :: "nat list \<Rightarrow> fl" where
  "vec_norm a = fsqrt (fsum (map (\<lambda>x. fmul F64 (widen x) (widen x)) a))"

text \<open>\<open>zip\<close> stops at the shorter vector; the norms do not.\<close>

definition cosine :: "nat list \<Rightarrow> nat list \<Rightarrow> fl" where
  "cosine a b =
     (if a = [] \<or> b = [] then zero F64
      else
        let dot = fsum (map (\<lambda>(x, y). fmul F64 (widen x) (widen y)) (zip a b));
            na = vec_norm a;
            nb = vec_norm b
        in if feq na (zero F64) \<or> feq nb (zero F64) then zero F64
           else fdiv F64 dot (fmul F64 na nb))"

lemma cosine_commute: "cosine a b = cosine b a"
proof -
  have "map (\<lambda>(x, y). fmul F64 (widen x) (widen y)) (zip a b) = map (\<lambda>(x, y). fmul F64 (widen x) (widen y)) (zip b a)"
    by (subst zip_commute) (simp add: case_prod_unfold fmul_commute)
  then show ?thesis unfolding cosine_def Let_def by (simp only: fmul_commute [of _ "vec_norm a"] disj_commute [of "a = []"] disj_commute [of "feq (vec_norm a) _"])
qed

lemma cosine_wf: "fl_wf F64 (cosine a b)"
  by (simp add: cosine_def Let_def fdiv_wf zero_def del: fl_wf.simps) (simp add: fl_wf_zero)

text \<open>\<open>[1.0]\<close> and \<open>[-1.0]\<close>: a score need not lie between zero and one.\<close>

lemma cosine_negative: "cosine [1065353216] [3212836864] = fneg one"
  unfolding cosine_def vec_norm_def widen_def by (simp add: fl_eval cong: let_weak_cong)

subsection \<open>The order of floats\<close>

fun fl_class :: "fl \<Rightarrow> int" where
  "fl_class (Inf s) = (if s then - 1 else 1)"
| "fl_class _ = 0"

lemma scaled_val: "m = 0 \<or> b \<le> e \<Longrightarrow> real_of_int (sgn_int s (m * 2 ^ nat (e - b))) * 2 powi b = fl_val (Fin s m e)"
proof -
  assume b: "m = 0 \<or> b \<le> e"
  have "real (m * 2 ^ nat (e - b)) * 2 powi b = real m * 2 powi e"
  proof (cases "m = 0")
    case False
    with b have "b \<le> e" by simp
    then have "real (2 ^ nat (e - b)) * 2 powi b = 2 powi (e - b) * 2 powi b" by (simp only: powi_nat)
    also have "\<dots> = 2 powi e" by (simp flip: power_int_add)
    finally show ?thesis by simp
  qed simp
  then show ?thesis by (simp add: sgn_int_def)
qed

lemma fl_cmp_int_val:
  "real_of_int (fl_cmp_int s m e s' m' e') * 2 powi common_exp m e m' e' = fl_val (Fin s m e) - fl_val (Fin s' m' e')"
proof -
  have "m = 0 \<or> common_exp m e m' e' \<le> e" "m' = 0 \<or> common_exp m e m' e' \<le> e'" by (auto simp: common_exp_def)
  from scaled_val [OF this(1), of s] scaled_val [OF this(2), of s'] show ?thesis
    by (simp only: fl_cmp_int_def Let_def of_int_diff left_diff_distrib)
qed

lemma fl_cmp_int_less: "fl_cmp_int s m e s' m' e' < 0 \<longleftrightarrow> fl_val (Fin s m e) < fl_val (Fin s' m' e')"
proof -
  have "fl_cmp_int s m e s' m' e' < 0 \<longleftrightarrow> real_of_int (fl_cmp_int s m e s' m' e') * 2 powi common_exp m e m' e' < 0"
  proof -
    have "0 < (2 :: real) powi common_exp m e m' e'" by simp
    then show ?thesis by (simp add: mult_less_0_iff less_asym del: zero_less_power_int)
  qed
  then show ?thesis unfolding fl_cmp_int_val by linarith
qed

definition fl_rank :: "fl \<Rightarrow> int \<times> real" where
  "fl_rank x = (fl_class x, fl_val x)"

lemma flt_rank: "x \<noteq> NaN \<Longrightarrow> y \<noteq> NaN \<Longrightarrow> flt x y \<longleftrightarrow> fl_rank x < fl_rank y"
  by (cases x; cases y) (auto simp: fl_rank_def fl_cmp_int_less simp del: fl_val.simps(1))

end
