(* ===== verification/Semantic_Llm.thy ===== *)
theory Semantic_Llm
  imports Core_Config Semantic_Cells Effects
begin

text \<open>
  \<open>crates/semantic/src/llm.rs\<close> and \<open>http.rs\<close>: the two clients of the semantic layer, as the
  deterministic stubs and as HTTP clients with a retry. A response of the network and the parsing of
  its body are arguments; a string literal of the source that is not ASCII is its UTF-8 bytes.
\<close>

subsection \<open>The stubs\<close>

definition em_dash :: string where
  "em_dash = [CHR 0xE2, CHR 0x80, CHR 0x94]"

definition quoted :: "string \<Rightarrow> string" where
  "quoted s = [CHR 0x27] @ s @ [CHR 0x27]"

definition stub_describe_column :: "string \<Rightarrow> string \<Rightarrow> string \<Rightarrow> string \<Rightarrow> string list \<Rightarrow> string" where
  "stub_describe_column system table column data_type sample =
     (let head = (case sample of [] \<Rightarrow> em_dash | s # _ \<Rightarrow> s)
      in ''Column '' @ quoted column @ '' ('' @ data_type @ '') of '' @ system @ ''.'' @ table @ ''; e.g. '' @ quoted head @ ''.'')"

definition DEFAULT_EMBED_DIM :: nat where
  "DEFAULT_EMBED_DIM = 64"

text \<open>\<open>StubEmbed::new\<close> panics on zero: \<open>None\<close>.\<close>

definition stub_embed_new :: "nat \<Rightarrow> nat option" where
  "stub_embed_new width = (if width > 0 then Some width else None)"

definition wrap_u64 :: "nat \<Rightarrow> nat" where
  "wrap_u64 n = n mod 2 ^ 64"

text \<open>The byte \<open>b\<close> at position \<open>i\<close>, before it is narrowed to \<open>f32\<close>.\<close>

definition folded :: "nat \<Rightarrow> nat \<Rightarrow> nat" where
  "folded i b = wrap_u64 (wrap_u64 (b * 0x9E3779B97F4A7C15) + wrap_u64 (i * 0x100000001B3))"

definition mapped :: "nat \<Rightarrow> nat \<Rightarrow> fl" where
  "mapped i b = fsub F64 (fdiv F64 (fl_of_int F64 (int (folded i b))) (fl_of_int F64 (2 ^ 62))) one"

fun add_bytes :: "nat \<Rightarrow> nat \<Rightarrow> string \<Rightarrow> fl list \<Rightarrow> fl list" where
  "add_bytes width i [] v = v"
| "add_bytes width i (c # cs) v =
     (let d = i mod width
      in add_bytes width (i + 1) cs
           (if d < length v then v[d := fadd F32 (v ! d) (fl_cast F32 (mapped i (of_char c)))] else v))"

definition normalise :: "fl list \<Rightarrow> fl list" where
  "normalise v =
     (let norm = fsqrt (fsum (map (\<lambda>x. let w = fl_cast F64 x in fmul F64 w w) v))
      in if flt (zero F64) norm then map (\<lambda>x. fl_cast F32 (fdiv F64 (fl_cast F64 x) norm)) v else v)"

definition stub_embed :: "nat \<Rightarrow> string \<Rightarrow> nat list" where
  "stub_embed width text = map (bits_of F32) (normalise (add_bytes width 0 text (replicate width (zero F32))))"

lemma length_add_bytes [simp]: "length (add_bytes width i cs v) = length v"
  by (induction width i cs v rule: add_bytes.induct) (simp_all add: Let_def)

text \<open>The stub emits the dimension it announces.\<close>

lemma length_stub_embed: "length (stub_embed width text) = width"
  by (simp add: stub_embed_def normalise_def Let_def)

text \<open>The comment of the source puts a mapped byte in \<open>[-1, 1)\<close>; the first byte 3 is mapped to 2.42.\<close>

lemma mapped_above_one: "flt (fl_of_int F64 2) (mapped 0 3)"
  unfolding mapped_def folded_def wrap_u64_def by (simp add: fl_eval cong: let_weak_cong)

subsection \<open>The HTTP clients\<close>

definition RETRIES :: nat where
  "RETRIES = 1"

definition MAX_RESPONSE_BYTES :: nat where
  "MAX_RESPONSE_BYTES = 1048576"

record http_client =
  hc_base_url :: string
  hc_api_key :: string
  hc_dim :: nat

definition http_llm_new :: "llm_config \<Rightarrow> http_client" where
  "http_llm_new cfg = \<lparr>hc_base_url = lc_base_url cfg, hc_api_key = lc_api_key cfg, hc_dim = 0\<rparr>"

definition http_embedding_new :: "llm_config \<Rightarrow> http_client" where
  "http_embedding_new cfg = \<lparr>hc_base_url = lc_base_url cfg, hc_api_key = lc_api_key cfg, hc_dim = lc_embedding_dim cfg\<rparr>"

text \<open>\<open>trim_end_matches('/')\<close>.\<close>

definition trim_slashes :: "string \<Rightarrow> string" where
  "trim_slashes s = rev (dropWhile (\<lambda>c. c = CHR ''/'') (rev s))"

text \<open>What a call of the service comes to: the call's budget runs out, the request fails, or a status
  arrives with a body that may fail to be read. \<open>decode\<close> is \<open>serde_json::from_slice\<close>.\<close>

datatype http_outcome = Call_timeout | Send_failed msg | Response nat "(msg, string) result"

definition request ::
  "(string \<Rightarrow> (msg, json) result) \<Rightarrow> (json \<Rightarrow> (core_error, 'a) result) \<Rightarrow> nat \<Rightarrow> (msg, string) result \<Rightarrow> (core_error, 'a) result"
where
  "request decode extract status body =
     rbind (guard (200 \<le> status \<and> status < 300) CatalogueUnavailable) (\<lambda>_.
     rbind (map_err Execution body) (\<lambda>bytes.
     rbind (guard (\<not> length bytes > MAX_RESPONSE_BYTES) CatalogueUnavailable) (\<lambda>_.
     rbind (map_err Execution (decode bytes)) extract)))"

definition chat_content :: "json \<Rightarrow> (core_error, string) result" where
  "chat_content v =
     ok_or CatalogueUnavailable
       (as_str (json_key (json_key (json_nth (json_key v ''choices'') 0) ''message'') ''content''))"

fun each_f32 :: "json list \<Rightarrow> (core_error, nat list) result" where
  "each_f32 [] = Inr []"
| "each_f32 (x # xs) =
     rbind (ok_or CatalogueUnavailable (num_to_f32 x)) (\<lambda>b. rbind (each_f32 xs) (\<lambda>bs. Inr (b # bs)))"

definition embedding_content :: "json \<Rightarrow> (core_error, nat list) result" where
  "embedding_content v =
     rbind (ok_or CatalogueUnavailable (as_array (json_key (json_nth (json_key v ''data'') 0) ''embedding''))) each_f32"

text \<open>A request sent: its URL, bearer key and body.\<close>

datatype http_event = Post string string json

type_synonym 'a http = "(http_event, core_error, 'a) logged"

definition attempt ::
  "(string \<Rightarrow> (msg, json) result) \<Rightarrow> (json \<Rightarrow> (core_error, 'a) result) \<Rightarrow> http_outcome \<Rightarrow> (core_error, 'a) result"
where
  "attempt decode extract r =
     (case r of
        Call_timeout \<Rightarrow> Inl CatalogueUnavailable
      | Send_failed e \<Rightarrow> Inl (Execution e)
      | Response status body \<Rightarrow> request decode extract status body)"

text \<open>The loop \<open>for _ in 0..=RETRIES\<close> with \<open>n\<close> rounds to go and \<open>latest\<close> the last error.\<close>

fun retry_loop ::
  "(http_event list \<Rightarrow> http_outcome) \<Rightarrow> (http_outcome \<Rightarrow> (core_error, 'a) result) \<Rightarrow> http_event \<Rightarrow> nat \<Rightarrow> core_error option \<Rightarrow> 'a http"
where
  "retry_loop answer try ev 0 latest = efail (case latest of None \<Rightarrow> CatalogueUnavailable | Some e \<Rightarrow> e)"
| "retry_loop answer try ev (Suc n) latest =
     ebind (ask ev answer) (\<lambda>r.
     case try r of
       Inr v \<Rightarrow> eret v
     | Inl e \<Rightarrow> retry_loop answer try ev n (Some e))"

definition complete ::
  "(http_event list \<Rightarrow> http_outcome) \<Rightarrow> (string \<Rightarrow> (msg, json) result) \<Rightarrow> http_client \<Rightarrow> string \<Rightarrow> string http"
where
  "complete answer decode client prompt =
     retry_loop answer (attempt decode chat_content)
       (Post (trim_slashes (hc_base_url client) @ ''/chat/completions'') (hc_api_key client)
         (JObject [(''model'', JString ''gpt-4o-mini''),
                   (''messages'', JArray [JObject [(''role'', JString ''user''), (''content'', JString prompt)]]),
                   (''max_tokens'', JNumber (PosInt 64))]))
       (RETRIES + 1) None"

text \<open>\<open>show_samples\<close> is the \<open>{:?}\<close> of the samples.\<close>

definition http_describe_column ::
  "(string list \<Rightarrow> string) \<Rightarrow> (http_event list \<Rightarrow> http_outcome) \<Rightarrow> (string \<Rightarrow> (msg, json) result) \<Rightarrow> http_client \<Rightarrow>
     string \<Rightarrow> string \<Rightarrow> string \<Rightarrow> string \<Rightarrow> string list \<Rightarrow> string http"
where
  "http_describe_column show_samples answer decode client system table column data_type sample =
     complete answer decode client
       (''Describe the '' @ quoted column @ '' column ('' @ data_type @ '') of '' @ system @ ''.'' @ table @
        '' in one sentence for a marketing analyst. Example values: '' @ show_samples sample)"

definition http_embed ::
  "(http_event list \<Rightarrow> http_outcome) \<Rightarrow> (string \<Rightarrow> (msg, json) result) \<Rightarrow> http_client \<Rightarrow> string \<Rightarrow> nat list http"
where
  "http_embed answer decode client text =
     retry_loop answer (attempt decode embedding_content)
       (Post (trim_slashes (hc_base_url client) @ ''/embeddings'') (hc_api_key client)
         (JObject [(''input'', JString text), (''model'', JString ''text-embedding-3-small'')]))
       (RETRIES + 1) None"

text \<open>Both clients: one request when it succeeds, otherwise a second one, whose outcome counts.\<close>

lemma retry_twice:
  "retry_loop answer try ev (RETRIES + 1) None hist =
     (case try (answer (hist @ [ev])) of
        Inr v \<Rightarrow> (Inr v, hist @ [ev])
      | Inl _ \<Rightarrow> (try (answer (hist @ [ev, ev])), hist @ [ev, ev]))"
  by (simp add: RETRIES_def ebind_def ask_def eret_def efail_def split: sum.split)

end
