(* ===== verification/Semantic_Profiler.thy ===== *)
theory Semantic_Profiler
  imports Query_Engine Semantic_Llm
begin

text \<open>
  \<open>crates/semantic/src/profiler.rs\<close>: profiling a raw table when its source is onboarded. The reader, the
  description client and the embedding client are asked through a log of events; each answer is the
  environment's choice. A string is its UTF-8 bytes.
\<close>

subsection \<open>Limits\<close>

definition DEFAULT_SAMPLE_ROWS :: nat where "DEFAULT_SAMPLE_ROWS = 1000"
definition DEFAULT_SAMPLE_VALUE_BYTES :: nat where "DEFAULT_SAMPLE_VALUE_BYTES = 64"
definition MAX_SAMPLE_VALUES :: nat where "MAX_SAMPLE_VALUES = 20"

record profiler =
  pf_sample_rows :: nat
  pf_sample_value_bytes :: nat

definition profiler_new :: profiler where
  "profiler_new = \<lparr>pf_sample_rows = DEFAULT_SAMPLE_ROWS, pf_sample_value_bytes = DEFAULT_SAMPLE_VALUE_BYTES\<rparr>"

definition with_sample_rows :: "profiler \<Rightarrow> nat \<Rightarrow> profiler" where
  "with_sample_rows p n = p\<lparr>pf_sample_rows := max n 1\<rparr>"

definition with_sample_value_bytes :: "profiler \<Rightarrow> nat \<Rightarrow> profiler" where
  "with_sample_value_bytes p n = p\<lparr>pf_sample_value_bytes := max n 1\<rparr>"

subsection \<open>Classification by name\<close>

definition ascii_lower :: "char \<Rightarrow> char" where
  "ascii_lower c = (if in_range CHR ''A'' CHR ''Z'' c then char_of (of_char c + 32 :: nat) else c)"

definition to_ascii_lowercase :: "string \<Rightarrow> string" where
  "to_ascii_lowercase s = map ascii_lower s"

fun starts_with :: "string \<Rightarrow> string \<Rightarrow> bool" where
  "starts_with s [] = True"
| "starts_with [] (p # ps) = False"
| "starts_with (c # cs) (p # ps) = (c = p \<and> starts_with cs ps)"

definition ends_with :: "string \<Rightarrow> string \<Rightarrow> bool" where
  "ends_with s p = starts_with (rev s) (rev p)"

fun str_contains :: "string \<Rightarrow> string \<Rightarrow> bool" where
  "str_contains [] p = (p = [])"
| "str_contains (c # cs) p = (starts_with (c # cs) p \<or> str_contains cs p)"

definition pii_keys :: "string list" where
  "pii_keys = [''email'', ''phone'', ''ssn'', ''address'', ''password'', ''token'', ''name'']"

definition is_pii :: "string \<Rightarrow> bool" where
  "is_pii l = list_ex (str_contains l) pii_keys"

definition measure_keys :: "string list" where
  "measure_keys = [''amount'', ''count'', ''total'', ''sum'', ''price'', ''qty'', ''quantity'', ''score'',
     ''value'', ''revenue'', ''cost'']"

definition is_measure :: "string \<Rightarrow> bool" where
  "is_measure l = list_ex (str_contains l) measure_keys"

definition classify :: "string \<Rightarrow> semantic_type" where
  "classify name =
     (let l = to_ascii_lowercase name
      in if is_pii l then Pii
         else if l = ''id'' \<or> ends_with l ''_id'' then Identifier
         else if l = ''ts'' \<or> ends_with l ''_at'' \<or> ends_with l ''_ts'' \<or> str_contains l ''timestamp'' \<or> ends_with l ''date''
         then EventTs
         else if is_measure l then Measure
         else Dimension)"

subsection \<open>Samples\<close>

text \<open>\<open>is_char_boundary\<close>: an end of the string, or a byte that does not continue a character.\<close>

definition continuation_byte :: "char \<Rightarrow> bool" where
  "continuation_byte c = in_range (CHR 0x80) (CHR 0xBF) c"

definition is_char_boundary :: "string \<Rightarrow> nat \<Rightarrow> bool" where
  "is_char_boundary s i = (i = 0 \<or> i = length s \<or> i < length s \<and> \<not> continuation_byte (s ! i))"

fun boundary_before :: "string \<Rightarrow> nat \<Rightarrow> nat" where
  "boundary_before s 0 = 0"
| "boundary_before s (Suc e) = (if is_char_boundary s (Suc e) then Suc e else boundary_before s e)"

definition truncate_bytes :: "string \<Rightarrow> nat \<Rightarrow> string" where
  "truncate_bytes s limit = (if length s \<le> limit then s else take (boundary_before s limit) s)"

definition add_sample :: "nat \<Rightarrow> json \<Rightarrow> string list \<Rightarrow> string list" where
  "add_sample value_bytes c bucket =
     (if length bucket \<ge> MAX_SAMPLE_VALUES then bucket
      else case c of
        JString s \<Rightarrow> (let t = truncate_bytes s value_bytes in if t \<in> set bucket then bucket else bucket @ [t])
      | _ \<Rightarrow> bucket)"

text \<open>One row into the buckets; cells past the last bucket are not looked at.\<close>

fun add_row :: "nat \<Rightarrow> json list \<Rightarrow> string list list \<Rightarrow> string list list" where
  "add_row value_bytes (c # cs) (b # bs) = add_sample value_bytes c b # add_row value_bytes cs bs"
| "add_row value_bytes _ bs = bs"

definition sample_columns :: "json list list \<Rightarrow> string list \<Rightarrow> nat \<Rightarrow> string list list" where
  "sample_columns rows columns value_bytes = fold (add_row value_bytes) rows (map (\<lambda>_. []) columns)"

subsection \<open>Onboarding\<close>

datatype sem_event =
    Sem_read string "dval list"
  | Sem_describe string string string string "string list"
  | Sem_embed string

record sem_env =
  sv_read :: "sem_event list \<Rightarrow> (core_error, query_result) result"
  sv_describe :: "sem_event list \<Rightarrow> (core_error, string) result"
  sv_embed :: "sem_event list \<Rightarrow> (core_error, nat list) result"
  sv_dim :: nat
  sv_unix_secs :: "sem_event list \<Rightarrow> nat option"

type_synonym 'a sem = "(sem_event, core_error, 'a) logged"

definition sample_sql :: "profiler \<Rightarrow> string \<Rightarrow> string \<Rightarrow> string" where
  "sample_sql p system table =
     ''SELECT * EXCLUDE (tenant_id) FROM '' @ READ_ONLY_CATALOG_ALIAS @ ''.raw_'' @ system @ ''_'' @ table @
     '' LIMIT '' @ show_nat (pf_sample_rows p)"

text \<open>A failed embedding is a zero vector, a failed description the stub text.\<close>

definition embed_or_zero :: "sem_env \<Rightarrow> string \<Rightarrow> nat list sem" where
  "embed_or_zero env text =
     ebind (ask (Sem_embed text) (sv_embed env)) (\<lambda>r.
     eret (case r of Inr v \<Rightarrow> v | Inl _ \<Rightarrow> replicate (sv_dim env) 0))"

definition table_description :: "string \<Rightarrow> string \<Rightarrow> nat \<Rightarrow> string" where
  "table_description system table n =
     ''Table '' @ quoted table @ '' of '' @ system @ ''.'' @ table @ '' ('' @ show_nat n @ '' columns)''"

definition stub_description :: "string \<Rightarrow> string \<Rightarrow> string \<Rightarrow> string" where
  "stub_description system table column = ''Column '' @ quoted column @ '' of '' @ system @ ''.'' @ table"

definition profile_column ::
  "sem_env \<Rightarrow> string \<Rightarrow> string \<Rightarrow> int \<Rightarrow> string list list \<Rightarrow> nat \<times> string \<Rightarrow> catalog_row sem"
where
  "profile_column env system table source_epoch samples = (\<lambda>(idx, column).
     let semantic_type = classify column;
         pii_flag = (semantic_type = Pii);
         own = (if idx < length samples then samples ! idx else []);
         stored_samples = (if pii_flag then [''[redacted]''] else own);
         llm_samples = (if pii_flag then [] else own)
     in
     ebind (ask (Sem_describe system table column ''VARCHAR'' llm_samples) (sv_describe env)) (\<lambda>r.
     let description = (case r of Inr d \<Rightarrow> d | Inl _ \<Rightarrow> stub_description system table column) in
     ebind (embed_or_zero env description) (\<lambda>embedding.
     eret \<lparr>ca_entity_type = ''column'', ca_system = system, ca_table_name = table, ca_column_name = Some column,
       ca_semantic_type = semantic_type, ca_data_type = ''VARCHAR'', ca_description = description,
       ca_pii_flag = pii_flag, ca_sample_values = JArray (map JString stored_samples), ca_embedding = embedding,
       ca_source_epoch = source_epoch\<rparr>)))"

fun each_row :: "('a \<Rightarrow> 'b sem) \<Rightarrow> 'a list \<Rightarrow> 'b list sem" where
  "each_row f [] = eret []"
| "each_row f (x # xs) = ebind (f x) (\<lambda>y. ebind (each_row f xs) (\<lambda>ys. eret (y # ys)))"

text \<open>The rows of a table whose sample is \<open>qr\<close>: the table's own, then one per column.\<close>

definition catalogue_rows :: "sem_env \<Rightarrow> profiler \<Rightarrow> string \<Rightarrow> string \<Rightarrow> query_result \<Rightarrow> catalog_row list sem" where
  "catalogue_rows env p system table qr =
     (let columns = qr_columns qr in
     ebind (peek (sv_unix_secs env)) (\<lambda>now.
     let source_epoch = (case now of Some d \<Rightarrow> wrap_i64 (int d) | None \<Rightarrow> 0);
         samples = sample_columns (qr_rows qr) columns (pf_sample_value_bytes p);
         description = table_description system table (length columns)
     in
     ebind (embed_or_zero env description) (\<lambda>embedding.
     ebind (each_row (profile_column env system table source_epoch samples) (enumerate 0 columns)) (\<lambda>rows.
     eret (\<lparr>ca_entity_type = ''table'', ca_system = system, ca_table_name = table, ca_column_name = None,
       ca_semantic_type = Table, ca_data_type = ''TABLE'', ca_description = description, ca_pii_flag = False,
       ca_sample_values = JArray [], ca_embedding = embedding, ca_source_epoch = source_epoch\<rparr> # rows)))))"

definition profile_onboard :: "sem_env \<Rightarrow> profiler \<Rightarrow> string \<Rightarrow> string \<Rightarrow> catalog_row list sem" where
  "profile_onboard env p system table =
     ebind (elift (validate_ident system)) (\<lambda>_.
     ebind (elift (validate_ident table)) (\<lambda>_.
     ebind (ask (Sem_read (sample_sql p system table) []) (sv_read env)) (\<lambda>r.
     ebind (elift r) (\<lambda>qr.
     catalogue_rows env p system table qr))))"

end
