(* ===== verification/Semantic_Rag.thy ===== *)
theory Semantic_Rag
  imports Semantic_Profiler "HOL-Library.Option_ord" "HOL-Library.Multiset" "HOL-Library.Char_ord" "HOL-Library.List_Lexorder"
begin

text \<open>
  \<open>crates/semantic/src/intent_rag.rs\<close>: retrieving catalogue candidates for an utterance and the newest
  entry of a column, over the log of what is asked of the reader and of the embedding model. Hits are
  ranked by a stable sort, here insertion from the right; it is what \<open>sort_by\<close> does whenever the
  comparison is an order, which it is as long as no score is a NaN.
\<close>

subsection \<open>Comparison\<close>

datatype ordering = Less | Equal | Greater

fun ordering_rev :: "ordering \<Rightarrow> ordering" where
  "ordering_rev Less = Greater"
| "ordering_rev Equal = Equal"
| "ordering_rev Greater = Less"

definition then_with :: "ordering \<Rightarrow> ordering \<Rightarrow> ordering" where
  "then_with a b = (if a = Equal then b else a)"

definition cmp :: "'a :: linorder \<Rightarrow> 'a \<Rightarrow> ordering" where
  "cmp x y = (if x < y then Less else if x = y then Equal else Greater)"

definition partial_cmp :: "fl \<Rightarrow> fl \<Rightarrow> ordering option" where
  "partial_cmp x y =
     (if x = NaN \<or> y = NaN then None
      else Some (if flt x y then Less else if flt y x then Greater else Equal))"

definition unwrap_or_equal :: "ordering option \<Rightarrow> ordering" where
  "unwrap_or_equal r = (case r of None \<Rightarrow> Equal | Some c \<Rightarrow> c)"

text \<open>Highest similarity first, ties by system, table and column.\<close>

definition compare_hits :: "fl \<times> catalog_hit \<Rightarrow> fl \<times> catalog_hit \<Rightarrow> ordering" where
  "compare_hits a b =
     then_with (then_with (then_with (unwrap_or_equal (partial_cmp (fst b) (fst a)))
       (cmp (hi_system (snd a)) (hi_system (snd b))))
       (cmp (hi_table_name (snd a)) (hi_table_name (snd b))))
       (cmp (hi_column_name (snd a)) (hi_column_name (snd b)))"

fun insert_by :: "('a \<Rightarrow> 'a \<Rightarrow> ordering) \<Rightarrow> 'a \<Rightarrow> 'a list \<Rightarrow> 'a list" where
  "insert_by c x [] = [x]"
| "insert_by c x (y # ys) = (if c x y = Greater then y # insert_by c x ys else x # y # ys)"

definition sort_by :: "('a \<Rightarrow> 'a \<Rightarrow> ordering) \<Rightarrow> 'a list \<Rightarrow> 'a list" where
  "sort_by c xs = foldr (insert_by c) xs []"

subsection \<open>Retrieval\<close>

definition DEFAULT_K :: nat where "DEFAULT_K = 20"
definition MAX_CATALOG_SCAN :: nat where "MAX_CATALOG_SCAN = 10000"

record intent_rag =
  ir_default_k :: nat

definition intent_rag_new :: intent_rag where
  "intent_rag_new = \<lparr>ir_default_k = DEFAULT_K\<rparr>"

definition with_default_k :: "intent_rag \<Rightarrow> nat \<Rightarrow> intent_rag" where
  "with_default_k rag k = rag\<lparr>ir_default_k := max k 1\<rparr>"

definition retrieve_sql :: string where
  "retrieve_sql =
     ''SELECT system, table_name, column_name, semantic_type, description, embedding FROM '' @
     READ_ONLY_CATALOG_ALIAS @ ''.semantic_catalog WHERE tenant_id = ? QUALIFY row_number() '' @
     ''OVER (PARTITION BY system, table_name, column_name ORDER BY source_epoch DESC) = 1 '' @
     ''LIMIT '' @ show_nat MAX_CATALOG_SCAN"

definition score_row :: "nat list \<Rightarrow> json list \<Rightarrow> fl \<times> catalog_hit" where
  "score_row utterance_emb row =
     (let row_emb = (case get_cell row 5 of None \<Rightarrow> [] | Some v \<Rightarrow> embedding_to_vec v);
          score = cosine utterance_emb row_emb
      in (score,
          \<lparr>hi_system = cell_string (get_cell row 0), hi_table_name = cell_string (get_cell row 1),
           hi_column_name = cell_opt_string (get_cell row 2),
           hi_semantic_type = (case parse_semantic_type (get_cell row 3) of None \<Rightarrow> Dimension | Some t \<Rightarrow> t),
           hi_description = cell_string (get_cell row 4), hi_score = bits_of F64 score\<rparr>))"

definition retrieve :: "sem_env \<Rightarrow> intent_rag \<Rightarrow> string \<Rightarrow> nat \<Rightarrow> string \<Rightarrow> catalog_hit list sem" where
  "retrieve env rag utterance k tenant =
     (let k = (if k = 0 then ir_default_k rag else k) in
     ebind (ask (Sem_read retrieve_sql [VText tenant]) (sv_read env)) (\<lambda>r.
     ebind (elift r) (\<lambda>qr.
     ebind (ask (Sem_embed utterance) (sv_embed env)) (\<lambda>e.
     ebind (elift (map_err (\<lambda>_. CatalogueUnavailable) e)) (\<lambda>utterance_emb.
     let scored = map (score_row utterance_emb) (qr_rows qr)
     in eret (map snd (take k (sort_by compare_hits scored))))))))"

subsection \<open>The newest entry\<close>

definition entry_sql :: string where
  "entry_sql =
     ''SELECT entity_type, system, table_name, column_name, semantic_type, data_type, '' @
     ''description, pii_flag, sample_values, embedding, source_epoch FROM '' @
     READ_ONLY_CATALOG_ALIAS @ ''.semantic_catalog WHERE system = ? AND table_name = ? AND '' @
     ''column_name = ? AND tenant_id = ? ORDER BY source_epoch DESC LIMIT 1''"

definition catalogue_entry_row :: "json list \<Rightarrow> (core_error, catalog_row) result" where
  "catalogue_entry_row row =
     rbind (ok_or (InvalidInput (Msg ''catalogue row has an unknown semantic_type'' []))
              (parse_semantic_type (get_cell row 4))) (\<lambda>semantic_type.
     Inr \<lparr>ca_entity_type = (case cell_opt_string (get_cell row 0) of None \<Rightarrow> ''column'' | Some s \<Rightarrow> s),
       ca_system = cell_string (get_cell row 1), ca_table_name = cell_string (get_cell row 2),
       ca_column_name = cell_opt_string (get_cell row 3), ca_semantic_type = semantic_type,
       ca_data_type = cell_string (get_cell row 5), ca_description = cell_string (get_cell row 6),
       ca_pii_flag = (case Option.bind (get_cell row 7) as_bool of None \<Rightarrow> False | Some b \<Rightarrow> b),
       ca_sample_values = (case get_cell row 8 of None \<Rightarrow> JArray [] | Some v \<Rightarrow> v),
       ca_embedding = (case get_cell row 9 of None \<Rightarrow> [] | Some v \<Rightarrow> embedding_to_vec v),
       ca_source_epoch = (case Option.bind (get_cell row 10) as_i64 of None \<Rightarrow> 0 | Some i \<Rightarrow> i)\<rparr>)"

definition catalogue_entry :: "sem_env \<Rightarrow> string \<Rightarrow> string \<Rightarrow> string \<Rightarrow> string \<Rightarrow> catalog_row option sem" where
  "catalogue_entry env system entity column tenant =
     ebind (ask (Sem_read entry_sql [VText system, VText entity, VText column, VText tenant]) (sv_read env)) (\<lambda>r.
     ebind (elift r) (\<lambda>qr.
     case qr_rows qr of
       [] \<Rightarrow> eret None
     | row # _ \<Rightarrow> ebind (elift (catalogue_entry_row row)) (\<lambda>entry. eret (Some entry))))"

subsection \<open>The order of hits\<close>

text \<open>\<open>before a b\<close>: \<open>a\<close> may stand in front of \<open>b\<close>.\<close>

definition before :: "fl \<times> catalog_hit \<Rightarrow> fl \<times> catalog_hit \<Rightarrow> bool" where
  "before a b \<longleftrightarrow> compare_hits a b \<noteq> Greater"

definition hit_key :: "fl \<times> catalog_hit \<Rightarrow> string \<times> string \<times> string option" where
  "hit_key a = (hi_system (snd a), hi_table_name (snd a), hi_column_name (snd a))"

lemma before_iff:
  assumes "fst a \<noteq> NaN" "fst b \<noteq> NaN"
  shows "before a b \<longleftrightarrow> fl_rank (fst b) < fl_rank (fst a) \<or> fl_rank (fst a) = fl_rank (fst b) \<and> hit_key a \<le> hit_key b"
  using assms
  by (auto simp: before_def compare_hits_def then_with_def cmp_def partial_cmp_def unwrap_or_equal_def flt_rank
      hit_key_def less_eq_prod_def less_prod_def prod_eq_iff split: if_splits)

text \<open>What \<open>sort_by\<close> asks of a comparison on the elements it is given.\<close>

locale comparison =
  fixes c :: "'a \<Rightarrow> 'a \<Rightarrow> ordering" and S :: "'a set"
  assumes total: "x \<in> S \<Longrightarrow> y \<in> S \<Longrightarrow> c x y = Greater \<Longrightarrow> c y x \<noteq> Greater"
    and trans: "x \<in> S \<Longrightarrow> y \<in> S \<Longrightarrow> z \<in> S \<Longrightarrow> c x y \<noteq> Greater \<Longrightarrow> c y z \<noteq> Greater \<Longrightarrow> c x z \<noteq> Greater"
begin

lemma set_insert_by [simp]: "set (insert_by c x xs) = insert x (set xs)"
  by (induction xs) auto

lemma mset_insert_by [simp]: "mset (insert_by c x xs) = add_mset x (mset xs)"
  by (induction xs) auto

lemma mset_sort_by: "mset (sort_by c xs) = mset xs"
  unfolding sort_by_def by (induction xs) simp_all

lemma sorted_insert_by:
  "x \<in> S \<Longrightarrow> set xs \<subseteq> S \<Longrightarrow> sorted_wrt (\<lambda>a b. c a b \<noteq> Greater) xs \<Longrightarrow>
     sorted_wrt (\<lambda>a b. c a b \<noteq> Greater) (insert_by c x xs)"
proof (induction xs)
  case (Cons y ys)
  show ?case
  proof (cases "c x y = Greater")
    case True
    with Cons show ?thesis using total [of x y] by auto
  next
    case False
    have "c x z \<noteq> Greater" if "z \<in> set ys" for z
      using Cons.prems that False by (intro trans [of x y z]) auto
    with Cons.prems False show ?thesis by simp
  qed
qed simp

lemma sorted_sort_by: "set xs \<subseteq> S \<Longrightarrow> sorted_wrt (\<lambda>a b. c a b \<noteq> Greater) (sort_by c xs)"
proof (induction xs)
  case Nil
  show ?case by (simp add: sort_by_def)
next
  case (Cons x xs)
  have "set (sort_by c xs) = set xs" by (metis mset_sort_by set_mset_mset)
  with Cons sorted_insert_by [of x "sort_by c xs"] show ?case by (simp add: sort_by_def)
qed

end

interpretation hits: comparison compare_hits "{a. fst a \<noteq> NaN}"
proof unfold_locales
  fix x y z :: "fl \<times> catalog_hit"
  assume xyz: "x \<in> {a. fst a \<noteq> NaN}" "y \<in> {a. fst a \<noteq> NaN}"
  show "compare_hits y x \<noteq> Greater" if "compare_hits x y = Greater"
    using that before_iff [of x y] before_iff [of y x] xyz by (auto simp: before_def)
  show "compare_hits x z \<noteq> Greater"
    if "z \<in> {a. fst a \<noteq> NaN}" "compare_hits x y \<noteq> Greater" "compare_hits y z \<noteq> Greater"
    using that before_iff [of x y] before_iff [of y z] before_iff [of x z] xyz
    unfolding before_def by force
qed

subsection \<open>What retrieval returns\<close>

text \<open>C16: a retrieval reads the catalogue of the caller's tenant once and embeds the utterance once; of
  all the rows read it returns the best k, by falling similarity and then by name, where k is the
  configured default when the caller asks for none.\<close>

theorem retrieve_returns_best:
  assumes "retrieve env rag utterance k tenant hist = (Inr found, hist')"
    and "sv_read env (hist @ [Sem_read retrieve_sql [VText tenant]]) = Inr qr"
    and "sv_embed env (hist @ [Sem_read retrieve_sql [VText tenant], Sem_embed utterance]) = Inr u"
    and "\<forall>row \<in> set (qr_rows qr). fst (score_row u row) \<noteq> NaN"
  shows "hist' = hist @ [Sem_read retrieve_sql [VText tenant], Sem_embed utterance] \<and>
    (\<exists>ranked. mset ranked = mset (map (score_row u) (qr_rows qr)) \<and>
       sorted_wrt (\<lambda>a b. fl_rank (fst b) < fl_rank (fst a) \<or>
                         fl_rank (fst a) = fl_rank (fst b) \<and> hit_key a \<le> hit_key b) ranked \<and>
       found = map snd (take (if k = 0 then ir_default_k rag else k) ranked))"
proof -
  let ?scored = "map (score_row u) (qr_rows qr)"
  let ?ranked = "sort_by compare_hits ?scored"
  have run: "hist' = hist @ [Sem_read retrieve_sql [VText tenant], Sem_embed utterance]"
    "found = map snd (take (if k = 0 then ir_default_k rag else k) ?ranked)"
    using assms(1-3) by (auto simp: retrieve_def ebind_def ask_def elift_def eret_def Let_def)
  have numbers: "set ?scored \<subseteq> {a. fst a \<noteq> NaN}" using assms(4) by auto
  have same: "mset ?ranked = mset ?scored" by (rule hits.mset_sort_by)
  then have members: "set ?ranked = set ?scored" by (metis set_mset_mset)
  have "sorted_wrt (\<lambda>a b. compare_hits a b \<noteq> Greater) ?ranked" by (rule hits.sorted_sort_by [OF numbers])
  then have "sorted_wrt (\<lambda>a b. fl_rank (fst b) < fl_rank (fst a) \<or>
      fl_rank (fst a) = fl_rank (fst b) \<and> hit_key a \<le> hit_key b) ?ranked"
  proof (rule sorted_wrt_mono_rel [rotated])
    fix a b assume "a \<in> set ?ranked" "b \<in> set ?ranked" and le: "compare_hits a b \<noteq> Greater"
    then have "fst a \<noteq> NaN" "fst b \<noteq> NaN" unfolding members using numbers by blast+
    from before_iff [OF this] le show "fl_rank (fst b) < fl_rank (fst a) \<or>
        fl_rank (fst a) = fl_rank (fst b) \<and> hit_key a \<le> hit_key b" unfolding before_def by blast
  qed
  with run same show ?thesis by blast
qed

text \<open>A failed embedding of the utterance is \<open>CatalogueUnavailable\<close>: no candidate is guessed.\<close>

lemma retrieve_without_embedding:
  assumes "sv_read env (hist @ [Sem_read retrieve_sql [VText tenant]]) = Inr qr"
    and "sv_embed env (hist @ [Sem_read retrieve_sql [VText tenant], Sem_embed utterance]) = Inl e"
  shows "fst (retrieve env rag utterance k tenant hist) = Inl CatalogueUnavailable"
  using assms by (simp add: retrieve_def ebind_def ask_def elift_def Let_def)

definition sample_row :: "string \<Rightarrow> json_number \<Rightarrow> json list" where
  "sample_row column x =
     [JString ''erp'', JString ''orders'', JString column, JString ''measure'', JString ''d'', JArray [JNumber x]]"

definition sample_retrieval :: sem_env where
  "sample_retrieval = \<lparr>sv_read = (\<lambda>_. Inr \<lparr>qr_columns = [], qr_rows = [sample_row ''a'' (NegInt (- 1)), sample_row ''b'' (PosInt 1)]\<rparr>),
     sv_describe = (\<lambda>_. Inr ''d''), sv_embed = (\<lambda>_. Inr [1065353216]), sv_dim = 1, sv_unix_secs = (\<lambda>_. None)\<rparr>"

lemma sample_scores:
  "fst (score_row [1065353216] (sample_row ''a'' (NegInt (- 1)))) = fneg one"
  "fst (score_row [1065353216] (sample_row ''b'' (PosInt 1))) = one"
proof -
  have bits: "fl_of_bits F64 4607182418800017408 = one" "fl_of_bits F64 13830554455654793216 = fneg one"
    by (simp_all add: fl_eval cong: let_weak_cong)
  have narrow: "bits_of F32 (fl_cast F32 one) = 1065353216" "bits_of F32 (fl_cast F32 (fneg one)) = 3212836864"
    by (simp_all add: fl_eval cong: let_weak_cong)
  have "num_to_f32 (JNumber (PosInt 1)) = Some 1065353216"
    unfolding num_to_f32_def as_f64.simps num_as_f64.simps f64_of_nat_1 option.map bits narrow ..
  moreover have "f64_of_int (- 1) = 13830554455654793216" using f64_of_nat_1 by (simp add: f64_of_int_def)
  then have "num_to_f32 (JNumber (NegInt (- 1))) = Some 3212836864"
    unfolding num_to_f32_def as_f64.simps num_as_f64.simps option.map by (simp only: bits narrow)
  ultimately have vecs: "embedding_to_vec (JArray [JNumber (NegInt (- 1))]) = [3212836864]"
    "embedding_to_vec (JArray [JNumber (PosInt 1)]) = [1065353216]"
    by (simp_all add: embedding_to_vec_def List.map_filter_def)
  have "cosine [1065353216] [1065353216] = one"
    unfolding cosine_def vec_norm_def widen_def by (simp add: fl_eval cong: let_weak_cong)
  with vecs cosine_negative
  show "fst (score_row [1065353216] (sample_row ''a'' (NegInt (- 1)))) = fneg one"
    "fst (score_row [1065353216] (sample_row ''b'' (PosInt 1))) = one"
    by (simp_all add: score_row_def sample_row_def get_cell_def Let_def)
qed

theorem retrieve_returns_best_witness:
  "\<exists>hit hist'. retrieve sample_retrieval intent_rag_new ''q'' 1 ''acme'' [] = (Inr [hit], hist') \<and>
     hi_column_name hit = Some ''b''"
proof -
  let ?a = "score_row [1065353216] (sample_row ''a'' (NegInt (- 1)))" and ?b = "score_row [1065353216] (sample_row ''b'' (PosInt 1))"
  obtain found hist' where run: "retrieve sample_retrieval intent_rag_new ''q'' 1 ''acme'' [] = (Inr found, hist')"
    by (simp add: retrieve_def sample_retrieval_def ebind_def ask_def elift_def eret_def Let_def)
  have nums: "fst ?a \<noteq> NaN" "fst ?b \<noteq> NaN" unfolding sample_scores by (simp_all add: one_def)
  have read: "sv_read sample_retrieval ([] @ [Sem_read retrieve_sql [VText ''acme'']]) =
      Inr \<lparr>qr_columns = [], qr_rows = [sample_row ''a'' (NegInt (- 1)), sample_row ''b'' (PosInt 1)]\<rparr>"
    and emb: "sv_embed sample_retrieval ([] @ [Sem_read retrieve_sql [VText ''acme''], Sem_embed ''q'']) = Inr [1065353216]"
    by (simp_all add: sample_retrieval_def)
  from retrieve_returns_best [OF run read emb] nums obtain ranked where ranked:
      "mset ranked = mset [?a, ?b]"
      "sorted_wrt (\<lambda>a b. fl_rank (fst b) < fl_rank (fst a) \<or> fl_rank (fst a) = fl_rank (fst b) \<and> hit_key a \<le> hit_key b) ranked"
      "found = map snd (take 1 ranked)"
    by auto
  have "fl_rank (fst ?a) < fl_rank (fst ?b)"
    unfolding sample_scores by (simp add: one_def fl_rank_def less_prod_def)
  moreover have "ranked = [x, y] \<Longrightarrow> {#x, y#} = {#?a, ?b#}" for x y using ranked(1) by simp
  moreover from ranked(1) have "length ranked = 2" using mset_eq_length by fastforce
  then obtain x y where xy: "ranked = [x, y]" by (auto simp: length_Suc_conv numeral_2_eq_2)
  ultimately have "x = ?a \<and> y = ?b \<or> x = ?b \<and> y = ?a" by (simp only: add_eq_conv_ex) auto
  with xy ranked(2,3) \<open>fl_rank (fst ?a) < fl_rank (fst ?b)\<close> have "found = [snd ?b]" by auto
  with run show ?thesis by (simp add: score_row_def sample_row_def get_cell_def cell_opt_string_def Let_def)
qed

end
