(* ===== verification/Semantic_Profiler_Spec.thy ===== *)
theory Semantic_Profiler_Spec
  imports Semantic_Profiler
begin

text \<open>
  What profiling guarantees: a sample value is the longest prefix that fits and ends between two
  characters (\<open>truncate_bytes_spec\<close>), the samples of a column are its first twenty distinct values
  (\<open>sample_columns_spec\<close>), and the values of a column classified as personal reach neither the
  description client nor the embedding client nor the catalogue (\<open>pii_values_have_no_effect\<close>).
\<close>

subsection \<open>Truncation\<close>

lemma boundary_before_le: "boundary_before s e \<le> e"
  by (induction s e rule: boundary_before.induct) auto

lemma boundary_before_boundary: "is_char_boundary s (boundary_before s e)"
  by (induction s e rule: boundary_before.induct) (auto simp: is_char_boundary_def [of _ 0])

lemma boundary_before_last: "boundary_before s e < i \<Longrightarrow> i \<le> e \<Longrightarrow> \<not> is_char_boundary s i"
  by (induction s e rule: boundary_before.induct) (auto split: if_splits simp: le_Suc_eq)

text \<open>truncating a string to a number of bytes gives its longest prefix within the bound that ends
  at a character boundary.\<close>

theorem truncate_bytes_spec:
  fixes s :: string and n :: nat
  defines "t \<equiv> truncate_bytes s n"
  shows "t = take (length t) s \<and> length t \<le> n \<and> is_char_boundary s (length t) \<and>
     (\<forall>i. length t < i \<and> i \<le> n \<and> i \<le> length s \<longrightarrow> \<not> is_char_boundary s i)"
proof (cases "length s \<le> n")
  case True
  then show ?thesis by (simp add: t_def truncate_bytes_def is_char_boundary_def)
next
  case False
  let ?b = "boundary_before s n"
  have len: "length t = ?b"
    using False boundary_before_le [of s n] by (simp add: t_def truncate_bytes_def)
  moreover have "t = take ?b s" using False by (simp add: t_def truncate_bytes_def)
  ultimately show ?thesis
    using boundary_before_le [of s n] boundary_before_boundary [of s n] boundary_before_last [of s n] by auto
qed

text \<open>A character of three bytes does not fit in two of them.\<close>

theorem truncate_bytes_spec_witness:
  "truncate_bytes (''a'' @ em_dash @ ''b'') 3 = ''a'' \<and>
   \<not> is_char_boundary (''a'' @ em_dash @ ''b'') 2 \<and> \<not> is_char_boundary (''a'' @ em_dash @ ''b'') 3"
proof -
  have t: "truncate_bytes (''a'' @ em_dash @ ''b'') 3 = ''a''" by code_simp
  with truncate_bytes_spec [where s = "''a'' @ em_dash @ ''b''" and n = 3] show ?thesis by (simp add: em_dash_def)
qed

lemma length_truncate: "length (truncate_bytes s n) \<le> n"
  using truncate_bytes_spec [of s n] by simp

subsection \<open>Samples\<close>

text \<open>The truncated string cells of a column, and the first occurrence of each.\<close>

definition string_cell :: "nat \<Rightarrow> nat \<Rightarrow> json list \<Rightarrow> string option" where
  "string_cell value_bytes idx row = map_option (\<lambda>s. truncate_bytes s value_bytes) (Option.bind (get_cell row idx) as_str)"

definition column_values :: "nat \<Rightarrow> nat \<Rightarrow> json list list \<Rightarrow> string list" where
  "column_values value_bytes idx rows = List.map_filter (string_cell value_bytes idx) rows"

definition firsts :: "'a list \<Rightarrow> 'a list" where
  "firsts xs = rev (remdups (rev xs))"

lemma firsts_snoc: "firsts (xs @ [x]) = (if x \<in> set xs then firsts xs else firsts xs @ [x])"
  by (simp add: firsts_def)

lemma firsts_Nil [simp]: "firsts [] = []"
  by (simp add: firsts_def)

lemma set_firsts [simp]: "set (firsts xs) = set xs"
  by (simp add: firsts_def)

lemma distinct_firsts [simp]: "distinct (firsts xs)"
  by (simp add: firsts_def)

lemma take_firsts_snoc:
  "take n (firsts (xs @ [x])) =
     (if length (take n (firsts xs)) \<ge> n \<or> x \<in> set (take n (firsts xs)) then take n (firsts xs)
      else take n (firsts xs) @ [x])"
  by (cases "n \<le> length (firsts xs)") (auto simp: firsts_snoc)

definition add_value :: "string \<Rightarrow> string list \<Rightarrow> string list" where
  "add_value t bucket =
     (if length bucket \<ge> MAX_SAMPLE_VALUES \<or> t \<in> set bucket then bucket else bucket @ [t])"

lemma add_sample_value:
  "add_sample value_bytes c b =
     (case as_str c of None \<Rightarrow> b | Some s \<Rightarrow> add_value (truncate_bytes s value_bytes) b)"
  by (cases c) (simp_all add: add_sample_def add_value_def Let_def)

lemma length_add_row [simp]: "length (add_row vb cs bs) = length bs"
  by (induction vb cs bs rule: add_row.induct) simp_all

lemma nth_add_row:
  "i < length bs \<Longrightarrow> add_row vb cs bs ! i =
     (case string_cell vb i cs of None \<Rightarrow> bs ! i | Some t \<Rightarrow> add_value t (bs ! i))"
proof (induction vb cs bs arbitrary: i rule: add_row.induct)
  case (1 vb c cs b bs)
  show ?case
  proof (cases i)
    case 0
    then show ?thesis by (simp add: add_sample_value string_cell_def get_cell_def split: option.split)
  next
    case (Suc j)
    have "string_cell vb (Suc j) (c # cs) = string_cell vb j cs" by (simp add: string_cell_def get_cell_def)
    with 1 show ?thesis unfolding Suc by (cases "string_cell vb j cs") simp_all
  qed
qed (auto simp: string_cell_def get_cell_def)

lemma column_values_snoc:
  "column_values vb i (rows @ [row]) = column_values vb i rows @ (case string_cell vb i row of None \<Rightarrow> [] | Some t \<Rightarrow> [t])"
  by (simp add: column_values_def List.map_filter_def split: option.split)

lemma fold_add_row:
  assumes "i < length (columns :: string list)"
  shows "length (fold (add_row vb) rows (map (\<lambda>_. []) columns)) = length columns \<and>
    fold (add_row vb) rows (map (\<lambda>_. []) columns) ! i = take MAX_SAMPLE_VALUES (firsts (column_values vb i rows))"
proof (induction rows rule: rev_induct)
  case Nil
  from assms show ?case by (simp add: column_values_def List.map_filter_def)
next
  case (snoc row rows)
  with assms show ?case
    by (cases "string_cell vb i row") (simp_all add: nth_add_row column_values_snoc take_firsts_snoc add_value_def)
qed

lemma sample_columns_spec:
  "i < length columns \<Longrightarrow>
     sample_columns rows columns vb ! i = take MAX_SAMPLE_VALUES (firsts (column_values vb i rows))"
  using fold_add_row by (simp add: sample_columns_def)

lemma length_sample_columns [simp]: "length (sample_columns rows columns vb) = length columns"
proof (cases columns)
  case Nil
  have "length (fold (add_row vb) rows bs) = length bs" for bs by (induction rows arbitrary: bs) simp_all
  then show ?thesis by (simp add: sample_columns_def Nil)
next
  case (Cons c cs)
  then show ?thesis using fold_add_row [of 0 columns vb rows] by (simp add: sample_columns_def)
qed

subsection \<open>The catalogue rows\<close>

lemma each_row_cong: "(\<And>x. x \<in> set xs \<Longrightarrow> f x = g x) \<Longrightarrow> each_row f xs = each_row g xs"
  by (induction xs) simp_all

text \<open>\<open>rows\<close> are what \<open>f\<close> gave for the elements, in order.\<close>

lemma each_row_result:
  assumes "\<And>x hist r hist'. x \<in> set xs \<Longrightarrow> f x hist = (Inr r, hist') \<Longrightarrow> Q x r"
    and "each_row f xs hist = (Inr rows, hist')"
  shows "list_all2 Q xs rows"
  using assms
proof (induction xs arbitrary: hist rows)
  case Nil
  then show ?case by (simp add: eret_def)
next
  case (Cons x xs)
  from Cons.prems(2) obtain y h ys where y: "f x hist = (Inr y, h)" and ys: "each_row f xs h = (Inr ys, hist')"
    and rows: "rows = y # ys"
    by (auto simp: ebind_def eret_def split: prod.splits sum.splits)
  have "list_all2 Q xs ys" by (rule Cons.IH [OF Cons.prems(1) ys]) simp_all
  with Cons.prems(1) [OF _ y] rows show ?case by simp
qed

lemma embed_or_zero_run: "embed_or_zero env text hist = (Inr v, hist') \<Longrightarrow> hist' = hist @ [Sem_embed text]"
  by (auto simp: embed_or_zero_def ebind_def ask_def eret_def)

text \<open>What a column's catalogue row says of it.\<close>

definition column_row :: "string \<Rightarrow> string \<Rightarrow> nat \<Rightarrow> json list list \<Rightarrow> nat \<times> string \<Rightarrow> catalog_row \<Rightarrow> bool" where
  "column_row system table value_bytes cells = (\<lambda>(i, column) row.
     ca_entity_type row = ''column'' \<and> ca_system row = system \<and> ca_table_name row = table \<and>
     ca_column_name row = Some column \<and> ca_semantic_type row = classify column \<and>
     ca_pii_flag row = (classify column = Pii) \<and>
     ca_sample_values row = JArray (map JString
       (if classify column = Pii then [''[redacted]'']
        else take MAX_SAMPLE_VALUES (firsts (column_values value_bytes i cells)))))"

lemma profile_column_row:
  assumes "profile_column env system table epoch (sample_columns cells columns vb) (i, column) hist = (Inr row, hist')"
    and "i < length columns"
  shows "column_row system table vb cells (i, column) row"
  using assms
  by (auto simp: profile_column_def column_row_def ebind_def ask_def eret_def sample_columns_spec Let_def
      split: prod.splits sum.splits)


text \<open>C15: the values of a column classified as personal data have no effect: if two tables differ only
  in the cells of such columns, profiling asks the description and embedding clients the same
  questions and produces the same catalogue.\<close>

theorem pii_values_have_no_effect:
  assumes "sv_read env (hist @ [Sem_read (sample_sql p system table) []]) = Inr qr"
    and "answer (hist @ [Sem_read (sample_sql p system table) []]) = Inr qr'"
    and "qr_columns qr' = qr_columns qr"
    and "\<forall>i < length (qr_columns qr). classify (qr_columns qr ! i) \<noteq> Pii \<longrightarrow>
       map (\<lambda>row. get_cell row i) (qr_rows qr') = map (\<lambda>row. get_cell row i) (qr_rows qr)"
  shows "profile_onboard (env\<lparr>sv_read := answer\<rparr>) p system table hist = profile_onboard env p system table hist"
proof -
  let ?vb = "pf_sample_value_bytes p" and ?cols = "qr_columns qr"
  let ?env = "env\<lparr>sv_read := answer\<rparr>"
  have same: "column_values ?vb i (qr_rows qr') = column_values ?vb i (qr_rows qr)"
    if "i < length ?cols" "classify (?cols ! i) \<noteq> Pii" for i
  proof -
    have "column_values ?vb i rows =
        List.map_filter (\<lambda>c. map_option (\<lambda>s. truncate_bytes s ?vb) (Option.bind c as_str)) (map (\<lambda>row. get_cell row i) rows)" for rows
      by (simp add: column_values_def string_cell_def List.map_filter_def filter_map comp_def)
    with assms(4) that show ?thesis by simp
  qed
  have embed: "embed_or_zero ?env d = embed_or_zero env d" for d
    by (simp add: embed_or_zero_def cong: sum.case_cong)
  have column: "profile_column ?env system table epoch (sample_columns (qr_rows qr') ?cols ?vb) x =
      profile_column env system table epoch (sample_columns (qr_rows qr) ?cols ?vb) x"
    if "x \<in> set (enumerate 0 ?cols)" for x epoch
  proof -
    obtain i c where x: "x = (i, c)" by (cases x)
    with that have i: "i < length ?cols" "c = ?cols ! i" by (auto simp: in_set_enumerate_eq)
    show ?thesis
    proof (cases "classify c = Pii")
      case True
      then show ?thesis by (simp add: profile_column_def x embed Let_def)
    next
      case False
      with i same have "sample_columns (qr_rows qr') ?cols ?vb ! i = sample_columns (qr_rows qr) ?cols ?vb ! i"
        by (simp add: sample_columns_spec)
      then show ?thesis by (simp add: profile_column_def x embed Let_def)
    qed
  qed
  have columns: "each_row (profile_column ?env system table epoch (sample_columns (qr_rows qr') ?cols ?vb)) (enumerate 0 ?cols) =
      each_row (profile_column env system table epoch (sample_columns (qr_rows qr) ?cols ?vb)) (enumerate 0 ?cols)" for epoch
    using column by (rule each_row_cong)
  have clock: "sv_unix_secs ?env = sv_unix_secs env" by simp
  have rows: "catalogue_rows ?env p system table qr' = catalogue_rows env p system table qr"
    unfolding catalogue_rows_def Let_def assms(3) columns embed clock ..
  have same: "ask (Sem_read (sample_sql p system table) []) (sv_read ?env) hist =
      (Inr (Inr qr'), hist @ [Sem_read (sample_sql p system table) []])"
    "ask (Sem_read (sample_sql p system table) []) (sv_read env) hist =
      (Inr (Inr qr), hist @ [Sem_read (sample_sql p system table) []])"
    using assms(1,2) by (simp_all add: ask_def)
  show ?thesis
    unfolding profile_onboard_def ebind_def elift_def
    by (cases "validate_ident system"; cases "validate_ident table") (simp_all only: same rows prod.case sum.case)
qed

definition sample_table :: "string \<Rightarrow> query_result" where
  "sample_table secret = \<lparr>qr_columns = [''Email'', ''amount''],
     qr_rows = [[JString secret, JString ''3''], [JNull, JString ''3''], [JString ''b'', JString ''41'']]\<rparr>"

definition sample_clients :: "query_result \<Rightarrow> sem_env" where
  "sample_clients qr = \<lparr>sv_read = (\<lambda>_. Inr qr), sv_describe = (\<lambda>_. Inr ''d''),
     sv_embed = (\<lambda>_. Inl CatalogueUnavailable), sv_dim = 1, sv_unix_secs = (\<lambda>_. Some 7)\<rparr>"


theorem pii_values_have_no_effect_witness:
  "profile_onboard (sample_clients (sample_table ''alice@example.org'')) profiler_new ''erp'' ''orders'' [] =
   profile_onboard (sample_clients (sample_table ''bob@example.org'')) profiler_new ''erp'' ''orders'' []"
proof -
  have kind: "classify ''Email'' = Pii" by code_simp
  have env: "sample_clients (sample_table ''alice@example.org'') =
      (sample_clients (sample_table ''bob@example.org''))\<lparr>sv_read := \<lambda>_. Inr (sample_table ''alice@example.org'')\<rparr>"
    by (simp add: sample_clients_def)
  show ?thesis unfolding env
  proof (rule pii_values_have_no_effect)
    show "sv_read (sample_clients (sample_table ''bob@example.org'')) ([] @ [Sem_read (sample_sql profiler_new ''erp'' ''orders'') []])
        = Inr (sample_table ''bob@example.org'')" by (simp add: sample_clients_def)
    show "Inr (sample_table ''alice@example.org'') = Inr (sample_table ''alice@example.org'')" ..
    show "qr_columns (sample_table ''alice@example.org'') = qr_columns (sample_table ''bob@example.org'')"
      by (simp add: sample_table_def)
    show "\<forall>i < length (qr_columns (sample_table ''bob@example.org'')).
        classify (qr_columns (sample_table ''bob@example.org'') ! i) \<noteq> Pii \<longrightarrow>
        map (\<lambda>row. get_cell row i) (qr_rows (sample_table ''alice@example.org'')) =
        map (\<lambda>row. get_cell row i) (qr_rows (sample_table ''bob@example.org''))"
      using kind by (auto simp: sample_table_def get_cell_def less_Suc_eq)
  qed
qed

end
