(* ===== verification/Query_Profile_Spec.thy ===== *)
theory Query_Profile_Spec
  imports Query_Profile Float64_Props
begin

text \<open>
  The shares of a profile. \<open>share_unit\<close>: the rounded quotient of a part by its whole lies between zero
  and one; \<open>profile_shares\<close> reads it off the assembled JSON.
\<close>

lemma fl_val_nonneg: "0 \<le> fl_val (Fin False m e)"
  by simp

lemma fdiv_unit:
  assumes le: "fl_val (Fin False m e) \<le> fl_val (Fin False m' e')" and pos: "0 < m'"
  obtains n k where "fdiv F64 (Fin False m e) (Fin False m' e') = Fin False n k" "fl_val (Fin False n k) \<le> 1"
proof -
  let ?num = "m * 2 ^ nat (e - e')" and ?den = "m' * 2 ^ nat (e' - e)"
  have "real ?num / real ?den = real m / real m' * 2 powi (e - e')"
    using shift_ratio [of m "e' - e" m'] by (simp add: minus_diff_eq)
  also have "\<dots> = (real m * 2 powi e) / (real m' * 2 powi e')"
    by (simp add: power_int_diff)
  also have "\<dots> \<le> 1" using le pos by simp
  finally have "real ?num / real ?den \<le> 2 powi 0" by simp
  moreover have "0 < ?den" using pos by simp
  ultimately obtain n k where "round_ratio F64 False ?num ?den = Fin False n k" "real n * 2 powi k \<le> 2 powi 0"
    using round_ratio_le [of ?den ?num 0 F64 False] format_facts(4,5) [of F64] by blast
  then show thesis using that [of n k] pos by simp
qed

text \<open>A count as the statements return it: a finite float that is not negative.\<close>

definition is_count :: "fl \<Rightarrow> bool" where
  "is_count x \<longleftrightarrow> (\<exists>m e. x = Fin False m e)"

lemma share_unit:
  assumes "is_count n" "is_count whole" "fl_val n \<le> fl_val whole"
  obtains m e where "share n whole = Fin False m e" "fl_val (Fin False m e) \<le> 1"
proof (cases "flt (zero F64) whole")
  case True
  from assms obtain m e m' e' where nw: "n = Fin False m e" "whole = Fin False m' e'" by (auto simp: is_count_def)
  have "m' \<noteq> 0"
  proof
    assume "m' = 0"
    with True nw show False by (simp add: zero_def fl_cmp_int_def sgn_int_def)
  qed
  then obtain a k where "fdiv F64 n whole = Fin False a k" "fl_val (Fin False a k) \<le> 1"
    using fdiv_unit [of m e m' e'] assms(3) unfolding nw by blast
  with True that show thesis by (simp add: share_def)
next
  case False
  then show thesis using that [of 0 "emin F64"] by (simp add: share_def zero_def)
qed

definition entry_orders :: "nat \<Rightarrow> json list \<Rightarrow> fl" where
  "entry_orders col row = f64_or_zero (Some (json_fl (cell_f64 row col)))"

lemma mix_entry_shared:
  "add_share whole (mix_entry col row) =
     JObject [(''category'', JString (case Option.bind (get_cell row 0) as_str of None \<Rightarrow> [] | Some s \<Rightarrow> s)),
       (''orders'', json_fl (cell_f64 row col)), (''share'', json_fl (share (entry_orders col row) whole))]"
  by (simp add: add_share_def mix_entry_def json_key_def entry_orders_def)

lemma entry_orders_count: "fl_wf F64 (cell_f64 row col) \<Longrightarrow> is_count (cell_f64 row col) \<Longrightarrow> entry_orders col row = cell_f64 row col"
  using bits_round_trip [of F64 "cell_f64 row col"]
  by (auto simp: entry_orders_def f64_or_zero_def is_count_def)

lemma fl_of_bits_wf: "fl_wf f (fl_of_bits f b)"
proof -
  let ?W = "2 ^ (prec f - 1) :: nat" and ?X = "2 ^ exp_bits f :: nat"
  define ex where "ex = b div ?W mod ?X"
  define fr where "fr = b mod ?W"
  define s where "s \<longleftrightarrow> b div (?W * ?X) mod 2 = 1"
  have fr: "fr < ?W" by (simp add: fr_def)
  have "ex < ?X" by (simp add: ex_def)
  moreover have "emax f = emin f + int (?X - 2) - 1" by (cases f) (simp_all add: exp_bits_def)
  ultimately have top: "ex \<noteq> ?X - 1 \<Longrightarrow> emin f + int ex - 1 \<le> emax f" by linarith
  have "fl_of_bits f b = (if ex = ?X - 1 then (if fr = 0 then Inf s else NaN)
      else if ex = 0 then Fin s fr (emin f) else Fin s (?W + fr) (emin f + int ex - 1))"
    unfolding fl_of_bits_def Let_def ex_def fr_def s_def ..
  then show ?thesis using fr top format_facts(2,3) [of f] by simp
qed

lemma cell_f64_wf: "fl_wf F64 (cell_f64 row col)"
  using fl_of_bits_wf [of F64] format_facts(3) [of F64]
  by (simp add: cell_f64_def f64_or_zero_def zero_def split: option.split del: fl_wf.simps) (simp add: fl_wf_zero)

text \<open>the category mix of a profile lists the rows of the category statement in order; where a row's
  count is a number that is not negative and at most the segment's orders, its share is the rounded
  quotient of the two, or zero when the segment has none, and lies between zero and one.\<close>

theorem profile_shares:
  assumes "is_count (cell_f64 (first_row metrics) 6)"
    and "\<forall>row \<in> set (qr_rows categories). is_count (cell_f64 row 1) \<and>
      fl_val (cell_f64 row 1) \<le> fl_val (cell_f64 (first_row metrics) 6)"
  shows "\<exists>mix. json_get (json_key (assemble_profile metrics recency categories) ''segment'') ''categoryMix'' = Some (JArray mix) \<and>
    list_all2 (\<lambda>row entry. \<exists>m e. json_get entry ''share'' = Some (json_fl (Fin False m e)) \<and>
       Fin False m e = share (cell_f64 row 1) (cell_f64 (first_row metrics) 6) \<and>
       fl_val (Fin False m e) \<le> 1) (qr_rows categories) mix"
proof -
  let ?whole = "cell_f64 (first_row metrics) 6"
  have mix: "json_get (json_key (assemble_profile metrics recency categories) ''segment'') ''categoryMix'' =
      Some (JArray (map (\<lambda>row. add_share ?whole (mix_entry 1 row)) (qr_rows categories)))"
    by (simp add: assemble_profile_def side_def json_key_def Let_def comp_def)
  have "\<exists>m e. json_get (add_share ?whole (mix_entry 1 row)) ''share'' = Some (json_fl (Fin False m e)) \<and>
       Fin False m e = share (cell_f64 row 1) ?whole \<and> fl_val (Fin False m e) \<le> 1"
    if "row \<in> set (qr_rows categories)" for row
  proof -
    from assms(2) that have row: "is_count (cell_f64 row 1)" "fl_val (cell_f64 row 1) \<le> fl_val ?whole" by blast+
    then obtain m e where s: "share (cell_f64 row 1) ?whole = Fin False m e" "fl_val (Fin False m e) \<le> 1"
      using share_unit [OF row(1) assms(1) row(2)] by blast
    have "json_get (add_share ?whole (mix_entry 1 row)) ''share'' = Some (json_fl (share (cell_f64 row 1) ?whole))"
      using entry_orders_count [OF cell_f64_wf row(1)] by (simp add: mix_entry_shared)
    with s show ?thesis by metis
  qed
  then have "list_all2 (\<lambda>row entry. \<exists>m e. json_get entry ''share'' = Some (json_fl (Fin False m e)) \<and>
       Fin False m e = share (cell_f64 row 1) ?whole \<and> fl_val (Fin False m e) \<le> 1) (qr_rows categories)
     (map (\<lambda>row. add_share ?whole (mix_entry 1 row)) (qr_rows categories))"
    by (simp only: list.rel_map list.rel_refl_strong)
  with mix show ?thesis by blast
qed

definition sample_metrics :: query_result where
  "sample_metrics = \<lparr>qr_columns = [], qr_rows = [map (JNumber \<circ> PosInt) [2, 3, 10, 9, 2, 2, 4, 6]]\<rparr>"

definition sample_categories :: query_result where
  "sample_categories = \<lparr>qr_columns = [], qr_rows = [[JString ''shoes'', JNumber (PosInt 3), JNumber (PosInt 5)]]\<rparr>"

lemma sample_counts:
  "cell_f64 (first_row sample_metrics) 6 = Fin False (2 ^ 52) (- 50)"
  "cell_f64 [JString ''shoes'', JNumber (PosInt 3), JNumber (PosInt 5)] 1 = Fin False (3 * 2 ^ 51) (- 51)"
proof -
  have bits: "f64_of_nat 4 = 4616189618054758400" "f64_of_nat 3 = 4613937818241073152"
    by (simp_all add: f64_of_nat_def bit_length_small bit_length.simps [of "numeral w" for w])
  have floats: "fl_of_bits F64 4616189618054758400 = Fin False (2 ^ 52) (- 50)"
    "fl_of_bits F64 4613937818241073152 = Fin False (3 * 2 ^ 51) (- 51)"
    by (simp_all add: fl_eval cong: let_weak_cong)
  show "cell_f64 (first_row sample_metrics) 6 = Fin False (2 ^ 52) (- 50)"
    "cell_f64 [JString ''shoes'', JNumber (PosInt 3), JNumber (PosInt 5)] 1 = Fin False (3 * 2 ^ 51) (- 51)"
    by (simp_all only: cell_f64_def f64_or_zero_def get_cell_def first_row_def sample_metrics_def floats bits [symmetric])
       (simp_all add: bits floats)
qed

theorem profile_shares_witness:
  "\<exists>mix. json_get (json_key (assemble_profile sample_metrics sample_metrics sample_categories) ''segment'') ''categoryMix'' =
     Some (JArray mix) \<and> length mix = 1"
proof -
  have "is_count (cell_f64 (first_row sample_metrics) 6)" by (simp add: sample_counts is_count_def)
  moreover have "\<forall>row \<in> set (qr_rows sample_categories). is_count (cell_f64 row 1) \<and>
      fl_val (cell_f64 row 1) \<le> fl_val (cell_f64 (first_row sample_metrics) 6)"
    using sample_counts by (simp add: sample_categories_def is_count_def power_int_def power_divide)
  ultimately obtain mix where mix: "json_get (json_key (assemble_profile sample_metrics sample_metrics sample_categories) ''segment'') ''categoryMix''
      = Some (JArray mix)" "list_all2 (\<lambda>row entry. \<exists>m e. json_get entry ''share'' = Some (json_fl (Fin False m e)) \<and>
       Fin False m e = share (cell_f64 row 1) (cell_f64 (first_row sample_metrics) 6) \<and>
       fl_val (Fin False m e) \<le> 1) (qr_rows sample_categories) mix"
    using profile_shares by blast
  from list_all2_lengthD [OF mix(2)] have "length mix = 1" by (simp add: sample_categories_def)
  with mix(1) show ?thesis by blast
qed

end
