(* ===== verification/Query_Plan.thy ===== *)
theory Query_Plan
  imports Query_Compiler
begin

text \<open>
  What a compiled segment must be. A piece of SQL is a list of fragments, literal text or a
  value standing where it belongs (\<open>frag\<close>); a condition is a structured term in which a scan
  of a table carries its own conditions (\<open>cond\<close>); \<open>plan_of\<close> reads a segment as a structured
  query. The compiler refines it: the text it returns is the plan's rendering with a
  placeholder for each value, and its parameter vector is the plan's values in the order of
  the placeholders (\<open>compile_at_iff\<close>). What holds of plans (\<open>scoped\<close>: every scan is restricted
  to the tenant) and of renderings (\<open>bind_positional\<close>: the database, which only sees the text
  and the vector, puts every value where the plan has it) then holds of the compiler.
\<close>

subsection \<open>Fragments\<close>

datatype frag = Txt string | Bind dval

fun frag_text :: "frag \<Rightarrow> string" where
  "frag_text (Txt s) = s"
| "frag_text (Bind v) = ''?''"

fun frag_binds :: "frag \<Rightarrow> dval list" where
  "frag_binds (Txt s) = []"
| "frag_binds (Bind v) = [v]"

definition render :: "frag list \<Rightarrow> string" where
  "render fs = concat (map frag_text fs)"

definition binds :: "frag list \<Rightarrow> dval list" where
  "binds fs = concat (map frag_binds fs)"

lemma render_simps [simp]:
  "render [] = []" "render (Txt s # fs) = s @ render fs" "render (Bind v # fs) = ''?'' @ render fs"
  "render (fs @ gs) = render fs @ render gs"
  by (simp_all add: render_def)

lemma binds_simps [simp]:
  "binds [] = []" "binds (Txt s # fs) = binds fs" "binds (Bind v # fs) = v # binds fs"
  "binds (fs @ gs) = binds fs @ binds gs"
  by (simp_all add: binds_def)

fun join_frags :: "string \<Rightarrow> frag list list \<Rightarrow> frag list" where
  "join_frags sep [] = []"
| "join_frags sep [f] = f"
| "join_frags sep (f # g # fs) = f @ Txt sep # join_frags sep (g # fs)"

lemma render_join [simp]: "render (join_frags sep fss) = join sep (map render fss)"
  by (induction sep fss rule: join_frags.induct) simp_all

lemma binds_join [simp]: "binds (join_frags sep fss) = concat (map binds fss)"
  by (induction sep fss rule: join_frags.induct) simp_all

lemma set_join_frags: "set (join_frags sep fss) \<subseteq> insert (Txt sep) (\<Union>f \<in> set fss. set f)"
  by (induction sep fss rule: join_frags.induct) auto

text \<open>What the database does: the k-th placeholder takes the k-th parameter. A text with more
  placeholders than parameters, or fewer, is refused.\<close>

datatype tok = Chr char | Val dval

fun expand :: "frag list \<Rightarrow> tok list" where
  "expand [] = []"
| "expand (Txt s # fs) = map Chr s @ expand fs"
| "expand (Bind v # fs) = Val v # expand fs"

fun bind_positional :: "string \<Rightarrow> dval list \<Rightarrow> tok list option" where
  "bind_positional [] [] = Some []"
| "bind_positional [] (v # vs) = None"
| "bind_positional (c # s) vs =
     (if c = CHR ''?'' then
        (case vs of [] \<Rightarrow> None | v # vs \<Rightarrow> map_option ((#) (Val v)) (bind_positional s vs))
      else map_option ((#) (Chr c)) (bind_positional s vs))"

definition qm_free :: "frag list \<Rightarrow> bool" where
  "qm_free fs \<longleftrightarrow> (\<forall>s. Txt s \<in> set fs \<longrightarrow> qmarks s = 0)"

lemma qm_free_simps [simp]:
  "qm_free []" "qm_free (Txt s # fs) \<longleftrightarrow> qmarks s = 0 \<and> qm_free fs" "qm_free (Bind v # fs) \<longleftrightarrow> qm_free fs"
  "qm_free (fs @ gs) \<longleftrightarrow> qm_free fs \<and> qm_free gs"
  by (auto simp: qm_free_def)

lemma qm_free_join:
  "qmarks sep = 0 \<Longrightarrow> (\<And>f. f \<in> set fss \<Longrightarrow> qm_free f) \<Longrightarrow> qm_free (join_frags sep fss)"
  by (induction sep fss rule: join_frags.induct) simp_all

lemma bind_positional_text:
  "qmarks s = 0 \<Longrightarrow> bind_positional (s @ t) vs = map_option ((@) (map Chr s)) (bind_positional t vs)"
  by (induction s) (cases "bind_positional t vs"; auto split: if_splits)+

lemma bind_positional_render:
  "qm_free fs \<Longrightarrow> bind_positional (render fs) (binds fs) = Some (expand fs)"
  by (induction fs rule: expand.induct) (simp_all add: bind_positional_text)

subsection \<open>Conditions\<close>

datatype table = Raw_table dataset | Feature_store | Feature_wide string | Suppression

fun table_name :: "string \<Rightarrow> table \<Rightarrow> string" where
  "table_name alias (Raw_table d) = raw_table d alias"
| "table_name alias Feature_store = alias @ ''.feature_store''"
| "table_name alias (Feature_wide family) = alias @ ''.feature_wide_'' @ family"
| "table_name alias Suppression = alias @ ''.suppression''"

text \<open>\<open>Tenant_is rel t\<close> restricts the rows of \<open>rel\<close> to a tenant; \<open>Rows\<close> is an (anti-)existence test
  over a table, under a relation name, with its conditions and what follows them.\<close>

datatype cond =
    Tenant_is string string
  | Test "frag list"
  | Conj "cond list"
  | Rows bool table string "cond list" "frag list"

fun cond_frags :: "string \<Rightarrow> cond \<Rightarrow> frag list" where
  "cond_frags alias (Tenant_is rel t) = [Txt (rel @ ''.tenant_id = ''), Bind (VText t)]"
| "cond_frags alias (Test fs) = fs"
| "cond_frags alias (Conj cs) = join_frags '' AND '' (map (cond_frags alias) cs)"
| "cond_frags alias (Rows present tb rel cs rest) =
     Txt ((if present then '''' else ''NOT '') @ ''EXISTS (SELECT 1 FROM '' @ table_name alias tb @ '' '' @ rel @ '' WHERE '')
       # join_frags '' AND '' (map (cond_frags alias) cs) @ rest @ [Txt '')'']"

fun scalar :: "json \<Rightarrow> bool" where
  "scalar (JArray xs) \<longleftrightarrow> False"
| "scalar (JObject ms) \<longleftrightarrow> False"
| "scalar _ \<longleftrightarrow> True"

fun dval_of :: "json \<Rightarrow> dval" where
  "dval_of (JBool b) = VBoolean b"
| "dval_of (JNumber (PosInt n)) = (if int n \<le> i64_max then VBigInt (int n) else VDouble (f64_of_nat n))"
| "dval_of (JNumber (NegInt i)) = VBigInt i"
| "dval_of (JNumber (Float f)) = VDouble f"
| "dval_of (JString s) = VText s"
| "dval_of _ = VNull"

definition bindable :: "predicate \<Rightarrow> bool" where
  "bindable p \<longleftrightarrow>
     (if p_op p \<in> {In, NotIn} then (case p_value p of JArray xs \<Rightarrow> list_all scalar xs | _ \<Rightarrow> False)
      else scalar (p_value p))"

definition pred_frags :: "string \<Rightarrow> predicate \<Rightarrow> frag list" where
  "pred_frags rel p =
     (let col = rel @ ''.'' @ p_column p in
      case binary_cmp_symbol (p_op p) of
        Some symbol \<Rightarrow> [Txt (col @ '' '' @ symbol @ '' ''), Bind (dval_of (p_value p))]
      | None \<Rightarrow>
          (case as_array (p_value p) of
             Some (x # xs) \<Rightarrow>
               Txt (col @ (if p_op p = In then '' IN ('' else '' NOT IN (''))
                 # join_frags '', '' (map (\<lambda>v. [Bind (dval_of v)]) (x # xs)) @ [Txt '')'']
           | _ \<Rightarrow> [Txt (if p_op p = In then ''1=0'' else ''1=1'')]))"

definition key_test :: "string \<Rightarrow> string \<Rightarrow> string \<Rightarrow> cond" where
  "key_test rel col base_key = Test [Txt (rel @ ''.'' @ col @ '' = base.'' @ base_key)]"

definition window_rows ::
  "string \<Rightarrow> string \<Rightarrow> bool \<Rightarrow> string \<Rightarrow> dataset \<Rightarrow> string \<Rightarrow> string \<Rightarrow> nat \<Rightarrow> predicate option \<Rightarrow> cond"
where
  "window_rows tenant base_key present cmp ev user_key ts_column within_days p =
     Rows present (Raw_table ev) ''e''
       ([key_test ''e'' user_key base_key, Tenant_is ''e'' tenant] @
        (case p of None \<Rightarrow> [] | Some p \<Rightarrow> [Test (pred_frags ''e'' p)]) @
        [Test [Txt (window_test ts_column cmp within_days)]]) []"

definition feature_rows ::
  "string \<Rightarrow> string \<Rightarrow> string \<Rightarrow> string \<Rightarrow> f64_bits \<Rightarrow> string option \<Rightarrow> cond"
where
  "feature_rows tenant base_key name symbol value as_of =
     (case as_of of
        Some ts \<Rightarrow>
          Rows True Feature_store ''f''
            [key_test ''f'' ''user_id'' base_key, Tenant_is ''f'' tenant,
             Test [Txt ''f.feature_name = '', Bind (VText name)],
             Test [Txt ''f.as_of_ts <= CAST('', Bind (VText ts), Txt '' AS TIMESTAMPTZ)'']]
            [Txt ('' GROUP BY f.user_id, f.feature_name HAVING arg_max(f.num_value, f.as_of_ts) '' @ symbol @ '' ''),
             Bind (VDouble value)]
      | None \<Rightarrow>
          (case split_once CHR ''.'' name of
             Some (family, short) \<Rightarrow>
               Rows True (Feature_wide family) ''f''
                 [key_test ''f'' ''user_id'' base_key, Tenant_is ''f'' tenant,
                  Test [Txt (''f.'' @ short @ '' '' @ symbol @ '' ''), Bind (VDouble value)]] []
           | None \<Rightarrow> Test []))"

definition exclude_conds :: "compile_options \<Rightarrow> string \<Rightarrow> string \<Rightarrow> cond list" where
  "exclude_conds opts base_key campaign_id =
     (if su_per_campaign_no_repeat (co_suppression opts) then
        [Rows False Suppression ''s''
           [key_test ''s'' ''user_id'' base_key, Tenant_is ''s'' (co_tenant opts),
            Test [Txt ''s.campaign_id = '', Bind (VText campaign_id)],
            Test [Txt ''s.action IN ('targeted', 'delivered')'']] []]
      else []) @
     (case su_frequency_cap (co_suppression opts) of
        Some cap \<Rightarrow>
          [Rows False Suppression ''s''
             [key_test ''s'' ''user_id'' base_key, Tenant_is ''s'' (co_tenant opts),
              Test [Txt (''s.action = 'targeted' AND s.occurred_ts >= CAST(CAST(now() AS TIMESTAMP) - INTERVAL '' @
                      sq @ show_nat (fc_window_days cap) @ sq @ '' DAY AS TIMESTAMPTZ)'')]]
             [Txt ('' GROUP BY s.user_id HAVING count('' @ ''*) >= ''), Bind (VBigInt (int (fc_max_contacts cap)))]]
      | None \<Rightarrow> [])"

text \<open>The condition a narrowing op stands for; the others stand for none.\<close>

fun op_cond :: "compile_options \<Rightarrow> segment_query \<Rightarrow> op \<Rightarrow> cond" where
  "op_cond opts q (Filter p) = Test (pred_frags ''base'' p)"
| "op_cond opts q (Recency ev uk ts wd p) = window_rows (co_tenant opts) (q_key q) True ''>='' ev uk ts wd p"
| "op_cond opts q (Lapsed ev uk ts wd p) =
     Conj [window_rows (co_tenant opts) (q_key q) True ''<'' ev uk ts wd p,
           window_rows (co_tenant opts) (q_key q) False ''>='' ev uk ts wd p]"
| "op_cond opts q (Feature n c v) =
     feature_rows (co_tenant opts) (q_key q) n (the (binary_cmp_symbol c)) v (q_as_of q)"
| "op_cond opts q (Exclude c) =
     (let cs = exclude_conds opts (q_key q) c in if cs = [] then Test [Txt ''1=1''] else Conj cs)"
| "op_cond opts q x = Test []"

subsection \<open>The compiler's helpers refine the conditions\<close>

text \<open>\<open>emits c alias params r\<close>: the helper returned the condition's text and pushed its values.\<close>

definition emitted :: "frag list \<Rightarrow> dval list \<Rightarrow> string \<times> dval list" where
  "emitted fs params = (render fs, params @ binds fs)"

lemma to_value_ok: "to_value v = Inr d \<longleftrightarrow> scalar v \<and> d = dval_of v"
proof (cases v)
  case (JNumber n)
  then show ?thesis by (cases n) (auto split: option.split)
qed auto

lemma push_values_ok:
  "push_values arr params = Inr r \<longleftrightarrow> list_all scalar arr \<and> r = params @ map dval_of arr"
  by (induction arr arbitrary: params) (auto simp: rbind_Inr_iff to_value_ok)

lemma render_binds_values:
  "map (render \<circ> (\<lambda>v. [Bind (dval_of v)])) xs = replicate (length xs) ''?''"
  "concat (map (binds \<circ> (\<lambda>v. [Bind (dval_of v)])) xs) = map dval_of xs"
  by (induction xs) simp_all

lemma binary_cmp_symbol_None: "binary_cmp_symbol c = None \<longleftrightarrow> c \<in> {In, NotIn}"
  by (cases c) simp_all

lemma compile_in_ok:
  "compile_in col v params neg = Inr r \<longleftrightarrow>
     (\<exists>xs. v = JArray xs \<and> list_all scalar xs \<and>
        r = (if xs = [] then (if neg then ''1=1'' else ''1=0'')
             else col @ (if neg then '' NOT IN ('' else '' IN ('') @
               join '', '' (replicate (length xs) ''?'') @ '')'', params @ map dval_of xs))"
  by (cases v) (auto simp: compile_in_def rbind_Inr_iff push_values_ok Let_def)

lemma compile_predicate_ok:
  "compile_predicate rel p params = Inr r \<longleftrightarrow> bindable p \<and> r = emitted (pred_frags rel p) params"
proof (cases "p_op p \<in> {In, NotIn}")
  case True
  then have "compile_predicate rel p params = compile_in (rel @ ''.'' @ p_column p) (p_value p) params (p_op p = NotIn)"
    by (auto simp: compile_predicate_def)
  moreover from True have "binary_cmp_symbol (p_op p) = None"
    by (auto simp: binary_cmp_symbol_None)
  ultimately show ?thesis
    using True
    by (cases "p_value p"; cases "as_array (p_value p)")
      (auto simp: compile_in_ok bindable_def pred_frags_def emitted_def render_binds_values split: list.split)
next
  case False
  then obtain symbol where "binary_cmp_symbol (p_op p) = Some symbol"
    using binary_cmp_symbol_None by blast
  with False show ?thesis
    by (auto simp: compile_predicate_def rbind_Inr_iff to_value_ok bindable_def pred_frags_def emitted_def)
qed

lemma push_predicate_ok:
  "push_predicate rel p parts params = Inr r \<longleftrightarrow>
     pred_option bindable p \<and>
     r = (parts @ (case p of None \<Rightarrow> [] | Some p \<Rightarrow> [render (pred_frags rel p)]),
          params @ (case p of None \<Rightarrow> [] | Some p \<Rightarrow> binds (pred_frags rel p)))"
  by (cases p) (auto simp: push_predicate_def rbind_Inr_iff compile_predicate_ok emitted_def)

lemma compile_recency_ok:
  "compile_recency ev uk key ts wd p params alias tenant = Inr r \<longleftrightarrow>
     pred_option bindable p \<and>
     r = emitted (cond_frags alias (window_rows tenant key True ''>='' ev uk ts wd p)) params"
  by (cases p) (auto simp: compile_recency_def tenant_eq_def rbind_Inr_iff push_predicate_ok Let_def
      emitted_def window_rows_def key_test_def)

lemma compile_lapsed_ok:
  "compile_lapsed ev uk key ts wd p params alias tenant = Inr r \<longleftrightarrow>
     pred_option bindable p \<and>
     r = emitted (cond_frags alias (Conj [window_rows tenant key True ''<'' ev uk ts wd p,
                                          window_rows tenant key False ''>='' ev uk ts wd p])) params"
  by (cases p) (auto simp: compile_lapsed_def tenant_eq_def rbind_Inr_iff push_predicate_ok Let_def
      emitted_def window_rows_def key_test_def)

lemma cmp_symbol_ok: "cmp_symbol c = Inr t \<longleftrightarrow> c \<in> {Eq, Ne, Lt, Le, Gt, Ge} \<and> t = the (binary_cmp_symbol c)"
  by (cases c) auto

lemma split_once_feature:
  "split_feature_name n = Inr (family, short) \<Longrightarrow> split_once CHR ''.'' n = Some (family, short)"
  by (auto simp: split_feature_name_def result_simps split: option.splits)

lemma compile_feature_ok:
  "compile_feature n c v key params alias tenant as_of = Inr r \<longleftrightarrow>
     wf_op (Feature n c v) \<and>
     r = emitted (cond_frags alias (feature_rows tenant key n (the (binary_cmp_symbol c)) v as_of)) params"
proof (cases "split_feature_name n")
  case (Inl e)
  then show ?thesis by (simp add: compile_feature_def)
next
  case (Inr p)
  obtain family short where p: "p = (family, short)" by (cases p)
  note split_once_feature [OF Inr [unfolded p]]
  then show ?thesis
    by (cases as_of)
      (auto simp: compile_feature_def Inr p rbind_Inr_iff cmp_symbol_ok tenant_eq_def Let_def emitted_def
        feature_rows_def key_test_def)
qed

lemma compile_exclude_eq:
  "compile_exclude c key opts params =
     emitted (cond_frags (co_alias opts)
       (let cs = exclude_conds opts key c in if cs = [] then Test [Txt ''1=1''] else Conj cs)) params"
  by (cases "su_frequency_cap (co_suppression opts)")
    (simp_all add: compile_exclude_def no_repeat_clause_def frequency_cap_clause_def exclude_conds_def
      tenant_eq_def Let_def emitted_def key_test_def)

end
