(* ===== verification/Query_Refinement.thy ===== *)
theory Query_Refinement
  imports Query_Plan
begin

text \<open>
  Whole segments: \<open>plan_of\<close> reads a well-positioned segment as a structured query, \<open>compilable\<close>
  says which validated segments have one, and \<open>compile_at_iff\<close> shows that \<open>compile_at\<close> returns
  exactly the plan's rendering for those and an error for the others. The theorems about plans
  (values in place, tenant scoping, text free of values, sources) are transferred from here.
\<close>

subsection \<open>Plans\<close>

datatype plan =
    Select dataset string "cond list"
  | Combine set_op_kind plan plan
  | Derived string jit_metric dataset string "cond list" nat "cond list"

definition base_conds :: "compile_options \<Rightarrow> segment_query \<Rightarrow> cond list" where
  "base_conds opts q =
     Tenant_is ''base'' (co_tenant opts) # map (op_cond opts q) (filter narrowing (q_ops q))"

definition join_conds :: "compile_options \<Rightarrow> cond list" where
  "join_conds opts = [Test [Txt ''e.user_id = s.user_id''], Tenant_is ''e'' (co_tenant opts)]"

text \<open>The last op decides the shape; the ops before it narrow.\<close>

function plan_of :: "compile_options \<Rightarrow> segment_query \<Rightarrow> plan" where
  "plan_of opts q =
     (case last_op (q_ops q) of
        Some (SetOp k other) \<Rightarrow>
          Combine k (Select (q_source q) (q_key q) (base_conds opts q)) (plan_of opts other)
      | Some (Derive n m) \<Rightarrow>
          Derived n m (q_source q) (q_key q) (base_conds opts q) (the (co_derive_limit opts)) (join_conds opts)
      | _ \<Rightarrow> Select (q_source q) (q_key q) (base_conds opts q))"
  by auto
termination
proof (relation "measure (\<lambda>(opts, q). size q)")
  fix opts :: compile_options and q x k other
  assume "last_op (q_ops q) = Some x" "x = SetOp k other"
  then have "SetOp k other \<in> set (q_ops q)"
    by (metis last_in_set last_op_def option.discI option.inject)
  then show "((opts, other), (opts, q)) \<in> measure (\<lambda>(opts, q). size q)"
    by (simp add: size_setop)
qed simp

declare plan_of.simps [simp del]

definition conds_frags :: "string \<Rightarrow> cond list \<Rightarrow> frag list" where
  "conds_frags alias cs = join_frags '' AND '' (map (cond_frags alias) cs)"

fun plan_frags :: "string \<Rightarrow> plan \<Rightarrow> frag list" where
  "plan_frags alias (Select src key cs) =
     Txt (''SELECT DISTINCT base.'' @ key @ '' FROM '' @ raw_table src alias @ '' base WHERE '') # conds_frags alias cs"
| "plan_frags alias (Combine k p p') =
     Txt ''('' # plan_frags alias p @ Txt ('') '' @ setop_keyword k @ '' ('') # plan_frags alias p' @ [Txt '')'']"
| "plan_frags alias (Derived n m src key cs limit js) =
     Txt (''WITH survivor AS (SELECT DISTINCT base.'' @ key @ '' AS user_id FROM '' @ raw_table src alias @ '' base WHERE '')
       # conds_frags alias cs @
     [Txt ('' LIMIT '' @ show_nat limit @ '') SELECT ''), Bind (VText n),
      Txt ('' AS name, '' @ metric_agg m @ '' AS value FROM survivor s JOIN '' @
           raw_table (metric_event m) alias @ '' e ON '')] @ conds_frags alias js"

text \<open>The raw tables an op, and a plan, scan, in the order of the text.\<close>

fun op_sources :: "op \<Rightarrow> dataset list" where
  "op_sources (Recency ev uk ts wd p) = [ev]"
| "op_sources (Lapsed ev uk ts wd p) = [ev]"
| "op_sources (Derive n m) = [metric_event m]"
| "op_sources x = []"

function segment_sources :: "segment_query \<Rightarrow> dataset list" where
  "segment_sources q =
     q_source q # concat (map op_sources (q_ops q)) @
     (case last_op (q_ops q) of Some (SetOp k other) \<Rightarrow> segment_sources other | _ \<Rightarrow> [])"
  by auto
termination
proof (relation "measure size")
  fix q x k other
  assume "last_op (q_ops q) = Some x" "x = SetOp k other"
  then have "SetOp k other \<in> set (q_ops q)"
    by (metis last_in_set last_op_def option.discI option.inject)
  then show "(other, q) \<in> measure size"
    by (simp add: size_setop)
qed simp

declare segment_sources.simps [simp del]

subsection \<open>Which validated segments compile\<close>

fun compilable_op :: "compile_options \<Rightarrow> op \<Rightarrow> bool" where
  "compilable_op opts (Filter p) \<longleftrightarrow> bindable p"
| "compilable_op opts (Recency ev uk ts wd p) \<longleftrightarrow> pred_option bindable p"
| "compilable_op opts (Lapsed ev uk ts wd p) \<longleftrightarrow> pred_option bindable p"
| "compilable_op opts (Derive n m) \<longleftrightarrow> co_derive_limit opts \<noteq> None"
| "compilable_op opts (Characterize ev ts mon cat) \<longleftrightarrow> False"
| "compilable_op opts Similar \<longleftrightarrow> False"
| "compilable_op opts x \<longleftrightarrow> True"

fun nesting :: "segment_query \<Rightarrow> nat"
  and op_nesting :: "op \<Rightarrow> nat"
where
  "nesting (SegmentQuery src key ops as_of) = fold max (map op_nesting ops) 0"
| "op_nesting (SetOp k other) = Suc (nesting other)"
| "op_nesting (Filter p) = 0"
| "op_nesting (Recency ev uk ts wd p) = 0"
| "op_nesting (Lapsed ev uk ts wd p) = 0"
| "op_nesting (Exclude c) = 0"
| "op_nesting (Feature n c v) = 0"
| "op_nesting (Derive n m) = 0"
| "op_nesting Similar = 0"
| "op_nesting (Characterize ev ts mon cat) = 0"

definition compilable :: "compile_options \<Rightarrow> nat \<Rightarrow> segment_query \<Rightarrow> bool" where
  "compilable opts depth q \<longleftrightarrow>
     depth + nesting q \<le> MAX_NESTING \<and>
     (\<forall>s \<in> set (subsegments q). list_all (compilable_op opts) (q_ops s))"

subsection \<open>One op\<close>

text \<open>The text and pushes of a narrowing op, as the arms of the loop compute them.\<close>

fun op_text :: "compile_options \<Rightarrow> segment_query \<Rightarrow> op \<Rightarrow> dval list \<Rightarrow> (query_error, string \<times> dval list) result" where
  "op_text opts q (Filter p) params = compile_predicate ''base'' p params"
| "op_text opts q (Recency ev uk ts wd p) params =
     compile_recency ev uk (q_key q) ts wd p params (co_alias opts) (co_tenant opts)"
| "op_text opts q (Lapsed ev uk ts wd p) params =
     compile_lapsed ev uk (q_key q) ts wd p params (co_alias opts) (co_tenant opts)"
| "op_text opts q (Feature n c v) params =
     compile_feature n c v (q_key q) params (co_alias opts) (co_tenant opts) (q_as_of q)"
| "op_text opts q (Exclude c) params = Inr (compile_exclude c (q_key q) opts params)"
| "op_text opts q x params = Inl (dsl_error [])"

definition push_sources :: "compile_locals \<Rightarrow> dataset list \<Rightarrow> compile_locals" where
  "push_sources l ds = l\<lparr>cl_sources := cl_sources l @ ds\<rparr>"

lemma op_text_ok:
  "narrowing x \<Longrightarrow> wf_op x \<Longrightarrow>
     op_text opts q x params = Inr c \<longleftrightarrow>
     compilable_op opts x \<and> c = emitted (cond_frags (co_alias opts) (op_cond opts q x)) params"
proof (induction x rule: narrowing.induct)
  case (4 n c v)
  then show ?case
    using compile_feature_ok [of n c v "q_key q" params "co_alias opts" "co_tenant opts" "q_as_of q"]
    by simp
qed (auto simp: compile_predicate_ok compile_recency_ok compile_lapsed_ok compile_exclude_eq)

lemma compile_loop_narrowing:
  "narrowing x \<Longrightarrow> cl_setop l = None \<Longrightarrow>
     compile_loop opts q (x # xs) l =
     rbind (op_text opts q x (cl_params l)) (\<lambda>c.
       compile_loop opts q xs (push_conjunct (push_sources l (op_sources x)) c))"
  by (cases x) (simp_all add: push_sources_def push_source_def Let_def)

text \<open>After narrowing ops the locals hold the conditions' texts, values and sources.\<close>

definition after_ops :: "compile_options \<Rightarrow> segment_query \<Rightarrow> op list \<Rightarrow> compile_locals \<Rightarrow> compile_locals" where
  "after_ops opts q xs l =
     l\<lparr>cl_params := cl_params l @ concat (map (binds \<circ> cond_frags (co_alias opts) \<circ> op_cond opts q) xs),
       cl_sources := cl_sources l @ concat (map op_sources xs),
       cl_conjuncts := cl_conjuncts l @ map (render \<circ> cond_frags (co_alias opts) \<circ> op_cond opts q) xs\<rparr>"

lemma compile_loop_prefix:
  assumes "list_all narrowing xs" "list_all wf_op xs" "cl_setop l = None"
  shows "compile_loop opts q (xs @ ys) l = Inr r \<longleftrightarrow>
    list_all (compilable_op opts) xs \<and> compile_loop opts q ys (after_ops opts q xs l) = Inr r"
  using assms
proof (induction xs arbitrary: l)
  case Nil
  then show ?case by (simp add: after_ops_def)
next
  case (Cons x xs)
  let ?l = "push_conjunct (push_sources l (op_sources x)) (emitted (cond_frags (co_alias opts) (op_cond opts q x)) (cl_params l))"
  have l: "cl_setop ?l = None" "after_ops opts q xs ?l = after_ops opts q (x # xs) l"
    using Cons.prems by (simp_all add: push_conjunct_def push_sources_def after_ops_def emitted_def)
  have "compile_loop opts q ((x # xs) @ ys) l =
      rbind (op_text opts q x (cl_params l)) (\<lambda>c.
        compile_loop opts q (xs @ ys) (push_conjunct (push_sources l (op_sources x)) c))"
    using Cons.prems by (simp only: append_Cons compile_loop_narrowing list.pred_inject simp_thms)
  with Cons.prems Cons.IH [OF _ _ l(1)] show ?case
    by (auto simp: rbind_Inr_iff op_text_ok l(2) simp del: compile_loop.simps)
qed

subsection \<open>One segment\<close>

definition base_prefix :: "compile_options \<Rightarrow> segment_query \<Rightarrow> op list \<Rightarrow> cond list" where
  "base_prefix opts q xs = Tenant_is ''base'' (co_tenant opts) # map (op_cond opts q) xs"

lemma after_ops_start:
  "after_ops opts q xs (compile_start opts q) =
     \<lparr>cl_params = binds (conds_frags (co_alias opts) (base_prefix opts q xs)),
      cl_sources = q_source q # concat (map op_sources xs),
      cl_conjuncts = map (render \<circ> cond_frags (co_alias opts)) (base_prefix opts q xs),
      cl_setop = None\<rparr>"
  by (simp add: after_ops_def compile_start_def tenant_eq_def conds_frags_def base_prefix_def comp_assoc)

lemma base_select_render:
  "base_select src key (map (render \<circ> cond_frags alias) (base_prefix opts q xs)) alias =
     render (plan_frags alias (Select src key (base_prefix opts q xs)))"
  by (simp add: base_select_def Let_def conds_frags_def base_prefix_def comp_assoc)

lemma survivor_cte_render:
  "survivor_cte src key (map (render \<circ> cond_frags alias) (base_prefix opts q xs)) alias limit =
     ''SELECT DISTINCT base.'' @ key @ '' AS user_id FROM '' @ raw_table src alias @ '' base WHERE '' @
     render (conds_frags alias (base_prefix opts q xs)) @ '' LIMIT '' @ show_nat limit"
  by (simp add: survivor_cte_def Let_def conds_frags_def base_prefix_def comp_assoc)

lemma wf_positions_cases:
  assumes "wf_positions ops"
  obtains (narrow) "list_all narrowing ops"
  | (setop) pre k other where "ops = pre @ [SetOp k other]" "list_all narrowing pre"
  | (profile) pre x where "ops = pre @ [x]" "list_all narrowing pre" "is_profile x"
proof (cases "ops = []")
  case True
  then show ?thesis using narrow by simp
next
  case False
  then obtain pre x where ops: "ops = pre @ [x]" by (metis append_butlast_last_id)
  then have pre: "list_all narrowing pre" and "narrowing x \<or> is_setop x \<or> is_profile x"
    using assms by (auto simp: wf_positions_def)
  then show ?thesis
    using ops narrow setop profile by (cases x) auto
qed

lemma filter_narrowing [simp]: "list_all narrowing xs \<Longrightarrow> filter narrowing xs = xs"
  by (simp add: list_all_iff filter_id_conv)

lemma fold_max_0 [simp]: "(\<forall>n \<in> set ns. n = 0) \<Longrightarrow> fold max (ns :: nat list) 0 = 0"
  by (induction ns) auto

lemma narrowing_flat: "narrowing x \<Longrightarrow> op_nesting x = 0 \<and> op_subsegments x = []"
  by (cases x) simp_all

lemma profile_flat: "is_profile x \<Longrightarrow> op_nesting x = 0 \<and> op_subsegments x = [] \<and> \<not> narrowing x"
  by (cases x) simp_all

lemma concat_narrowing [simp]: "list_all narrowing xs \<Longrightarrow> concat (map op_subsegments xs) = []"
  by (auto simp: list_all_iff narrowing_flat)

lemma fold_max_narrowing [simp]: "list_all narrowing xs \<Longrightarrow> fold max (map op_nesting xs) 0 = (0 :: nat)"
  by (rule fold_max_0) (auto simp: list_all_iff narrowing_flat)

lemma last_op_simps [simp]: "last_op [] = None" "last_op (xs @ [x]) = Some x"
  by (simp_all add: last_op_def)

lemma last_op_narrowing: "list_all narrowing xs \<Longrightarrow> last_op xs = None \<or> (\<exists>x. last_op xs = Some x \<and> narrowing x)"
  by (cases xs rule: rev_cases) (auto simp: list_all_iff)

definition rendered :: "compile_options \<Rightarrow> segment_query \<Rightarrow> compiled_query" where
  "rendered opts q =
     \<lparr>cq_sql = render (plan_frags (co_alias opts) (plan_of opts q)),
      cq_params = binds (plan_frags (co_alias opts) (plan_of opts q)),
      cq_sources = segment_sources q\<rparr>"

lemma segment_unfold:
  "nesting q = fold max (map op_nesting (q_ops q)) 0"
  "subsegments q = q # concat (map op_subsegments (q_ops q))"
  by (cases q; simp)+

lemma compile_at_narrow:
  assumes ops: "list_all narrowing (q_ops q)" "list_all wf_op (q_ops q)"
  shows "compile_at q depth opts = Inr cq \<longleftrightarrow> compilable opts depth q \<and> cq = rendered opts q"
proof -
  let ?xs = "q_ops q"
  have loop: "compile_loop opts q ?xs (compile_start opts q) = Inr r \<longleftrightarrow>
      list_all (compilable_op opts) ?xs \<and> r = Fell (after_ops opts q ?xs (compile_start opts q))" for r
    using compile_loop_prefix [of ?xs "compile_start opts q" opts q "[]"] ops
    by (auto simp: compile_start_def tenant_eq_def)
  have "plan_of opts q = Select (q_source q) (q_key q) (base_prefix opts q ?xs)"
    using last_op_narrowing [of ?xs] ops
    by (auto simp: plan_of.simps [of opts q] base_conds_def base_prefix_def split: op.split)
  moreover have "segment_sources q = q_source q # concat (map op_sources ?xs)"
    using last_op_narrowing [of ?xs] ops by (auto simp: segment_sources.simps [of q] split: op.split)
  ultimately show ?thesis
    using ops
    by (auto simp: compile_at.simps [of q] rbind_Inr_iff loop compilable_def rendered_def after_ops_start
        base_select_render segment_unfold)
qed

lemma compile_at_setop:
  assumes ops: "q_ops q = pre @ [SetOp k other]" "list_all narrowing pre" "list_all wf_op pre"
    and other: "\<And>depth cq. compile_at other depth opts = Inr cq \<longleftrightarrow>
      compilable opts depth other \<and> cq = rendered opts other"
  shows "compile_at q depth opts = Inr cq \<longleftrightarrow> compilable opts depth q \<and> cq = rendered opts q"
proof -
  have "compile_loop opts q [SetOp k other] (after_ops opts q pre (compile_start opts q)) =
      Inr (Fell ((after_ops opts q pre (compile_start opts q))\<lparr>cl_setop := Some (k, other)\<rparr>))"
    by (simp add: after_ops_start)
  then have loop: "compile_loop opts q (q_ops q) (compile_start opts q) = Inr r \<longleftrightarrow>
      list_all (compilable_op opts) pre \<and>
      r = Fell ((after_ops opts q pre (compile_start opts q))\<lparr>cl_setop := Some (k, other)\<rparr>)" for r
    using compile_loop_prefix [of pre "compile_start opts q" opts q "[SetOp k other]" r] ops
    by (auto simp: compile_start_def tenant_eq_def)
  have p: "plan_of opts q = Combine k (Select (q_source q) (q_key q) (base_prefix opts q pre)) (plan_of opts other)"
    using ops by (simp add: plan_of.simps [of opts q] base_conds_def base_prefix_def)
  have src: "segment_sources q = q_source q # concat (map op_sources pre) @ segment_sources other"
    using ops by (simp add: segment_sources.simps [of q])
  have ok: "compilable opts depth q \<longleftrightarrow>
      depth \<le> MAX_NESTING \<and> list_all (compilable_op opts) pre \<and> compilable opts (depth + 1) other"
    using ops by (auto simp: compilable_def segment_unfold [of q])
  show ?thesis
    unfolding compile_at.simps [of q] ok
    by (auto simp: rbind_Inr_iff loop other rendered_def p src after_ops_start base_select_render Let_def)
qed

lemma compile_at_profile:
  assumes ops: "q_ops q = pre @ [x]" "list_all narrowing pre" "list_all wf_op pre" "is_profile x"
  shows "compile_at q depth opts = Inr cq \<longleftrightarrow> compilable opts depth q \<and> cq = rendered opts q"
proof -
  have loop: "compile_loop opts q (q_ops q) (compile_start opts q) = Inr r \<longleftrightarrow>
      list_all (compilable_op opts) pre \<and>
      compile_loop opts q [x] (after_ops opts q pre (compile_start opts q)) = Inr r" for r
    using compile_loop_prefix [of pre "compile_start opts q" opts q "[x]" r] ops
    by (auto simp: compile_start_def tenant_eq_def)
  have ok: "compilable opts depth q \<longleftrightarrow>
      depth \<le> MAX_NESTING \<and> list_all (compilable_op opts) pre \<and> compilable_op opts x"
    using ops profile_flat [OF ops(4)] by (auto simp: compilable_def segment_unfold [of q])
  show ?thesis
  proof (cases x)
    case (Derive n m)
    have p: "plan_of opts q = Derived n m (q_source q) (q_key q) (base_prefix opts q pre)
        (the (co_derive_limit opts)) (join_conds opts)"
      using ops Derive by (simp add: plan_of.simps [of opts q] base_conds_def base_prefix_def)
    have src: "segment_sources q = q_source q # concat (map op_sources pre) @ [metric_event m]"
      using ops Derive by (simp add: segment_sources.simps [of q])
    have "compile_loop opts q [x] (after_ops opts q pre (compile_start opts q)) = Inr r \<longleftrightarrow>
        compilable_op opts x \<and> r = Returned (rendered opts q)" for r
      by (cases "co_derive_limit opts")
        (auto simp: Derive p src rendered_def after_ops_start compile_derive_def
          push_source_def compile_derive_metric_def survivor_cte_render tenant_eq_def join_conds_def
          conds_frags_def [of _ "[_, _]"] Let_def)
    note result = loop [unfolded this]
    show ?thesis
      unfolding compile_at.simps [of q] ok
      by (auto simp: rbind_Inr_iff result simp del: compile_loop.simps)
  next
    case (Characterize ev ts mon cat)
    then have "\<not> (compile_loop opts q [x] (after_ops opts q pre (compile_start opts q)) = Inr r)" for r
      by (simp add: after_ops_start)
    note result = loop [unfolded this]
    show ?thesis
      unfolding compile_at.simps [of q] ok
      using Characterize by (auto simp: rbind_Inr_iff result)
  qed (use ops in simp_all)
qed

text \<open>The refinement: for a validated segment, \<open>compile_at\<close> returns exactly the plan's rendering.\<close>

lemma wf_segment_level:
  "wf_segment rfc q \<Longrightarrow> list_all wf_op (q_ops q) \<and> wf_positions (q_ops q)"
  by (cases q) (simp add: wf_segment_def wf_level_def)

lemma wf_segment_setop:
  "wf_segment rfc q \<Longrightarrow> SetOp k other \<in> set (q_ops q) \<Longrightarrow> wf_segment rfc other"
  by (cases q) (auto simp: wf_segment_def list_all_iff)

lemma compile_at_refines:
  "wf_segment rfc q \<Longrightarrow>
     compile_at q depth opts = Inr cq \<longleftrightarrow> compilable opts depth q \<and> cq = rendered opts q"
proof (induction opts q arbitrary: depth cq rule: plan_of.induct)
  case (1 opts q)
  from wf_segment_level [OF "1.prems"] have wf: "list_all wf_op (q_ops q)" "wf_positions (q_ops q)"
    by simp_all
  from wf(2) show ?case
  proof (cases rule: wf_positions_cases)
    case narrow
    with wf(1) show ?thesis by (intro compile_at_narrow)
  next
    case (setop pre k other)
    have "wf_segment rfc other"
      using "1.prems" setop(1) wf_segment_setop by fastforce
    have last: "last_op (q_ops q) = Some (SetOp k other)"
      unfolding setop(1) by (rule last_op_simps)
    have pre: "list_all wf_op pre"
      using wf(1) unfolding setop(1) by simp
    show ?thesis
      by (rule compile_at_setop [OF setop pre "1.IH" [OF last refl \<open>wf_segment rfc other\<close>]])
  next
    case (profile pre x)
    with wf(1) show ?thesis by (intro compile_at_profile) auto
  qed
qed

end
