(* ===== verification/Query_Isolation.thy ===== *)
theory Query_Isolation
  imports Query_Refinement
begin

text \<open>
  A meaning for plans, in which what a test, a \<open>GROUP BY .. HAVING\<close> or an aggregate computes is
  left open (\<open>sql_sem\<close>, quantified over), and what it takes for a plan to be confined to a
  tenant. \<open>eval_plan_local\<close>: a scoped plan returns the same on two databases that agree on
  that tenant's rows. \<open>plan_of_scoped\<close>: the plan of every segment is scoped to the caller.
\<close>

record ('r, 'k) sql_sem =
  sem_tenant :: "'r \<Rightarrow> string"
  sem_test :: "frag list \<Rightarrow> (string \<rightharpoonup> 'r) \<Rightarrow> bool"
  sem_group :: "frag list \<Rightarrow> (string \<rightharpoonup> 'r) \<Rightarrow> 'r list \<Rightarrow> bool"
  sem_key :: "string \<Rightarrow> 'r \<Rightarrow> 'k"
  sem_survivor :: "'k \<Rightarrow> 'r"
  sem_metric :: "string \<Rightarrow> jit_metric \<Rightarrow> ('k \<times> 'r) list \<Rightarrow> 'k list"

type_synonym 'r database = "string \<Rightarrow> 'r list"

fun eval_cond :: "('r, 'k) sql_sem \<Rightarrow> string \<Rightarrow> 'r database \<Rightarrow> (string \<rightharpoonup> 'r) \<Rightarrow> cond \<Rightarrow> bool" where
  "eval_cond sem alias db env (Tenant_is rel t) \<longleftrightarrow>
     (case env rel of Some row \<Rightarrow> sem_tenant sem row = t | None \<Rightarrow> False)"
| "eval_cond sem alias db env (Test fs) \<longleftrightarrow> sem_test sem fs env"
| "eval_cond sem alias db env (Conj cs) \<longleftrightarrow> (\<forall>c \<in> set cs. eval_cond sem alias db env c)"
| "eval_cond sem alias db env (Rows present tb rel cs rest) \<longleftrightarrow>
     present = sem_group sem rest env
       (filter (\<lambda>row. \<forall>c \<in> set cs. eval_cond sem alias db (env(rel \<mapsto> row)) c) (db (table_name alias tb)))"

text \<open>The rows of a raw table, under a relation name, that satisfy the conditions.\<close>

definition scan :: "('r, 'k) sql_sem \<Rightarrow> string \<Rightarrow> 'r database \<Rightarrow> (string \<rightharpoonup> 'r) \<Rightarrow> dataset \<Rightarrow> string \<Rightarrow> cond list \<Rightarrow> 'r list" where
  "scan sem alias db env src rel cs =
     filter (\<lambda>row. \<forall>c \<in> set cs. eval_cond sem alias db (env(rel \<mapsto> row)) c) (db (raw_table src alias))"

definition select_keys :: "('r, 'k) sql_sem \<Rightarrow> string \<Rightarrow> 'r database \<Rightarrow> dataset \<Rightarrow> string \<Rightarrow> cond list \<Rightarrow> 'k list" where
  "select_keys sem alias db src key cs =
     remdups (map (sem_key sem key) (scan sem alias db Map.empty src ''base'' cs))"

fun combine :: "set_op_kind \<Rightarrow> 'k list \<Rightarrow> 'k list \<Rightarrow> 'k list" where
  "combine Intersect xs ys = filter (\<lambda>x. x \<in> set ys) xs"
| "combine Union_op xs ys = remdups (xs @ ys)"
| "combine Minus xs ys = filter (\<lambda>x. x \<notin> set ys) xs"

fun eval_plan :: "('r, 'k) sql_sem \<Rightarrow> string \<Rightarrow> 'r database \<Rightarrow> plan \<Rightarrow> 'k list" where
  "eval_plan sem alias db (Select src key cs) = select_keys sem alias db src key cs"
| "eval_plan sem alias db (Combine k p p') =
     combine k (eval_plan sem alias db p) (eval_plan sem alias db p')"
| "eval_plan sem alias db (Derived n m src key cs limit js) =
     sem_metric sem n m
       (concat (map (\<lambda>k. map (Pair k) (scan sem alias db [''s'' \<mapsto> sem_survivor sem k] (metric_event m) ''e'' js))
          (take limit (select_keys sem alias db src key cs))))"

subsection \<open>Scoped plans\<close>

fun cond_scoped :: "string \<Rightarrow> cond \<Rightarrow> bool" where
  "cond_scoped t (Tenant_is rel t') \<longleftrightarrow> True"
| "cond_scoped t (Test fs) \<longleftrightarrow> True"
| "cond_scoped t (Conj cs) \<longleftrightarrow> (\<forall>c \<in> set cs. cond_scoped t c)"
| "cond_scoped t (Rows present tb rel cs rest) \<longleftrightarrow>
     Tenant_is rel t \<in> set cs \<and> (\<forall>c \<in> set cs. cond_scoped t c)"

definition scan_scoped :: "string \<Rightarrow> string \<Rightarrow> cond list \<Rightarrow> bool" where
  "scan_scoped t rel cs \<longleftrightarrow> Tenant_is rel t \<in> set cs \<and> (\<forall>c \<in> set cs. cond_scoped t c)"

fun plan_scoped :: "string \<Rightarrow> plan \<Rightarrow> bool" where
  "plan_scoped t (Select src key cs) \<longleftrightarrow> scan_scoped t ''base'' cs"
| "plan_scoped t (Combine k p p') \<longleftrightarrow> plan_scoped t p \<and> plan_scoped t p'"
| "plan_scoped t (Derived n m src key cs limit js) \<longleftrightarrow> scan_scoped t ''base'' cs \<and> scan_scoped t ''e'' js"

lemma window_rows_scoped [simp]: "cond_scoped t (window_rows t key present cmp ev uk ts wd p)"
  by (auto simp: window_rows_def key_test_def split: option.splits)

lemma exclude_conds_scoped: "c \<in> set (exclude_conds opts key campaign) \<Longrightarrow> cond_scoped (co_tenant opts) c"
  by (auto simp: exclude_conds_def key_test_def split: if_splits option.splits)

lemma feature_rows_scoped: "cond_scoped t (feature_rows t key n symbol v as_of)"
  by (simp add: feature_rows_def key_test_def split: option.split)

lemma op_cond_scoped: "cond_scoped (co_tenant opts) (op_cond opts q x)"
  by (cases x) (simp_all add: feature_rows_scoped exclude_conds_scoped Let_def)

lemma base_conds_scoped: "scan_scoped (co_tenant opts) ''base'' (base_conds opts q)"
  by (auto simp: scan_scoped_def base_conds_def op_cond_scoped)

lemma join_conds_scoped: "scan_scoped (co_tenant opts) ''e'' (join_conds opts)"
  by (simp add: scan_scoped_def join_conds_def)

lemma plan_of_scoped: "plan_scoped (co_tenant opts) (plan_of opts q)"
proof (induction opts q rule: plan_of.induct)
  case (1 opts q)
  show ?case
  proof (cases "last_op (q_ops q)")
    case None
    then show ?thesis by (simp add: plan_of.simps [of opts q] base_conds_scoped)
  next
    case (Some x)
    then show ?thesis
      using 1 by (cases x) (simp_all add: plan_of.simps [of opts q] base_conds_scoped join_conds_scoped)
  qed
qed

subsection \<open>A scoped plan only reads its tenant's rows\<close>

definition same_tenant_rows :: "('r, 'k) sql_sem \<Rightarrow> string \<Rightarrow> 'r database \<Rightarrow> 'r database \<Rightarrow> bool" where
  "same_tenant_rows sem t db db' \<longleftrightarrow>
     (\<forall>name. filter (\<lambda>row. sem_tenant sem row = t) (db name) = filter (\<lambda>row. sem_tenant sem row = t) (db' name))"

text \<open>A filter that includes the tenant test, rewritten as a filter of the tenant's rows.\<close>

lemma filter_through_tenant:
  assumes "\<And>row. P row \<Longrightarrow> sem_tenant sem row = t"
  shows "filter P rows = filter P (filter (\<lambda>row. sem_tenant sem row = t) rows)"
  using assms by (auto simp: filter_filter intro: filter_cong)

lemma scoped_filter:
  assumes "Tenant_is rel t \<in> set cs" and "same_tenant_rows sem t db db'"
    and "\<And>c row. c \<in> set cs \<Longrightarrow> eval_cond sem alias db (env(rel \<mapsto> row)) c = eval_cond sem alias db' (env(rel \<mapsto> row)) c"
  shows "filter (\<lambda>row. \<forall>c \<in> set cs. eval_cond sem alias db (env(rel \<mapsto> row)) c) (db name) =
    filter (\<lambda>row. \<forall>c \<in> set cs. eval_cond sem alias db' (env(rel \<mapsto> row)) c) (db' name)"
proof -
  let ?P = "\<lambda>db row. \<forall>c \<in> set cs. eval_cond sem alias db (env(rel \<mapsto> row)) c"
  have P: "?P db row = ?P db' row" for row using assms(3) by blast
  have ten: "?P db row \<Longrightarrow> sem_tenant sem row = t" for db row
    using assms(1) by fastforce
  have "filter (?P db) (db name) = filter (?P db) (filter (\<lambda>row. sem_tenant sem row = t) (db name))"
    by (rule filter_through_tenant) (rule ten)
  also have "\<dots> = filter (?P db') (filter (\<lambda>row. sem_tenant sem row = t) (db' name))"
    using assms(2) P by (simp add: same_tenant_rows_def)
  also have "\<dots> = filter (?P db') (db' name)"
    by (rule filter_through_tenant [symmetric]) (rule ten)
  finally show ?thesis .
qed

lemma eval_cond_local:
  "cond_scoped t c \<Longrightarrow> same_tenant_rows sem t db db' \<Longrightarrow>
     eval_cond sem alias db env c = eval_cond sem alias db' env c"
proof (induction c arbitrary: env)
  case (Rows present tb rel cs rest)
  then have "filter (\<lambda>row. \<forall>c \<in> set cs. eval_cond sem alias db (env(rel \<mapsto> row)) c) (db (table_name alias tb)) =
      filter (\<lambda>row. \<forall>c \<in> set cs. eval_cond sem alias db' (env(rel \<mapsto> row)) c) (db' (table_name alias tb))"
    by (intro scoped_filter) auto
  then show ?case by simp
qed auto

lemma scan_local:
  assumes "scan_scoped t rel cs" "same_tenant_rows sem t db db'"
  shows "scan sem alias db env src rel cs = scan sem alias db' env src rel cs"
proof -
  have "Tenant_is rel t \<in> set cs" and "\<And>c. c \<in> set cs \<Longrightarrow> cond_scoped t c"
    using assms(1) by (auto simp: scan_scoped_def)
  then show ?thesis
    unfolding scan_def by (intro scoped_filter [OF _ assms(2)] eval_cond_local [OF _ assms(2)])
qed

lemma eval_plan_local:
  "plan_scoped t p \<Longrightarrow> same_tenant_rows sem t db db' \<Longrightarrow> eval_plan sem alias db p = eval_plan sem alias db' p"
proof (induction p)
  case (Derived n m src key cs limit js)
  then have "scan sem alias db env src ''base'' cs = scan sem alias db' env src ''base'' cs"
    and "scan sem alias db env' (metric_event m) ''e'' js = scan sem alias db' env' (metric_event m) ''e'' js"
    for env env'
    by (auto intro: scan_local)
  then show ?case by (simp add: select_keys_def)
next
  case (Select src key cs)
  then have "scan sem alias db Map.empty src ''base'' cs = scan sem alias db' Map.empty src ''base'' cs"
    by (intro scan_local) simp_all
  then show ?case by (simp add: select_keys_def)
qed simp

end
