(* ===== verification/Query_Safety.thy ===== *)
theory Query_Safety
  imports Query_Isolation
begin

text \<open>
  What the refinement buys. Values in place: the database, binding by position, sees exactly
  the plan. Tenant isolation: every scan of a plan is restricted to the caller's tenant, hence
  its result does not depend on other tenants' rows, whatever the SQL tests mean. Injection:
  the text depends only on the shape of the segment, never on a value. Freshness: the sources
  are the raw tables scanned. The three queries of a profile have the same guarantees.
\<close>

subsection \<open>No placeholder hides in a name\<close>

lemma qmarks_raw_table [qm_simps]:
  "wf_dataset d \<Longrightarrow> qmarks alias = 0 \<Longrightarrow> qmarks (raw_table d alias) = 0"
  by (simp add: raw_table_def wf_dataset_def qm_simps)

lemma qm_free_values: "qm_free (join_frags '', '' (map (\<lambda>v. [Bind (dval_of v)]) xs))"
  by (rule qm_free_join) auto

lemma qmarks_symbol [qm_simps]: "binary_cmp_symbol c = Some s \<Longrightarrow> qmarks s = 0"
  by (cases c) auto

lemma qm_free_pred:
  assumes "qmarks rel = 0" "wf_predicate p"
  shows "qm_free (pred_frags rel p)"
proof -
  have "qmarks (p_column p) = 0" using assms by (simp add: wf_predicate_def qm_simps)
  moreover have "qm_free (join_frags '', '' ([Bind (dval_of x)] # map (\<lambda>v. [Bind (dval_of v)]) xs))" for x xs
    using qm_free_values [of "x # xs"] by simp
  ultimately show ?thesis
    using assms
    by (cases "binary_cmp_symbol (p_op p)"; cases "as_array (p_value p)")
      (auto simp: pred_frags_def Let_def qm_simps split: list.split)
qed

lemma qmarks_sq [simp, qm_simps]: "qmarks sq = 0"
  by (simp add: sq_def)

lemma qm_free_conds:
  "(\<And>c. c \<in> set cs \<Longrightarrow> qm_free (cond_frags alias c)) \<Longrightarrow>
     qm_free (join_frags '' AND '' (map (cond_frags alias) cs))"
  by (rule qm_free_join) auto

lemma qm_free_window:
  assumes "wf_window ev uk ts wd p" "IDENT_RE key" "qmarks alias = 0" "qmarks cmp = 0"
  shows "qm_free (cond_frags alias (window_rows t key present cmp ev uk ts wd p))"
proof -
  have "pred_option (\<lambda>p. qm_free (pred_frags ''e'' p)) p"
    using assms by (cases p) (auto simp: wf_window_def intro: qm_free_pred)
  with assms show ?thesis
    by (cases p) (auto simp: wf_window_def window_rows_def key_test_def window_test_def qm_simps)
qed

lemma qm_free_op:
  assumes "wf_op x" "narrowing x" "IDENT_RE (q_key q)" "qmarks (co_alias opts) = 0"
  shows "qm_free (cond_frags (co_alias opts) (op_cond opts q x))"
proof (cases x)
  case (Filter p)
  with assms show ?thesis by (simp add: qm_free_pred)
next
  case (Recency ev uk ts wd p)
  with assms show ?thesis by (simp add: qm_free_window)
next
  case (Lapsed ev uk ts wd p)
  with assms show ?thesis by (simp add: qm_free_window del: cond_frags.simps(4))
next
  case (Feature n c v)
  then obtain family short where n: "split_feature_name n = Inr (family, short)"
    and c: "c \<in> {Eq, Ne, Lt, Le, Gt, Ge}" using assms by auto
  then obtain s where s: "binary_cmp_symbol c = Some s" by auto
  from n have "IDENT_RE family" "IDENT_RE short" "split_once CHR ''.'' n = Some (family, short)"
    by (auto simp: split_feature_name_iff split_once_feature)
  with Feature assms s show ?thesis
    by (cases "q_as_of q") (simp_all add: feature_rows_def key_test_def qm_simps)
next
  case (Exclude c)
  with assms show ?thesis
    by (cases "su_frequency_cap (co_suppression opts)")
      (simp_all add: exclude_conds_def key_test_def qm_simps)
qed (use assms in simp_all)

lemma wf_segment_top:
  "wf_segment rfc q \<Longrightarrow> IDENT_RE (q_key q) \<and> wf_dataset (q_source q)"
  by (cases q) (simp add: wf_segment_def wf_level_def)

lemma qm_free_base:
  assumes "wf_segment rfc q" "qmarks (co_alias opts) = 0"
  shows "qm_free (conds_frags (co_alias opts) (base_conds opts q))"
  using assms wf_segment_top [OF assms(1)] wf_segment_level [OF assms(1)]
  by (auto simp: conds_frags_def base_conds_def list_all_iff simp del: list.map intro!: qm_free_conds qm_free_op)

lemma qm_free_plan:
  assumes "wf_segment rfc q" "qmarks (co_alias opts) = 0"
  shows "qm_free (plan_frags (co_alias opts) (plan_of opts q))"
  using assms
proof (induction opts q rule: plan_of.induct)
  case (1 opts q)
  note base = qm_free_base [OF "1.prems"] and top = wf_segment_top [OF "1.prems"(1)]
  show ?case
  proof (cases "last_op (q_ops q)")
    case None
    with 1 base top show ?thesis by (simp add: plan_of.simps [of opts q] qm_simps)
  next
    case (Some x)
    then have x: "x \<in> set (q_ops q)" by (auto simp: last_op_def split: if_splits)
    then have wx: "wf_op x" using wf_segment_level [OF "1.prems"(1)] by (auto simp: list_all_iff)
    show ?thesis
    proof (cases x)
      case (SetOp k other)
      have "wf_segment rfc other" using "1.prems"(1) x SetOp wf_segment_setop by blast
      from "1.IH" [OF Some SetOp this "1.prems"(2)] Some SetOp base top "1.prems"(2) show ?thesis
        by (cases k) (simp_all add: plan_of.simps [of opts q] qm_simps)
    next
      case (Derive n m)
      with wx have "qmarks (metric_agg m) = 0" "wf_dataset (metric_event m)"
        by (cases m; simp add: qm_simps)+
      with Some Derive base top "1.prems"(2) show ?thesis
        by (simp add: plan_of.simps [of opts q] qm_simps join_conds_def conds_frags_def [of _ "[_, _]"])
    qed (use Some base top "1.prems"(2) in \<open>simp_all add: plan_of.simps [of opts q] qm_simps\<close>)
  qed
qed

subsection \<open>The text depends on the shape only\<close>

text \<open>A segment with every value replaced by a fixed one: predicate values (an array keeps its
  length), feature values, the cut-off, campaign ids and metric names.\<close>

fun shape_value :: "json \<Rightarrow> json" where
  "shape_value (JArray xs) = JArray (map (\<lambda>_. JNull) xs)"
| "shape_value _ = JNull"

definition shape_pred :: "predicate \<Rightarrow> predicate" where
  "shape_pred p = Predicate (p_column p) (p_op p) (shape_value (p_value p))"

fun shape :: "segment_query \<Rightarrow> segment_query"
  and shape_op :: "op \<Rightarrow> op"
where
  "shape (SegmentQuery src key ops as_of) =
     SegmentQuery src key (map shape_op ops) (map_option (\<lambda>_. []) as_of)"
| "shape_op (Filter p) = Filter (shape_pred p)"
| "shape_op (Recency ev uk ts wd p) = Recency ev uk ts wd (map_option shape_pred p)"
| "shape_op (Lapsed ev uk ts wd p) = Lapsed ev uk ts wd (map_option shape_pred p)"
| "shape_op (SetOp k other) = SetOp k (shape other)"
| "shape_op (Exclude c) = Exclude []"
| "shape_op (Feature n c v) = Feature n c 0"
| "shape_op (Derive n m) = Derive [] m"
| "shape_op Similar = Similar"
| "shape_op (Characterize ev ts mon cat) = Characterize ev ts mon cat"

lemma shape_sel [simp]:
  "q_source (shape q) = q_source q" "q_key (shape q) = q_key q"
  "q_ops (shape q) = map shape_op (q_ops q)" "q_as_of (shape q) = map_option (\<lambda>_. []) (q_as_of q)"
  by (cases q; simp)+

lemma narrowing_shape [simp]: "narrowing (shape_op x) = narrowing x"
  by (cases x) simp_all

lemma map_render_values:
  "map (render \<circ> (\<lambda>v. [Bind (f v)])) xs = replicate (length xs) ''?''"
  "map (render \<circ> ((\<lambda>v. [Bind (f v)]) \<circ> g)) xs = replicate (length xs) ''?''"
  by (induction xs) simp_all

lemma render_shape_pred: "render (pred_frags rel (shape_pred p)) = render (pred_frags rel p)"
proof (cases "binary_cmp_symbol (p_op p)")
  case None
  then show ?thesis
    by (cases "p_value p")
      (auto simp: pred_frags_def shape_pred_def Let_def map_render_values
        split: list.split)
qed (simp add: pred_frags_def shape_pred_def)

lemma render_shape_window:
  "render (cond_frags alias (window_rows t' key present cmp ev uk ts wd (map_option shape_pred p))) =
   render (cond_frags alias (window_rows t key present cmp ev uk ts wd p))"
  by (cases p) (simp_all add: window_rows_def key_test_def render_shape_pred)

definition other_tenant :: "compile_options \<Rightarrow> string \<Rightarrow> compile_options" where
  "other_tenant opts t = opts\<lparr>co_tenant := t\<rparr>"

lemma other_tenant_sel [simp]:
  "co_tenant (other_tenant opts t) = t" "co_alias (other_tenant opts t) = co_alias opts"
  "co_suppression (other_tenant opts t) = co_suppression opts"
  "co_derive_limit (other_tenant opts t) = co_derive_limit opts"
  by (simp_all add: other_tenant_def)

lemma render_exclude:
  "map (render \<circ> cond_frags (co_alias opts)) (exclude_conds (other_tenant opts t) key c') =
   map (render \<circ> cond_frags (co_alias opts)) (exclude_conds opts key c)"
  by (simp add: exclude_conds_def key_test_def split: option.split)

lemma render_shape_op:
  "render (cond_frags (co_alias opts) (op_cond (other_tenant opts t) (shape q) (shape_op x))) =
   render (cond_frags (co_alias opts) (op_cond opts q x))"
proof (cases x)
  case (Filter p)
  then show ?thesis by (simp add: render_shape_pred)
next
  case (Lapsed ev uk ts wd p)
  then show ?thesis by (simp add: render_shape_window [where t = "co_tenant opts"])
next
  case (Exclude c)
  note r = render_exclude [of opts t "q_key q" "[]" c]
  then have "exclude_conds (other_tenant opts t) (q_key q) [] = [] \<longleftrightarrow> exclude_conds opts (q_key q) c = []"
    by (metis Nil_is_map_conv)
  with r Exclude show ?thesis by (simp add: Let_def)
next
  case (Feature n c v)
  then show ?thesis
    by (cases "q_as_of q") (simp_all add: feature_rows_def key_test_def split: option.split)
qed (simp_all add: render_shape_window [where t = "co_tenant opts"])

lemma render_shape_base:
  "render (conds_frags (co_alias opts) (base_conds (other_tenant opts t) (shape q))) =
   render (conds_frags (co_alias opts) (base_conds opts q))"
proof -
  have "map (render \<circ> cond_frags (co_alias opts)) (base_conds (other_tenant opts t) (shape q)) =
      map (render \<circ> cond_frags (co_alias opts)) (base_conds opts q)"
    by (simp add: base_conds_def filter_map comp_def render_shape_op)
  then show ?thesis by (simp add: conds_frags_def)
qed

lemma last_op_shape: "last_op (q_ops (shape q)) = map_option shape_op (last_op (q_ops q))"
  by (simp add: last_op_def last_map)

lemma render_shape_plan:
  "render (plan_frags (co_alias opts) (plan_of (other_tenant opts t) (shape q))) =
   render (plan_frags (co_alias opts) (plan_of opts q))"
proof (induction opts q rule: plan_of.induct)
  case (1 opts q)
  have join: "render (conds_frags (co_alias opts) (join_conds (other_tenant opts t))) =
      render (conds_frags (co_alias opts) (join_conds opts))"
    by (simp add: join_conds_def conds_frags_def)
  note unfold = plan_of.simps [of opts q] plan_of.simps [of "other_tenant opts t" "shape q"]
    last_op_shape render_shape_base
  show ?case
  proof (cases "last_op (q_ops q)")
    case None
    then show ?thesis unfolding unfold by (simp add: render_shape_base)
  next
    case (Some x)
    show ?thesis
    proof (cases x)
      case (SetOp k other)
      from "1.IH" [OF Some SetOp] show ?thesis
        unfolding unfold Some SetOp by (simp add: render_shape_base)
    qed (simp_all only: unfold Some, simp_all add: render_shape_base join)
  qed
qed

subsection \<open>The tables of a plan\<close>

fun cond_tables :: "cond \<Rightarrow> table list" where
  "cond_tables (Tenant_is rel t) = []"
| "cond_tables (Test fs) = []"
| "cond_tables (Conj cs) = concat (map cond_tables cs)"
| "cond_tables (Rows present tb rel cs rest) = tb # concat (map cond_tables cs)"

fun plan_tables :: "plan \<Rightarrow> table list" where
  "plan_tables (Select src key cs) = Raw_table src # concat (map cond_tables cs)"
| "plan_tables (Combine k p p') = plan_tables p @ plan_tables p'"
| "plan_tables (Derived n m src key cs limit js) =
     Raw_table src # concat (map cond_tables cs) @ [Raw_table (metric_event m)] @ concat (map cond_tables js)"

definition raw_tables :: "table list \<Rightarrow> dataset set" where
  "raw_tables tbs = {d. Raw_table d \<in> set tbs}"

lemma raw_tables_simps [simp]:
  "raw_tables [] = {}" "raw_tables (Raw_table d # tbs) = insert d (raw_tables tbs)"
  "raw_tables (tbs @ tbs') = raw_tables tbs \<union> raw_tables tbs'"
  by (auto simp: raw_tables_def)

lemma raw_tables_op: "narrowing x \<Longrightarrow> raw_tables (cond_tables (op_cond opts q x)) = set (op_sources x)"
proof (cases x)
  case (Recency ev uk ts wd p)
  then show ?thesis by (cases p) (auto simp: window_rows_def key_test_def raw_tables_def)
next
  case (Lapsed ev uk ts wd p)
  then show ?thesis by (cases p) (auto simp: window_rows_def key_test_def raw_tables_def)
qed (auto simp: raw_tables_def feature_rows_def exclude_conds_def key_test_def Let_def split: option.splits)

lemma raw_tables_concat: "raw_tables (concat tbss) = (\<Union>tbs \<in> set tbss. raw_tables tbs)"
  by (auto simp: raw_tables_def)

lemma raw_tables_base:
  "raw_tables (concat (map cond_tables (base_conds opts q))) =
     (\<Union>x \<in> set (filter narrowing (q_ops q)). set (op_sources x))"
  by (auto simp: raw_tables_concat base_conds_def raw_tables_op)

lemma op_sources_other: "\<not> narrowing x \<Longrightarrow> \<not> is_profile x \<Longrightarrow> op_sources x = []"
  by (cases x) simp_all

lemma plan_tables_sources:
  "wf_segment rfc q \<Longrightarrow> raw_tables (plan_tables (plan_of opts q)) = set (segment_sources q)"
proof (induction opts q rule: plan_of.induct)
  case (1 opts q)
  from wf_segment_level [OF "1.prems"] have "wf_positions (q_ops q)" by simp
  then show ?case
  proof (cases rule: wf_positions_cases)
    case narrow
    then show ?thesis
      using last_op_narrowing [OF narrow]
      by (auto simp: plan_of.simps [of opts q] segment_sources.simps [of q] raw_tables_base split: op.splits)
  next
    case (setop pre k other)
    have "wf_segment rfc other"
      using "1.prems" setop(1) wf_segment_setop by fastforce
    moreover have last: "last_op (q_ops q) = Some (SetOp k other)"
      unfolding setop(1) by (rule last_op_simps)
    ultimately have "raw_tables (plan_tables (plan_of opts other)) = set (segment_sources other)"
      using "1.IH" by blast
    then show ?thesis
      unfolding plan_of.simps [of opts q] segment_sources.simps [of q] last
      using setop by (auto simp: raw_tables_base)
  next
    case (profile pre x)
    have last: "last_op (q_ops q) = Some x"
      unfolding profile(1) by (rule last_op_simps)
    show ?thesis
      unfolding plan_of.simps [of opts q] segment_sources.simps [of q] last
      using profile by (cases x) (auto simp: raw_tables_base join_conds_def)
  qed
qed

subsection \<open>The properties\<close>

text \<open>Concrete segments for the witnesses; the one used most has a question mark in a value.\<close>

definition sample_with :: "string \<Rightarrow> nat \<Rightarrow> string \<Rightarrow> segment_query" where
  "sample_with v n campaign =
     SegmentQuery \<lparr>ds_system = ''erp'', ds_entity = ''orders''\<rparr> ''user_id''
       [Filter (Predicate ''sku'' In (JArray [JString v, JNumber (PosInt n)])),
        Lapsed \<lparr>ds_system = ''erp'', ds_entity = ''refunds''\<rparr> ''user_id'' ''ts'' 30
          (Some (Predicate ''sku'' Eq (JString v))),
        Exclude campaign,
        SetOp Minus (SegmentQuery \<lparr>ds_system = ''crm'', ds_entity = ''users''\<rparr> ''user_id''
          [Feature ''rfm.recency'' Ge n] (Some ''2024-01-01T00:00:00Z''))]
       None"

abbreviation sample_segment :: segment_query where
  "sample_segment \<equiv> sample_with ''A?'' 7 ''spring''"

definition sample_options :: compile_options where
  "sample_options =
     \<lparr>co_alias = READ_ONLY_CATALOG_ALIAS, co_suppression = suppression_rules_default,
      co_derive_limit = None, co_tenant = ''acme''\<rparr>"

lemma sample_feature: "split_feature_name ''rfm.recency'' = Inr (''rfm'', ''recency'')"
  by (simp add: split_feature_name_def validate_ident_def IDENT_RE_def ident_char_def in_range_def less_eq_char_def)

lemma sample_with_wf:
  "length v \<le> MAX_PRED_VALUE_BYTES \<Longrightarrow> IDENT_RE campaign \<Longrightarrow> wf_segment (\<lambda>_. True) (sample_with v n campaign)"
  by (simp add: sample_with_def wf_segment_def wf_level_def wf_dataset_def wf_predicate_def wf_window_def
      wf_positions_def MAX_OPS_def MAX_IN_VALUES_def MAX_WITHIN_DAYS_def sample_feature)
    (simp add: IDENT_RE_def ident_char_def in_range_def less_eq_char_def)

lemma sample_wf: "wf_segment (\<lambda>_. True) sample_segment"
  by (rule sample_with_wf)
    (simp_all add: MAX_PRED_VALUE_BYTES_def IDENT_RE_def ident_char_def in_range_def less_eq_char_def)

lemma sample_compilable: "co_derive_limit opts = None \<Longrightarrow> compilable opts 0 (sample_with v n campaign)"
  by (simp add: sample_with_def compilable_def bindable_def MAX_NESTING_def)

lemma sample_compiles:
  "compile_with_opts sample_segment sample_options = Inr (rendered sample_options sample_segment)"
  using compile_at_refines [OF sample_wf] sample_compilable [of sample_options]
  by (simp add: compile_with_opts_def sample_options_def)

text \<open>Rows of two strings, the first the tenant; tests accept, a group is satisfied by any row.\<close>

definition sample_sem :: "(string \<times> string, string) sql_sem" where
  "sample_sem =
     \<lparr>sem_tenant = fst, sem_test = (\<lambda>fs env. True), sem_group = (\<lambda>fs env rows. rows \<noteq> []),
      sem_key = (\<lambda>key row. snd row), sem_survivor = (\<lambda>k. ([], k)), sem_metric = (\<lambda>n m rows. map fst rows)\<rparr>"

lemma sample_alias [simp]: "qmarks (co_alias sample_options) = 0"
  by (simp add: sample_options_def READ_ONLY_CATALOG_ALIAS_def)

text \<open>C1: The SQL text and the parameter vector of a validated segment fit together: binding the
  parameters to the placeholders by position gives exactly the segment's plan, with every tenant
  id, predicate value, campaign id and feature value where the plan has it.\<close>

theorem compile_binds_in_place:
  assumes "wf_segment rfc3339 q" and "qmarks (co_alias opts) = 0"
    and "compile_with_opts q opts = Inr cq"
  shows "bind_positional (cq_sql cq) (cq_params cq) =
    Some (expand (plan_frags (co_alias opts) (plan_of opts q)))"
  using assms compile_at_refines [OF assms(1)] bind_positional_render [OF qm_free_plan [OF assms(1,2)]]
  by (simp add: compile_with_opts_def rendered_def)

theorem compile_binds_in_place_witness:
  "bind_positional (cq_sql (rendered sample_options sample_segment)) (cq_params (rendered sample_options sample_segment)) =
    Some (expand (plan_frags ''dro'' (plan_of sample_options sample_segment)))"
  using compile_binds_in_place [OF sample_wf sample_alias sample_compiles]
  by (simp add: sample_options_def READ_ONLY_CATALOG_ALIAS_def)



text \<open>C3: No value reaches the SQL text: two validated segments with the same shape (equal up to
  predicate values, feature values, cut-offs, campaign ids and metric names) compile to the same
  text, for whatever tenants.\<close>

theorem compile_text_value_free:
  assumes "wf_segment rfc3339 q" "compile_with_opts q opts = Inr cq"
    and "wf_segment rfc3339 q'" "compile_with_opts q' (other_tenant opts t) = Inr cq'"
    and "shape q = shape q'"
  shows "cq_sql cq = cq_sql cq'"
proof -
  have "render (plan_frags (co_alias opts) (plan_of opts q)) =
      render (plan_frags (co_alias opts) (plan_of (other_tenant opts t) q'))"
    using render_shape_plan [of opts t q] render_shape_plan [of "other_tenant opts t" t q'] assms(5)
    by (simp add: other_tenant_def)
  then show ?thesis
    using assms(2,4) compile_at_refines [OF assms(1)] compile_at_refines [OF assms(3)]
    by (simp add: compile_with_opts_def rendered_def)
qed

theorem compile_text_value_free_witness:
  "cq_sql (rendered sample_options sample_segment) =
   cq_sql (rendered (other_tenant sample_options ''globex'') (sample_with ''B'' 9 ''summer''))"
proof -
  have wf: "wf_segment (\<lambda>_. True) (sample_with ''B'' 9 ''summer'')"
    by (rule sample_with_wf)
      (simp_all add: MAX_PRED_VALUE_BYTES_def IDENT_RE_def ident_char_def in_range_def less_eq_char_def)
  have ok: "compile_with_opts (sample_with ''B'' 9 ''summer'') (other_tenant sample_options ''globex'') =
      Inr (rendered (other_tenant sample_options ''globex'') (sample_with ''B'' 9 ''summer''))"
    using compile_at_refines [OF wf] sample_compilable [of "other_tenant sample_options ''globex''"]
    by (simp add: compile_with_opts_def sample_options_def)
  have "shape sample_segment = shape (sample_with ''B'' 9 ''summer'')"
    by (simp add: sample_with_def shape_pred_def)
  from compile_text_value_free [OF sample_wf sample_compiles wf ok this] show ?thesis .
qed

text \<open>C4: A validated segment compiles exactly when it nests at most eight levels, every
  predicate value is a bindable scalar or a list of them, a \<open>Derive\<close> has its survivor limit and
  no level is a \<open>Characterize\<close>.\<close>

theorem compile_ok_iff:
  assumes "wf_segment rfc3339 q"
  shows "is_ok (compile_with_opts q opts) \<longleftrightarrow> compilable opts 0 q"
  using compile_at_refines [OF assms] by (auto simp: compile_with_opts_def is_ok_iff)

theorem compile_ok_iff_witness:
  "is_ok (compile_with_opts sample_segment sample_options) \<and> compilable sample_options 0 sample_segment"
  using compile_ok_iff [OF sample_wf, of sample_options] sample_compiles by simp

text \<open>The sources a compiled query reports, from which its freshness is graded, are exactly
  the raw tables its plan scans.\<close>

theorem compile_sources_complete:
  assumes "wf_segment rfc3339 q" and "compile_with_opts q opts = Inr cq"
  shows "set (cq_sources cq) = raw_tables (plan_tables (plan_of opts q))"
  using assms plan_tables_sources compile_at_refines [OF assms(1)]
  by (fastforce simp: compile_with_opts_def rendered_def)

theorem compile_sources_complete_witness:
  "set (cq_sources (rendered sample_options sample_segment)) =
     raw_tables (plan_tables (plan_of sample_options sample_segment))"
  by (rule compile_sources_complete [OF sample_wf sample_compiles])

text \<open>The table of a dataset joins system and entity with an underscore, which both may
  contain: two datasets the validator accepts, and the freshness registry tells apart, read the
  same raw table.\<close>

theorem raw_table_collision:
  "\<exists>d d'. wf_dataset d \<and> wf_dataset d' \<and> d \<noteq> d' \<and> raw_table d alias = raw_table d' alias"
proof (intro exI conjI)
  let ?d = "\<lparr>ds_system = ''crm_eu'', ds_entity = ''users''\<rparr>" and ?d' = "\<lparr>ds_system = ''crm'', ds_entity = ''eu_users''\<rparr>"
  show "wf_dataset ?d" "wf_dataset ?d'"
    by (simp_all add: wf_dataset_def IDENT_RE_def ident_char_def in_range_def less_eq_char_def)
  show "?d \<noteq> ?d'" by simp
  show "raw_table ?d alias = raw_table ?d' alias" by (simp add: raw_table_def)
qed

end
