(* ===== verification/Query_Guards.thy ===== *)
theory Query_Guards
  imports Query_Engine Query_Safety
begin

text \<open>
  Properties of the engine. The contracts \<open>ensures P m Q\<close> of \<open>Effects\<close> say which requests an
  operation may send; with them: every statement of the read path is a catalogue probe or the rendering of a
  plan scoped to the caller (\<open>run_sync_reads_scoped\<close>), an over-budget query is refused before it
  runs, a derive runs under a measured survivor count, a successful enforcement found every
  column and feature, and what the writer is asked to materialise binds in place.
\<close>

subsection \<open>Statements and their contracts\<close>

lemma ensures_read: "P (Read_request sql params) \<Longrightarrow> ensures P (read_request env sql params) (\<lambda>_. True)"
  by (simp add: ensures_def read_request_def Let_def)

lemma ensures_timed_read:
  "P (Read_request sql params) \<Longrightarrow> ensures P (timed_read env eng sql params) (\<lambda>_. True)"
  unfolding timed_read_def
  by (rule ensures_ebind [OF ensures_read]) (auto split: read_outcome.split intro: ensures_eret ensures_efail)

lemma ensures_explain:
  "P (Read_request (''EXPLAIN (FORMAT JSON) '' @ cq_sql c) (cq_params c)) \<Longrightarrow> ensures P (explain_cost env c) (\<lambda>_. True)"
  unfolding explain_cost_def
  by (rule ensures_ebind [OF ensures_read]) (auto split: read_outcome.split option.split intro: ensures_eret)

subsection \<open>The statements of the read path\<close>

text \<open>A probe of the catalogue or of the feature registry.\<close>

definition catalogue_read :: "string \<Rightarrow> request \<Rightarrow> bool" where
  "catalogue_read t r \<longleftrightarrow>
     (\<exists>sys ent. r = Read_request catalogue_sql [VText sys, VText ent]) \<or>
     (\<exists>sys ent. r = Read_request catalogue_epoch_sql [VText sys, VText ent, VText t]) \<or>
     (\<exists>name. r = Read_request feature_probe_sql [VText name, VText t])"

text \<open>A plan scoped to the tenant, run, counted or explained.\<close>

definition plan_read :: "string \<Rightarrow> request \<Rightarrow> bool" where
  "plan_read t r \<longleftrightarrow>
     (\<exists>p. plan_scoped t p \<and>
        (let sql = render (plan_frags READ_ONLY_CATALOG_ALIAS p); params = binds (plan_frags READ_ONLY_CATALOG_ALIAS p)
         in r \<in> {Read_request sql params, Read_request (''EXPLAIN (FORMAT JSON) '' @ sql) params,
                 Read_request (''SELECT count('' @ ''*) FROM ('' @ sql @ '') sub'') params}))"

text \<open>A profile query: the scoped segment as a CTE, then the event scan restricted to the tenant.\<close>

definition profile_read :: "string \<Rightarrow> request \<Rightarrow> bool" where
  "profile_read t r \<longleftrightarrow>
     (\<exists>p before after. plan_scoped t p \<and>
        r = Read_request (''WITH segment AS ('' @ render (plan_frags READ_ONLY_CATALOG_ALIAS p) @ before @
              '' e LEFT JOIN segment s ON s.user_id = e.user_id WHERE e.tenant_id = ?'' @ after)
            (binds (plan_frags READ_ONLY_CATALOG_ALIAS p) @ [VText t]))"

definition scoped_request :: "string \<Rightarrow> request \<Rightarrow> bool" where
  "scoped_request t r \<longleftrightarrow> catalogue_read t r \<or> plan_read t r \<or> profile_read t r"

lemma ensures_check_table: "ensures (scoped_request t) (check_table env eng t x) (\<lambda>_. True)"
  unfolding check_table_def Let_def
  by (cases x; cases "fst x")
    (auto split: option.split if_split simp: scoped_request_def catalogue_read_def
      intro!: ensures_seq ensures_timed_read ensures_eeach ensures_ehist ensures_eret ensures_efail)

lemma ensures_check_feature: "ensures (scoped_request t) (check_feature env eng t n) (\<lambda>_. True)"
  unfolding check_feature_def
  by (auto simp: scoped_request_def catalogue_read_def
      intro!: ensures_seq ensures_timed_read ensures_eret ensures_efail)

lemma ensures_enforce: "ensures (scoped_request t) (enforce_catalogue env eng q t) (\<lambda>_. True)"
  unfolding enforce_catalogue_def
  by (auto intro!: ensures_seq ensures_eeach ensures_check_table ensures_check_feature ensures_eret)

text \<open>Removing the terminal op of a validated segment leaves a validated segment.\<close>

lemma wf_narrowed:
  assumes wf: "wf_segment rfc q" and ops: "q_ops q = pre @ [x]" "list_all narrowing pre"
  shows "wf_segment rfc (SegmentQuery (q_source q) (q_key q) pre (q_as_of q))"
proof -
  have "wf_positions pre"
    using ops by (cases pre rule: rev_cases) (auto simp: wf_positions_def)
  with assms show ?thesis
    by (cases q) (simp add: wf_segment_def wf_level_def)
qed

lemma derive_last:
  assumes wf: "wf_segment rfc q" and d: "has_derive q"
  obtains pre n m where "q_ops q = pre @ [Derive n m]" "list_all narrowing pre"
proof -
  have no: "list_all narrowing xs \<Longrightarrow> \<not> list_ex is_derive xs" for xs
    by (induction xs) (auto elim!: is_derive.elims)
  from wf_segment_level [OF wf] have "wf_positions (q_ops q)" by simp
  then show ?thesis
  proof (cases rule: wf_positions_cases)
    case narrow
    with no d show ?thesis by (simp add: has_derive_def)
  next
    case (setop pre k other)
    with no [of pre] d show ?thesis by (simp add: has_derive_def)
  next
    case (profile pre x)
    with no [of pre] d have "is_derive x" by (simp add: has_derive_def)
    with profile that show ?thesis by (cases x) auto
  qed
qed

lemma strip_derive_wf:
  assumes "wf_segment rfc q" "has_derive q"
  shows "wf_segment rfc (strip_derive q)"
proof -
  obtain pre n m where ops: "q_ops q = pre @ [Derive n m]" "list_all narrowing pre"
    using derive_last [OF assms] .
  have "filter (\<lambda>x. \<not> is_derive x) pre = pre"
    using ops(2) by (induction pre) (auto elim!: is_derive.elims)
  then have "strip_derive q = SegmentQuery (q_source q) (q_key q) pre (q_as_of q)"
    by (simp add: strip_derive_def ops)
  with wf_narrowed [OF assms(1) ops] show ?thesis by simp
qed

text \<open>What a read-alias compile returns is a scoped plan's rendering.\<close>

definition scoped_query :: "string \<Rightarrow> compiled_query \<Rightarrow> bool" where
  "scoped_query t c \<longleftrightarrow> (\<exists>p. plan_scoped t p \<and>
     cq_sql c = render (plan_frags READ_ONLY_CATALOG_ALIAS p) \<and>
     cq_params c = binds (plan_frags READ_ONLY_CATALOG_ALIAS p))"

lemma compile_scoped_query:
  assumes "wf_segment rfc q" "compile_with_opts q (read_options eng t limit) = Inr c"
  shows "scoped_query t c"
proof -
  have "c = rendered (read_options eng t limit) q"
    using assms compile_at_refines [OF assms(1)] by (simp add: compile_with_opts_def)
  then show ?thesis
    using plan_of_scoped [of "read_options eng t limit" q]
    by (auto simp: scoped_query_def rendered_def read_options_def)
qed

lemma scoped_query_requests:
  assumes "scoped_query t c"
  shows "scoped_request t (Read_request (cq_sql c) (cq_params c))"
    and "scoped_request t (Read_request (''EXPLAIN (FORMAT JSON) '' @ cq_sql c) (cq_params c))"
    and "scoped_request t (Read_request (''SELECT count('' @ ''*) FROM ('' @ cq_sql c @ '') sub'') (cq_params c))"
  using assms unfolding scoped_query_def scoped_request_def plan_read_def Let_def by auto

lemma ensures_survivor_limit:
  assumes "wf_segment rfc q" "has_derive q"
  shows "ensures (scoped_request t) (derive_survivor_limit env eng q t) (\<lambda>n. n \<le> gc_j_survivor_cap (eg_guardrails eng))"
  unfolding derive_survivor_limit_def Let_def
proof (rule ensures_ebind [where Q = "scoped_query t"])
  show "ensures (scoped_request t) (elift (compile_with_opts (strip_derive q) (read_options eng t None))) (scoped_query t)"
    using compile_scoped_query [OF strip_derive_wf [OF assms]] by (intro ensures_elift) blast
qed (auto intro!: ensures_seq ensures_timed_read ensures_efail ensures_eret
    simp: scoped_query_requests(3) [simplified] split: if_split)

lemma ensures_compile_and_check:
  assumes "wf_segment rfc q"
  shows "ensures (scoped_request t) (compile_and_check env eng q t) (scoped_query t)"
proof -
  have "ensures (scoped_request t) (elift (compile_with_opts q (read_options eng t limit))) (scoped_query t)" for limit
    using compile_scoped_query [OF assms] by (intro ensures_elift) blast
  moreover have "has_derive q \<Longrightarrow> ensures (scoped_request t) (derive_survivor_limit env eng q t) (\<lambda>_. True)"
    by (rule ensures_weaken [OF ensures_survivor_limit [OF assms]]) simp_all
  ultimately show ?thesis
    unfolding compile_and_check_def by (auto intro!: ensures_seq [OF ensures_enforce] ensures_seq)
qed

lemma ensures_prepare:
  assumes "wf_segment rfc q"
  shows "ensures (scoped_request t) (prepare env eng q t) (\<lambda>(plan, c). scoped_query t c \<and>
    est_rows (pl_est plan) \<le> gc_max_output_rows (eg_guardrails eng) \<and>
    (pl_mode plan = Sync \<longrightarrow> est_rows (pl_est plan) \<le> gc_sync_row_cap (eg_guardrails eng)))"
  unfolding prepare_def
proof (rule ensures_ebind [OF ensures_compile_and_check [OF assms]])
  fix c
  assume c: "scoped_query t c"
  show "ensures (scoped_request t) (ebind (explain_cost env c) (\<lambda>est.
      ebind (elift (enforce est (eg_guardrails eng))) (\<lambda>_.
      let md = if est_rows est > gc_sync_row_cap (eg_guardrails eng) then Async else Sync
      in eret (\<lparr>pl_mode = md, pl_est = est, pl_sources = cq_sources c\<rparr>, c))))
    (\<lambda>(plan, c). scoped_query t c \<and> est_rows (pl_est plan) \<le> gc_max_output_rows (eg_guardrails eng) \<and>
      (pl_mode plan = Sync \<longrightarrow> est_rows (pl_est plan) \<le> gc_sync_row_cap (eg_guardrails eng)))"
  proof (rule ensures_seq [OF ensures_explain [of "scoped_request t", OF scoped_query_requests(2) [OF c]]])
    fix est
    show "ensures (scoped_request t) (ebind (elift (enforce est (eg_guardrails eng))) (\<lambda>_.
        let md = if est_rows est > gc_sync_row_cap (eg_guardrails eng) then Async else Sync
        in eret (\<lparr>pl_mode = md, pl_est = est, pl_sources = cq_sources c\<rparr>, c)))
      (\<lambda>(plan, c). scoped_query t c \<and> est_rows (pl_est plan) \<le> gc_max_output_rows (eg_guardrails eng) \<and>
        (pl_mode plan = Sync \<longrightarrow> est_rows (pl_est plan) \<le> gc_sync_row_cap (eg_guardrails eng)))"
      by (rule ensures_ebind [OF ensures_elift [where Q = "\<lambda>_. est_rows est \<le> gc_max_output_rows (eg_guardrails eng)"]])
        (auto simp: enforce_def guard_def Let_def c split: if_splits intro!: ensures_eret)
  qed
qed

subsection \<open>Profiles\<close>

lemma compile_characterize_InrE:
  assumes "compile_characterize q opts = Inr ch"
  obtains ev ts mon cat seg where
    "q_ops q = butlast (q_ops q) @ [Characterize ev ts mon cat]"
    "compile_with_opts (SegmentQuery (q_source q) (q_key q) (butlast (q_ops q)) (q_as_of q)) opts = Inr seg"
    "ch_metrics ch = \<lparr>cq_sql = metrics_sql (''WITH segment AS ('' @ cq_sql seg @ '')'') (raw_table ev (co_alias opts)) ''e.tenant_id = ?'' mon,
       cq_params = cq_params seg @ [VText (co_tenant opts)], cq_sources = cq_sources seg @ [ev]\<rparr>"
    "ch_recency ch = \<lparr>cq_sql = recency_sql (''WITH segment AS ('' @ cq_sql seg @ '')'') (raw_table ev (co_alias opts)) ''e.tenant_id = ?'' ts,
       cq_params = cq_params seg @ [VText (co_tenant opts)], cq_sources = cq_sources seg @ [ev]\<rparr>"
    "ch_categories ch = \<lparr>cq_sql = categories_sql (''WITH segment AS ('' @ cq_sql seg @ '')'') (raw_table ev (co_alias opts)) ''e.tenant_id = ?'' cat,
       cq_params = cq_params seg @ [VText (co_tenant opts)], cq_sources = cq_sources seg @ [ev]\<rparr>"
proof -
  obtain x where x: "last_op (q_ops q) = Some x" and c: "is_characterize x"
    using assms by (auto simp: compile_characterize_def split: option.splits op.splits)
  then obtain ev ts mon cat where "x = Characterize ev ts mon cat" by (cases x) auto
  moreover have "q_ops q = butlast (q_ops q) @ [x]"
    using x by (auto simp: last_op_def split: if_splits)
  moreover have "strip_last_op q = SegmentQuery (q_source q) (q_key q) (butlast (q_ops q)) (q_as_of q)"
    by (simp add: strip_last_op_def butlast_conv_take)
  ultimately show ?thesis
    using assms x that
    by (auto simp: compile_characterize_def rbind_Inr_iff tenant_eq_def Let_def)
qed

lemma profile_sql_shape:
  "\<exists>before after. metrics_sql (w @ seg @ '')'') tbl ten col =
     w @ seg @ before @ '' e LEFT JOIN segment s ON s.user_id = e.user_id WHERE '' @ ten @ after"
  "\<exists>before after. recency_sql (w @ seg @ '')'') tbl ten col =
     w @ seg @ before @ '' e LEFT JOIN segment s ON s.user_id = e.user_id WHERE '' @ ten @ after"
  "\<exists>before after. categories_sql (w @ seg @ '')'') tbl ten col =
     w @ seg @ before @ '' e LEFT JOIN segment s ON s.user_id = e.user_id WHERE '' @ ten @ after"
proof -
  show "\<exists>before after. metrics_sql (w @ seg @ '')'') tbl ten col =
     w @ seg @ before @ '' e LEFT JOIN segment s ON s.user_id = e.user_id WHERE '' @ ten @ after"
    by (rule exI [of _ "''), ev AS (SELECT e.user_id, CAST(e.'' @ col @
          '' AS DOUBLE) AS amount, (s.user_id IS NOT NULL) AS in_seg FROM '' @ tbl"],
        rule exI [of _ metrics_tail]) (simp add: metrics_sql_def)
  show "\<exists>before after. recency_sql (w @ seg @ '')'') tbl ten col =
     w @ seg @ before @ '' e LEFT JOIN segment s ON s.user_id = e.user_id WHERE '' @ ten @ after"
    by (rule exI [of _ "''), ev AS (SELECT e.user_id, CAST(e.'' @ col @
          '' AS TIMESTAMP) AS ts, (s.user_id IS NOT NULL) AS in_seg FROM '' @ tbl"],
        rule exI [of _ recency_tail]) (simp add: recency_sql_def)
  show "\<exists>before after. categories_sql (w @ seg @ '')'') tbl ten col =
     w @ seg @ before @ '' e LEFT JOIN segment s ON s.user_id = e.user_id WHERE '' @ ten @ after"
    by (rule exI [of _ "''), ev AS (SELECT e.user_id, e.'' @ col @
          '' AS category, (s.user_id IS NOT NULL) AS in_seg FROM '' @ tbl"],
        rule exI [of _ categories_tail]) (simp add: categories_sql_def)
qed

definition scoped_profile :: "string \<Rightarrow> compiled_query \<Rightarrow> bool" where
  "scoped_profile t c \<longleftrightarrow> profile_read t (Read_request (cq_sql c) (cq_params c))"

lemma scoped_profileI:
  assumes "scoped_query t seg"
    and "\<exists>before after. cq_sql c = ''WITH segment AS ('' @ cq_sql seg @ before @
      '' e LEFT JOIN segment s ON s.user_id = e.user_id WHERE '' @ ''e.tenant_id = ?'' @ after"
    and "cq_params c = cq_params seg @ [VText t]"
  shows "scoped_profile t c"
  using assms unfolding scoped_profile_def profile_read_def scoped_query_def by fastforce

lemma compile_characterize_scoped:
  assumes wf: "wf_segment rfc q" and ch: "compile_characterize q (read_options eng t None) = Inr ch"
  shows "scoped_profile t (ch_metrics ch) \<and> scoped_profile t (ch_recency ch) \<and> scoped_profile t (ch_categories ch)"
  using ch
proof (rule compile_characterize_InrE)
  fix ev ts mon cat seg
  let ?opts = "read_options eng t None"
  assume ops: "q_ops q = butlast (q_ops q) @ [Characterize ev ts mon cat]"
    and seg: "compile_with_opts (SegmentQuery (q_source q) (q_key q) (butlast (q_ops q)) (q_as_of q)) ?opts = Inr seg"
    and q: "ch_metrics ch = \<lparr>cq_sql = metrics_sql (''WITH segment AS ('' @ cq_sql seg @ '')'') (raw_table ev (co_alias ?opts)) ''e.tenant_id = ?'' mon,
        cq_params = cq_params seg @ [VText (co_tenant ?opts)], cq_sources = cq_sources seg @ [ev]\<rparr>"
      "ch_recency ch = \<lparr>cq_sql = recency_sql (''WITH segment AS ('' @ cq_sql seg @ '')'') (raw_table ev (co_alias ?opts)) ''e.tenant_id = ?'' ts,
        cq_params = cq_params seg @ [VText (co_tenant ?opts)], cq_sources = cq_sources seg @ [ev]\<rparr>"
      "ch_categories ch = \<lparr>cq_sql = categories_sql (''WITH segment AS ('' @ cq_sql seg @ '')'') (raw_table ev (co_alias ?opts)) ''e.tenant_id = ?'' cat,
        cq_params = cq_params seg @ [VText (co_tenant ?opts)], cq_sources = cq_sources seg @ [ev]\<rparr>"
  have "list_all narrowing (butlast (q_ops q))"
    using wf_segment_level [OF wf] by (subst (asm) (2) ops) (simp add: wf_positions_def)
  from compile_scoped_query [OF wf_narrowed [OF wf ops this] seg] have "scoped_query t seg" .
  moreover have "co_tenant ?opts = t" by (simp add: read_options_def)
  ultimately show ?thesis
    unfolding q by (intro conjI scoped_profileI) (simp_all only: compiled_query.simps profile_sql_shape)
qed

lemma ensures_run_characterize:
  assumes "wf_segment rfc q"
  shows "ensures (scoped_request t) (run_characterize env eng q t) (\<lambda>_. True)"
  unfolding run_characterize_def
proof (rule ensures_seq [OF ensures_enforce], rule ensures_ebind)
  show "ensures (scoped_request t) (elift (compile_characterize q (read_options eng t None)))
     (\<lambda>ch. scoped_profile t (ch_metrics ch) \<and> scoped_profile t (ch_recency ch) \<and> scoped_profile t (ch_categories ch))"
    using compile_characterize_scoped [OF assms] by (intro ensures_elift) blast
qed (auto simp: scoped_profile_def scoped_request_def
    intro!: ensures_seq ensures_timed_read ensures_ehist ensures_eret)

lemma ensures_run_sync:
  assumes "wf_segment rfc q"
  shows "ensures (scoped_request t) (run_sync env eng q t) (\<lambda>r. \<not> has_characterize q \<longrightarrow>
    sy_count r = length (sy_rows r) \<and> sy_count r \<le> gc_max_output_rows (eg_guardrails eng))"
proof (cases "has_characterize q")
  case True
  then show ?thesis
    unfolding run_sync_def by (auto intro: ensures_weaken [OF ensures_run_characterize [OF assms]])
next
  case False
  have body: "ensures (scoped_request t)
      (if pl_mode plan = Async then efail TooLarge
       else ebind (timed_read env eng (cq_sql c) (cq_params c)) (\<lambda>qr.
         if length (qr_rows qr) > gc_max_output_rows (eg_guardrails eng) then efail (output_cap_error eng)
         else ebind ehist (\<lambda>log.
           eret \<lparr>sy_columns = qr_columns qr, sy_rows = qr_rows qr, sy_count = length (qr_rows qr),
                 sy_freshness = registry_worst (en_freshness env log) (cq_sources c) (en_now env log),
                 sy_query_id = fresh_query_id env log\<rparr>)))
      (\<lambda>r. sy_count r = length (sy_rows r) \<and> sy_count r \<le> gc_max_output_rows (eg_guardrails eng))"
    if "scoped_query t c" for plan c
    using scoped_query_requests(1) [OF that]
    by (auto intro!: ensures_seq ensures_timed_read ensures_ehist ensures_eret ensures_efail split: if_split)
  show ?thesis
    unfolding run_sync_def using False
    by (auto intro!: ensures_ebind [OF ensures_prepare [OF assms]] body)
qed

subsection \<open>A concrete engine for the witnesses\<close>

text \<open>An environment that answers every read with one row of a number and a plan text, a segment
  with a \<open>Derive\<close>, and two engines: the default guardrails with enforcement off, and the same
  with caps below the estimate of the sample plan.\<close>

definition sample_env :: env where
  "sample_env =
     \<lparr>en_read = (\<lambda>log. Read_rows \<lparr>qr_columns = [''c''], qr_rows = [[JNumber (PosInt 5), JString ''plan'']]\<rparr>),
      en_write = (\<lambda>log. Inr 1), en_now = (\<lambda>log. 1700000000), en_uuid = (\<lambda>log. ''u1''),
      en_freshness = (\<lambda>log. registry_new), en_from_str = (\<lambda>s. Some sample_explain),
      en_to_rfc3339 = (\<lambda>e. Some ''2023-11-14T22:13:20+00:00''), en_utc_now = (\<lambda>log. ''now''),
      en_ops_json = (\<lambda>ops. Inr ''[]'')\<rparr>"

definition sample_engine :: query_engine where
  "sample_engine =
     \<lparr>eg_guardrails = (guardrail_config_default None)\<lparr>gc_enforce_catalogue := False\<rparr>,
      eg_suppression = suppression_rules_default\<rparr>"

definition tight_engine :: query_engine where
  "tight_engine = sample_engine\<lparr>eg_guardrails := (eg_guardrails sample_engine)\<lparr>gc_sync_row_cap := 11\<rparr>\<rparr>"

definition strict_engine :: query_engine where
  "strict_engine = sample_engine\<lparr>eg_guardrails := (eg_guardrails sample_engine)\<lparr>gc_enforce_catalogue := True\<rparr>\<rparr>"

definition sample_derive :: segment_query where
  "sample_derive =
     SegmentQuery \<lparr>ds_system = ''erp'', ds_entity = ''orders''\<rparr> ''user_id''
       [Filter (Predicate ''sku'' Eq (JString ''A'')),
        Derive ''total'' (JSum \<lparr>ds_system = ''erp'', ds_entity = ''orders''\<rparr> ''amount'')] None"

lemma sample_read_options:
  "read_options sample_engine ''acme'' None = sample_options"
  "read_options tight_engine ''acme'' None = sample_options"
  by (simp_all add: read_options_def sample_engine_def tight_engine_def sample_options_def)

lemma sample_not_profile: "\<not> has_derive sample_segment" "\<not> has_characterize sample_segment"
  by (simp_all add: has_derive_def has_characterize_def sample_with_def)

lemma sample_engine_sel [simp]:
  "gc_max_output_rows (eg_guardrails sample_engine) = 1000000"
  "gc_sync_row_cap (eg_guardrails sample_engine) = 100000"
  "gc_j_survivor_cap (eg_guardrails sample_engine) = 200000"
  "\<not> gc_enforce_catalogue (eg_guardrails sample_engine)"
  "gc_max_output_rows (eg_guardrails tight_engine) = 1000000"
  "gc_sync_row_cap (eg_guardrails tight_engine) = 11"
  "\<not> gc_enforce_catalogue (eg_guardrails tight_engine)"
  "gc_enforce_catalogue (eg_guardrails strict_engine)"
  by (simp_all add: sample_engine_def tight_engine_def strict_engine_def guardrail_config_default_def)

definition sample_rows :: query_result where
  "sample_rows = \<lparr>qr_columns = [''c''], qr_rows = [[JNumber (PosInt 5), JString ''plan'']]\<rparr>"

lemma sample_env_sel [simp]:
  "en_read sample_env log = Read_rows sample_rows" "en_from_str sample_env = (\<lambda>s. Some sample_explain)"
  by (simp_all add: sample_env_def sample_rows_def)

lemma sample_rows_sel [simp]:
  "length (qr_rows sample_rows) = 1" "first_cell sample_rows = Some (JNumber (PosInt 5))"
  by (simp_all add: sample_rows_def first_cell_def first_opt_def)

lemma sample_max_cardinality [simp]: "max_cardinality (\<lambda>s. Some sample_explain) sample_rows = Some 12"
  by (simp add: max_cardinality_def walk_cardinality.simps sample_explain_def node_children_def
      node_cardinality_def parse_u64_def in_range_def less_eq_char_def sample_rows_def)

lemmas engine_steps = ebind_def elift_def eret_def efail_def ehist_def timed_read_def read_request_def Let_def

lemma sample_check:
  "compile_and_check sample_env sample_engine sample_segment ''acme'' [] =
     (Inr (rendered sample_options sample_segment), [])"
  "compile_and_check sample_env tight_engine sample_segment ''acme'' [] =
     (Inr (rendered sample_options sample_segment), [])"
  by (simp_all add: compile_and_check_def enforce_catalogue_def sample_not_profile sample_read_options
      sample_compiles engine_steps)

lemma sample_run_ok: "\<exists>r log'. run_sync sample_env sample_engine sample_segment ''acme'' [] = (Inr r, log')"
proof -
  have "explain_cost sample_env c log =
      (Inr \<lparr>est_rows = 12\<rparr>, log @ [Read_request (''EXPLAIN (FORMAT JSON) '' @ cq_sql c) (cq_params c)])" for c log
    by (simp add: explain_cost_def engine_steps)
  then show ?thesis
    by (simp add: run_sync_def prepare_def sample_not_profile sample_check engine_steps enforce_def)
qed

subsection \<open>The properties of the read path\<close>





text \<open>C9: When the pre-flight EXPLAIN estimates more rows than the output cap or the synchronous
  cap, the query is refused with the error of the cap it breaks and the EXPLAIN is the last
  statement sent: the query itself never runs.\<close>

theorem over_budget_never_runs:
  assumes "compile_and_check env eng q tenant log = (Inr c, log1)"
    and "\<not> has_characterize q"
    and explain: "log2 = log1 @ [Read_request (''EXPLAIN (FORMAT JSON) '' @ cq_sql c) (cq_params c)]"
    and "en_read env log2 = Read_rows qr" and "max_cardinality (en_from_str env) qr = Some n"
    and "n > gc_max_output_rows (eg_guardrails eng) \<or> n > gc_sync_row_cap (eg_guardrails eng)"
  shows "run_sync env eng q tenant log =
    (Inl (if n > gc_max_output_rows (eg_guardrails eng) then output_cap_error eng else TooLarge), log2)"
proof -
  have "explain_cost env c log1 = (Inr \<lparr>est_rows = n\<rparr>, log2)"
    using assms by (simp add: explain_cost_def ebind_def read_request_def Let_def eret_def)
  then show ?thesis
    using assms
    by (auto simp: run_sync_def prepare_def ebind_def elift_def eret_def efail_def enforce_def guard_def
        output_cap_error_def Let_def)
qed

theorem over_budget_never_runs_witness:
  "run_sync sample_env tight_engine sample_segment ''acme'' [] =
     (Inl TooLarge, [Read_request (''EXPLAIN (FORMAT JSON) '' @ cq_sql (rendered sample_options sample_segment))
        (cq_params (rendered sample_options sample_segment))])"
  using over_budget_never_runs [OF sample_check(2) sample_not_profile(2) refl, of _ 12]
  by simp

text \<open>C10: A \<open>Derive\<close> compiles only under a survivor limit that is the answer to a count over the
  compiled narrowing, sent for this very query, and that answer is within the survivor cap.\<close>

theorem derive_limit_measured:
  assumes "has_derive q" and "compile_and_check env eng q tenant log = (Inr c, log')"
  shows "\<exists>cn qr limit.
    compile_with_opts (strip_derive q) (read_options eng tenant None) = Inr cn \<and>
    last log' = Read_request (''SELECT count('' @ ''*) FROM ('' @ cq_sql cn @ '') sub'') (cq_params cn) \<and>
    en_read env log' = Read_rows qr \<and>
    limit = (case Option.bind (first_cell qr) as_u64 of Some n \<Rightarrow> n | None \<Rightarrow> 0) \<and>
    limit \<le> gc_j_survivor_cap (eg_guardrails eng) \<and>
    compile_with_opts q (read_options eng tenant (Some limit)) = Inr c"
  using assms
  by (auto simp: compile_and_check_def derive_survivor_limit_def timed_read_def read_request_def ebind_def
      elift_def eret_def efail_def Let_def split: prod.splits sum.splits read_outcome.splits if_splits)

lemma sample_derive_wf: "wf_segment (\<lambda>_. True) sample_derive"
  by (simp add: sample_derive_def wf_segment_def wf_level_def wf_dataset_def wf_predicate_def
      wf_positions_def MAX_OPS_def MAX_PRED_VALUE_BYTES_def)
    (simp add: IDENT_RE_def ident_char_def in_range_def less_eq_char_def)

lemma sample_derive_check:
  "\<exists>c log'. compile_and_check sample_env sample_engine sample_derive ''acme'' [] = (Inr c, log')"
proof -
  have "wf_segment (\<lambda>_. True) (strip_derive sample_derive)"
    by (rule strip_derive_wf [OF sample_derive_wf]) (simp add: has_derive_def sample_derive_def)
  moreover have "compilable (read_options sample_engine ''acme'' None) 0 (strip_derive sample_derive)"
    by (simp add: sample_derive_def strip_derive_def compilable_def bindable_def MAX_NESTING_def)
  ultimately obtain cn where cn: "compile_with_opts (strip_derive sample_derive) (read_options sample_engine ''acme'' None) = Inr cn"
    using compile_at_refines unfolding compile_with_opts_def by blast
  have "compilable (read_options sample_engine ''acme'' (Some 5)) 0 sample_derive"
    by (simp add: sample_derive_def read_options_def compilable_def bindable_def MAX_NESTING_def)
  then obtain c where c: "compile_with_opts sample_derive (read_options sample_engine ''acme'' (Some 5)) = Inr c"
    using compile_at_refines [OF sample_derive_wf] unfolding compile_with_opts_def by blast
  have "has_derive sample_derive" by (simp add: has_derive_def sample_derive_def)
  then show ?thesis
    by (simp add: compile_and_check_def enforce_catalogue_def derive_survivor_limit_def engine_steps cn c)
qed

theorem derive_limit_measured_witness:
  "\<exists>cn qr limit c log'.
    compile_with_opts (strip_derive sample_derive) (read_options sample_engine ''acme'' None) = Inr cn \<and>
    last log' = Read_request (''SELECT count('' @ ''*) FROM ('' @ cq_sql cn @ '') sub'') (cq_params cn) \<and>
    en_read sample_env log' = Read_rows qr \<and>
    limit = (case Option.bind (first_cell qr) as_u64 of Some n \<Rightarrow> n | None \<Rightarrow> 0) \<and>
    limit \<le> gc_j_survivor_cap (eg_guardrails sample_engine) \<and>
    compile_with_opts sample_derive (read_options sample_engine ''acme'' (Some limit)) = Inr c"
proof -
  have "has_derive sample_derive" by (simp add: has_derive_def sample_derive_def)
  moreover obtain c log' where "compile_and_check sample_env sample_engine sample_derive ''acme'' [] = (Inr c, log')"
    using sample_derive_check by blast
  ultimately show ?thesis using derive_limit_measured by blast
qed

subsection \<open>Enforcement\<close>

lemma eeach_ok:
  assumes "eeach f xs log = (Inr u, log')" "x \<in> set xs"
    and ext: "\<And>x. ensures (\<lambda>_. True) (f x) (\<lambda>_. True)"
  shows "\<exists>l1 l2 post. f x l1 = (Inr (), l2) \<and> log' = l2 @ post"
  using assms(1,2)
proof (induction xs arbitrary: log)
  case Nil
  then show ?case by simp
next
  case (Cons y ys)
  then obtain l where y: "f y log = (Inr (), l)" and ys: "eeach f ys l = (Inr u, log')"
    by (auto simp: ebind_def split: prod.splits sum.splits)
  show ?case
  proof (cases "x = y")
    case True
    from ensures_log [OF ensures_eeach [of ys, OF ext] ys] y True show ?thesis by blast
  next
    case False
    with Cons.prems Cons.IH [OF ys] show ?thesis by simp
  qed
qed

lemma columns_by_table_mem:
  assumes "r \<in> set (referenced_columns q)"
  obtains cols where "((rc_system r, rc_entity r), cols) \<in> set (columns_by_table q)" "rc_column r \<in> set cols"
proof -
  let ?ps = "map (\<lambda>r. ((rc_system r, rc_entity r), rc_column r)) (referenced_columns q)"
  let ?k = "(rc_system r, rc_entity r)"
  have "?k \<in> fst ` set ?ps" using assms by force
  then have "bt_get (bt_push_all ?ps) ?k = Some (map snd (filter (\<lambda>p. fst p = ?k) ?ps))"
    by (simp add: bt_get_push_all)
  then have "(?k, map snd (filter (\<lambda>p. fst p = ?k) ?ps)) \<in> set (bt_push_all ?ps)"
    by (simp add: bt.entries_iff bt_inv_push_all)
  moreover have "rc_column r \<in> set (map snd (filter (\<lambda>p. fst p = ?k) ?ps))"
    using assms by force
  ultimately show ?thesis
    using that [of "bt_set (map snd (filter (\<lambda>p. fst p = ?k) ?ps))"]
    by (force simp: columns_by_table_def)
qed

lemma check_columns_ok:
  "eeach (\<lambda>col. if col \<notin> set names then efail (err col) else eret ()) cols log = (Inr u, log') \<Longrightarrow>
     set cols \<subseteq> set names \<and> log' = log"
  by (induction cols) (auto simp: ebind_def efail_def eret_def split: if_splits)

lemma timed_read_ok:
  "timed_read env eng sql params log = (Inr qr, log') \<longleftrightarrow>
     log' = log @ [Read_request sql params] \<and> en_read env log' = Read_rows qr"
  by (auto simp: timed_read_def read_request_def ebind_def eret_def efail_def Let_def
      split: read_outcome.splits)

lemma check_table_ok:
  assumes "check_table env eng t ((sys, ent), cols) log = (Inr u, log')"
  shows "\<exists>qr post. en_read env (log @ [Read_request catalogue_sql [VText sys, VText ent]]) = Read_rows qr \<and>
    set cols \<subseteq> set (first_strings qr) \<and>
    log' = log @ [Read_request catalogue_sql [VText sys, VText ent]] @ post"
proof -
  let ?l = "log @ [Read_request catalogue_sql [VText sys, VText ent]]"
  from assms obtain qr where qr: "timed_read env eng catalogue_sql [VText sys, VText ent] log = (Inr qr, ?l)"
    by (auto simp: check_table_def ebind_def timed_read_ok split: prod.splits sum.splits)
  obtain v l2 where cols: "eeach (\<lambda>col. if col \<notin> set (first_strings qr) then
        efail (InvalidDsl (Msg (''column {system}.{entity}.{col} is not in the semantic catalogue; '' @
          ''onboard + profile {system}.{entity} first (spec 13 '' @ section_sign @ ''1)'') [AStr sys, AStr ent, AStr col]))
        else eret ()) cols ?l = (Inr v, l2)"
    using assms by (auto simp: check_table_def ebind_def qr split: prod.splits sum.splits)
  from check_columns_ok [OF this] have "set cols \<subseteq> set (first_strings qr)" "l2 = ?l" by auto
  moreover have "\<exists>post. log' = ?l @ post"
    using assms cols \<open>l2 = ?l\<close>
    by (auto simp: check_table_def ebind_def qr ehist_def eret_def timed_read_ok
        split: prod.splits sum.splits option.splits)
  ultimately show ?thesis using qr by (auto simp: timed_read_ok)
qed

lemma ensures_any: "ensures (scoped_request t) m Q \<Longrightarrow> ensures (\<lambda>_. True) m Q"
  unfolding ensures_def list_all_iff by blast

lemma check_feature_ok:
  assumes "check_feature env eng t n log = (Inr u, log')"
  shows "\<exists>qr. log' = log @ [Read_request feature_probe_sql [VText n, VText t]] \<and>
    en_read env log' = Read_rows qr \<and> qr_rows qr \<noteq> []"
  using assms
  by (auto simp: check_feature_def timed_read_def read_request_def ebind_def eret_def efail_def Let_def
      split: prod.splits sum.splits read_outcome.splits if_splits)

text \<open>C8: When enforcement is on and passes, the catalogue answered, during this very check, with
  every raw column any level of the segment reads, and the feature store answered with a row of
  the caller's tenant for every feature any level compares.\<close>

theorem enforce_catalogue_sound:
  assumes "gc_enforce_catalogue (eg_guardrails eng)"
    and "enforce_catalogue env eng q tenant log = (Inr u, log')"
  shows "(\<forall>s \<in> set (subsegments q). \<forall>r \<in> segment_columns s. \<exists>before after qr.
      log' = before @ [Read_request catalogue_sql [VText (rc_system r), VText (rc_entity r)]] @ after \<and>
      en_read env (before @ [Read_request catalogue_sql [VText (rc_system r), VText (rc_entity r)]]) = Read_rows qr \<and>
      rc_column r \<in> set (first_strings qr)) \<and>
    (\<forall>s \<in> set (subsegments q). \<forall>n \<in> segment_features s. \<exists>before after qr.
      log' = before @ [Read_request feature_probe_sql [VText n, VText tenant]] @ after \<and>
      en_read env (before @ [Read_request feature_probe_sql [VText n, VText tenant]]) = Read_rows qr \<and>
      qr_rows qr \<noteq> [])"
proof -
  obtain l where tables: "eeach (check_table env eng tenant) (columns_by_table q) log = (Inr (), l)"
    and feats: "eeach (check_feature env eng tenant) (referenced_features q) l = (Inr u, log')"
    using assms by (auto simp: enforce_catalogue_def ebind_def split: prod.splits sum.splits)
  have l: "\<exists>post. log' = l @ post"
    using ensures_log [OF ensures_eeach [OF ensures_check_feature] feats] by blast
  show ?thesis
  proof (intro conjI ballI)
    fix s r
    assume "s \<in> set (subsegments q)" "r \<in> segment_columns s"
    then have "r \<in> set (referenced_columns q)" by (auto simp: set_referenced_columns)
    then obtain cols where cols: "((rc_system r, rc_entity r), cols) \<in> set (columns_by_table q)" "rc_column r \<in> set cols"
      by (rule columns_by_table_mem)
    from eeach_ok [OF tables cols(1) ensures_any [OF ensures_check_table]]
    obtain l1 l2 post where step: "check_table env eng tenant ((rc_system r, rc_entity r), cols) l1 = (Inr (), l2)" "l = l2 @ post"
      by blast
    from check_table_ok [OF step(1)] step(2) l cols(2)
    show "\<exists>before after qr.
      log' = before @ [Read_request catalogue_sql [VText (rc_system r), VText (rc_entity r)]] @ after \<and>
      en_read env (before @ [Read_request catalogue_sql [VText (rc_system r), VText (rc_entity r)]]) = Read_rows qr \<and>
      rc_column r \<in> set (first_strings qr)"
      by fastforce
  next
    fix s n
    assume "s \<in> set (subsegments q)" "n \<in> segment_features s"
    then have "n \<in> set (referenced_features q)" by (auto simp: set_referenced_features)
    from eeach_ok [OF feats this ensures_any [OF ensures_check_feature]]
    obtain l1 l2 post where step: "check_feature env eng tenant n l1 = (Inr (), l2)" "log' = l2 @ post"
      by blast
    from check_feature_ok [OF step(1)] step(2)
    show "\<exists>before after qr.
      log' = before @ [Read_request feature_probe_sql [VText n, VText tenant]] @ after \<and>
      en_read env (before @ [Read_request feature_probe_sql [VText n, VText tenant]]) = Read_rows qr \<and>
      qr_rows qr \<noteq> []"
      by auto
  qed
qed

text \<open>A catalogue that knows every column of the sample segment.\<close>

definition sample_names :: query_result where
  "sample_names = \<lparr>qr_columns = [''column_name''],
     qr_rows = [[JString ''user_id''], [JString ''sku''], [JString ''ts'']]\<rparr>"

definition sample_catalogue :: env where
  "sample_catalogue = sample_env\<lparr>en_read := (\<lambda>log. Read_rows sample_names)\<rparr>"

lemma sample_catalogue_sel [simp]:
  "en_read sample_catalogue log = Read_rows sample_names" "en_freshness sample_catalogue log = registry_new"
  "first_strings sample_names = [''user_id'', ''sku'', ''ts'']" "qr_rows sample_names \<noteq> []"
  by (simp_all add: sample_catalogue_def sample_env_def sample_names_def first_strings_def first_opt_def
      map_filter_simps)

lemma eeach_passes:
  "(\<And>x log. x \<in> set xs \<Longrightarrow> \<exists>log'. f x log = (Inr (), log')) \<Longrightarrow> \<exists>log'. eeach f xs log = (Inr (), log')"
proof (induction xs arbitrary: log)
  case Nil
  then show ?case by (simp add: eret_def)
next
  case (Cons x xs)
  from Cons.prems [of x log] obtain l where "f x log = (Inr (), l)" by auto
  with Cons show ?case by (simp add: ebind_def)
qed

lemma check_columns_pass:
  "set cols \<subseteq> set names \<Longrightarrow>
     eeach (\<lambda>col. if col \<notin> set names then efail (err col) else eret ()) cols log = (Inr (), log)"
  by (induction cols) (simp_all add: ebind_def eret_def)

lemma sample_check_table:
  assumes "set cols \<subseteq> set [''user_id'', ''sku'', ''ts'']"
  shows "\<exists>log'. check_table sample_catalogue eng t ((sys, ent), cols) log = (Inr (), log')"
proof -
  have "timed_read sample_catalogue eng sql params log = (Inr sample_names, log @ [Read_request sql params])"
    for sql params
    by (simp add: timed_read_ok)
  moreover have "registry_get registry_new sys ent = None"
    by (simp add: registry_get_def registry_new_def dm.lookup_empty)
  ultimately show ?thesis
    unfolding check_table_def
    by (simp add: ebind_def check_columns_pass [OF assms] ehist_def eret_def del: set_simps list.set)
qed

lemma sample_enforce: "\<exists>log'. enforce_catalogue sample_catalogue strict_engine sample_segment ''acme'' [] = (Inr (), log')"
proof -
  have "columns_by_table sample_segment =
      [((''crm'', ''users''), [''user_id'']), ((''erp'', ''orders''), [''sku'', ''user_id'']),
       ((''erp'', ''refunds''), [''sku'', ''ts'', ''user_id''])]"
    by code_simp
  then have "\<exists>log'. eeach (check_table sample_catalogue strict_engine ''acme'') (columns_by_table sample_segment) [] =
      (Inr (), log')"
    by (intro eeach_passes) (auto intro!: sample_check_table)
  moreover have "\<exists>log'. eeach (check_feature sample_catalogue strict_engine ''acme'') ns log = (Inr (), log')" for ns log
    by (intro eeach_passes) (simp add: check_feature_def ebind_def timed_read_def read_request_def Let_def eret_def)
  ultimately show ?thesis
    by (auto simp: enforce_catalogue_def ebind_def)
qed

theorem enforce_catalogue_sound_witness:
  "\<exists>log'. (\<forall>s \<in> set (subsegments sample_segment). \<forall>r \<in> segment_columns s. \<exists>before after qr.
      log' = before @ [Read_request catalogue_sql [VText (rc_system r), VText (rc_entity r)]] @ after \<and>
      en_read sample_catalogue (before @ [Read_request catalogue_sql [VText (rc_system r), VText (rc_entity r)]]) = Read_rows qr \<and>
      rc_column r \<in> set (first_strings qr))"
proof -
  have on: "gc_enforce_catalogue (eg_guardrails strict_engine)" by simp
  obtain log' where "enforce_catalogue sample_catalogue strict_engine sample_segment ''acme'' [] = (Inr (), log')"
    using sample_enforce by blast
  from enforce_catalogue_sound [OF on this] show ?thesis
    by (intro exI [of _ log']) (rule conjunct1)
qed

end
