(* ===== verification/Query_Materialise.thy ===== *)
theory Query_Materialise
  imports Query_Guards
begin

text \<open>
  The materialise path: the statement the writer is asked to run wraps the compiled segment
  with the frozen features of each family and the selection chain. \<open>wrap_frags\<close> is that
  statement with its values in place; \<open>materialize_in_place\<close> shows that the text and the
  parameters the engine sends bind to it, over a plan scoped to the tenant.
\<close>

subsection \<open>Feature families\<close>

lemma map_filter_split:
  "set (List.map_filter (\<lambda>n. ok_option (split_feature_name n)) names) =
     {(family, short). IDENT_RE family \<and> IDENT_RE short \<and> family @ ''.'' @ short \<in> set names}"
proof -
  have "p \<in> set (List.map_filter (\<lambda>n. ok_option (split_feature_name n)) names) \<longleftrightarrow>
      (\<exists>n \<in> set names. split_feature_name n = Inr p)" for p
    by (induction names) (auto simp: map_filter_simps split: option.split)
  then show ?thesis by (auto simp: split_feature_name_iff)
qed

lemma group_families_get:
  "map_of (group_families names) family =
     (let ps = List.map_filter (\<lambda>n. ok_option (split_feature_name n)) names in
      if family \<in> fst ` set ps then Some (bt_set (map snd (filter (\<lambda>p. fst p = family) ps))) else None)"
proof -
  have "map_of (map (\<lambda>(f, s). (f, bt_set s)) m) family = map_option bt_set (map_of m family)" for m :: "(string \<times> string list) list"
    by (induction m) auto
  then show ?thesis
    by (simp add: group_families_def bt_get_map_of [symmetric] bt_get_push_all Let_def)
qed

lemma group_families_keys:
  "sorted (map fst (group_families names)) \<and> distinct (map fst (group_families names))"
proof -
  have "map fst (group_families names) =
      map fst (bt_push_all (List.map_filter (\<lambda>n. ok_option (split_feature_name n)) names))"
    by (simp add: group_families_def comp_def case_prod_unfold)
  then show ?thesis using bt.entries_sorted [OF bt_inv_push_all] by metis
qed

lemma group_families_mem:
  "(\<exists>shorts. (family, shorts) \<in> set (group_families names) \<and> short \<in> set shorts) \<longleftrightarrow>
     IDENT_RE family \<and> IDENT_RE short \<and> family @ ''.'' @ short \<in> set names"
proof -
  have "(family, shorts) \<in> set (group_families names) \<longleftrightarrow> map_of (group_families names) family = Some shorts" for shorts
    using group_families_keys by (simp add: map_of_eq_Some_iff)
  then show ?thesis
    using map_filter_split [of names]
    by (auto simp: group_families_get Let_def image_iff split: if_splits)
qed

lemma group_families_shorts:
  assumes "(family, shorts) \<in> set (group_families names)"
  shows "shorts \<noteq> [] \<and> sorted shorts \<and> distinct shorts"
proof -
  let ?ps = "List.map_filter (\<lambda>n. ok_option (split_feature_name n)) names"
  have "map_of (group_families names) family = Some shorts"
    using assms group_families_keys [of names] by (simp add: map_of_eq_Some_iff)
  then have f: "family \<in> fst ` set ?ps" and shorts: "shorts = bt_set (map snd (filter (\<lambda>p. fst p = family) ?ps))"
    by (simp_all add: group_families_get Let_def split: if_splits)
  from f obtain p where "p \<in> set ?ps" "fst p = family" by blast
  then have "filter (\<lambda>p. fst p = family) ?ps \<noteq> []"
    unfolding filter_empty_conv by blast
  then show ?thesis unfolding shorts by simp
qed

lemma group_families_ident:
  assumes "(family, shorts) \<in> set (group_families names)"
  shows "IDENT_RE family \<and> (\<forall>short \<in> set shorts. IDENT_RE short)"
proof -
  from group_families_shorts [OF assms] obtain s where "s \<in> set shorts" by (cases shorts) auto
  then show ?thesis using group_families_mem [of family names] assms by blast
qed

subsection \<open>The wrapped statement\<close>

definition join_template :: "nat \<Rightarrow> string \<Rightarrow> string list \<Rightarrow> string \<Rightarrow> string \<Rightarrow> string \<Rightarrow> frag list" where
  "join_template idx family shorts key as_of_ts tenant =
     [Txt ('' LEFT JOIN (SELECT '' @ pivot_select family shorts @
        '' FROM dl.feature_store WHERE starts_with(feature_name, '' @ sq @ family @ ''.'' @ sq @
        '') AND as_of_ts <= CAST(''), Bind (VText as_of_ts),
      Txt ('' AS TIMESTAMPTZ) GROUP BY user_id, tenant_id) '' @ family_alias idx @ '' ON '' @ family_alias idx @
        ''.user_id = s.'' @ key @ '' AND '' @ family_alias idx @ ''.tenant_id = ''), Bind (VText tenant)]"

fun joins_template :: "string \<Rightarrow> string \<Rightarrow> string \<Rightarrow> nat \<Rightarrow> (string \<times> string list) list \<Rightarrow> frag list" where
  "joins_template key as_of_ts tenant idx [] = []"
| "joins_template key as_of_ts tenant idx ((family, shorts) # rest) =
     join_template idx family shorts key as_of_ts tenant @ joins_template key as_of_ts tenant (idx + 1) rest"

fun pairs_of :: "nat \<Rightarrow> (string \<times> string list) list \<Rightarrow> string list" where
  "pairs_of idx [] = []"
| "pairs_of idx ((family, shorts) # rest) = family_pairs idx family shorts @ pairs_of (idx + 1) rest"

definition wrap_frags ::
  "string \<Rightarrow> string \<Rightarrow> string \<Rightarrow> string \<Rightarrow> (string \<times> string list) list \<Rightarrow> frag list \<Rightarrow> frag list"
where
  "wrap_frags key hit_reason as_of_ts tenant families segment =
     [Txt (''SELECT s.'' @ key @ '' AS '' @ key @ '', '' @ features_expr (pairs_of 0 families) @ '' AS features, CAST(''),
      Bind (VText hit_reason), Txt '' AS JSON) AS hit_reason FROM (''] @ segment @ [Txt '') s''] @
     joins_template key as_of_ts tenant 0 families"

lemma freeze_loop_eq:
  "freeze_loop key as_of_ts tenant idx families (joins, params, pairs) =
     (joins @ render (joins_template key as_of_ts tenant idx families),
      params @ binds (joins_template key as_of_ts tenant idx families),
      pairs @ pairs_of idx families)"
  by (induction key as_of_ts tenant idx families "(joins, params, pairs)" arbitrary: joins params pairs
      rule: freeze_loop.induct)
    (simp_all add: join_template_def family_join_def Let_def WRITE_CATALOG_ALIAS_def)

lemma wrap_segment_eq:
  assumes "cq_sql wr = render fs" "cq_params wr = binds fs"
  shows "wrap_segment key hit_reason as_of_ts tenant families wr =
    (render (wrap_frags key hit_reason as_of_ts tenant families fs),
     binds (wrap_frags key hit_reason as_of_ts tenant families fs))"
  using assms by (simp add: wrap_segment_def freeze_loop_eq wrap_frags_def)

text \<open>No placeholder hides in the names of the families.\<close>

definition ident_families :: "(string \<times> string list) list \<Rightarrow> bool" where
  "ident_families families \<longleftrightarrow> (\<forall>(family, shorts) \<in> set families. IDENT_RE family \<and> list_all IDENT_RE shorts)"

lemma ident_families_group: "ident_families (group_families names)"
  unfolding ident_families_def list_all_iff using group_families_ident by fast

lemma qmarks_family_alias [simp]: "qmarks (family_alias idx) = 0"
  by (simp add: family_alias_def)

lemma qmarks_pairs:
  "IDENT_RE family \<Longrightarrow> list_all IDENT_RE shorts \<Longrightarrow> p \<in> set (family_pairs idx family shorts) \<Longrightarrow> qmarks p = 0"
  by (auto simp: family_pairs_def list_all_iff qm_simps)

lemma qmarks_join_0: "qmarks sep = 0 \<Longrightarrow> (\<And>x. x \<in> set xs \<Longrightarrow> qmarks x = 0) \<Longrightarrow> qmarks (join sep xs) = 0"
  by (induction xs) (auto simp: join_Cons)

lemma qmarks_pivot:
  "IDENT_RE family \<Longrightarrow> list_all IDENT_RE shorts \<Longrightarrow> qmarks (pivot_select family shorts) = 0"
  unfolding pivot_select_def by (rule qmarks_join_0) (auto simp: list_all_iff qm_simps)

lemma qm_free_joins:
  "ident_families families \<Longrightarrow> IDENT_RE key \<Longrightarrow> qm_free (joins_template key as_of_ts tenant idx families)"
  by (induction key as_of_ts tenant idx families rule: joins_template.induct)
    (auto simp: ident_families_def join_template_def qmarks_pivot qm_simps)

lemma qmarks_pairs_of:
  "ident_families families \<Longrightarrow> p \<in> set (pairs_of idx families) \<Longrightarrow> qmarks p = 0"
  by (induction idx families rule: pairs_of.induct) (auto simp: ident_families_def dest: qmarks_pairs)

lemma qmarks_features: "ident_families families \<Longrightarrow> qmarks (features_expr (pairs_of idx families)) = 0"
  using qmarks_join_0 [of "'', ''" "pairs_of idx families"] qmarks_pairs_of by (simp add: features_expr_def)

lemma qm_free_wrap:
  "ident_families families \<Longrightarrow> IDENT_RE key \<Longrightarrow> qm_free fs \<Longrightarrow>
     qm_free (wrap_frags key hit_reason as_of_ts tenant families fs)"
  by (simp add: wrap_frags_def qm_free_joins qmarks_features qm_simps)

subsection \<open>Properties\<close>

lemma as_of_epoch_cases:
  assumes "es = map sm_last_epoch_secs (List.map_filter (\<lambda>d. registry_get reg (ds_system d) (ds_entity d)) sources)"
  shows "as_of_epoch reg sources now = (if es = [] then now else Min (set es))"
  using assms by (simp add: as_of_epoch_def min_opt_def)

lemma registered_epochs:
  "set (map sm_last_epoch_secs (List.map_filter (\<lambda>d. registry_get reg (ds_system d) (ds_entity d)) sources)) =
     {sm_last_epoch_secs m | m d. d \<in> set sources \<and> registry_get reg (ds_system d) (ds_entity d) = Some m}"
  by (induction sources) (auto simp: map_filter_simps split: option.splits)

text \<open>The data cut-off of a snapshot is never later than the last refresh of any registered
  source, and is the refresh of one of them; with none registered it is the clock.\<close>

theorem as_of_epoch_spec:
  "(\<forall>d \<in> set sources. \<forall>m. registry_get reg (ds_system d) (ds_entity d) = Some m \<longrightarrow>
      as_of_epoch reg sources now \<le> sm_last_epoch_secs m) \<and>
   (as_of_epoch reg sources now = now \<and> (\<forall>d \<in> set sources. registry_get reg (ds_system d) (ds_entity d) = None) \<or>
    (\<exists>d \<in> set sources. \<exists>m. registry_get reg (ds_system d) (ds_entity d) = Some m \<and>
       as_of_epoch reg sources now = sm_last_epoch_secs m))"
proof -
  define es where "es = map sm_last_epoch_secs (List.map_filter (\<lambda>d. registry_get reg (ds_system d) (ds_entity d)) sources)"
  note a = as_of_epoch_cases [OF es_def, of now] and e = registered_epochs [of reg sources, folded es_def]
  show ?thesis
  proof (cases "es = []")
    case True
    then have none: "registry_get reg (ds_system d) (ds_entity d) \<noteq> Some m" if "d \<in> set sources" for d m
      using e that by fastforce
    then have "\<forall>d \<in> set sources. registry_get reg (ds_system d) (ds_entity d) = None"
      by (meson not_None_eq)
    with a True show ?thesis by simp
  next
    case False
    then have mn: "Min (set es) \<in> set es" and le: "\<And>x. x \<in> set es \<Longrightarrow> Min (set es) \<le> x"
      by simp_all
    have as_of: "as_of_epoch reg sources now = Min (set es)"
      using a False by simp
    obtain d m where "d \<in> set sources" "registry_get reg (ds_system d) (ds_entity d) = Some m"
      "Min (set es) = sm_last_epoch_secs m"
      using mn unfolding e by blast
    moreover have "Min (set es) \<le> sm_last_epoch_secs m"
      if "d \<in> set sources" "registry_get reg (ds_system d) (ds_entity d) = Some m" for d m
      by (rule le) (use e that in blast)
    ultimately show ?thesis unfolding as_of by blast
  qed
qed

definition sample_registry :: freshness_registry where
  "sample_registry =
     dm_insert (source_key ''erp'' ''orders'') \<lparr>sm_source_type = Cdc, sm_last_epoch_secs = 90\<rparr>
       (dm_insert (source_key ''crm'' ''users'') \<lparr>sm_source_type = Batch, sm_last_epoch_secs = 50\<rparr> registry_new)"

theorem as_of_epoch_spec_witness:
  "\<exists>d \<in> {\<lparr>ds_system = ''erp'', ds_entity = ''orders''\<rparr>, \<lparr>ds_system = ''crm'', ds_entity = ''users''\<rparr>}. \<exists>m.
     registry_get sample_registry (ds_system d) (ds_entity d) = Some m \<and>
     as_of_epoch sample_registry
       [\<lparr>ds_system = ''erp'', ds_entity = ''orders''\<rparr>, \<lparr>ds_system = ''crm'', ds_entity = ''users''\<rparr>] 100 = sm_last_epoch_secs m \<and>
     sm_last_epoch_secs m = 50"
proof -
  let ?sources = "[\<lparr>ds_system = ''erp'', ds_entity = ''orders''\<rparr>, \<lparr>ds_system = ''crm'', ds_entity = ''users''\<rparr>]"
  have reg: "registry_get sample_registry ''crm'' ''users'' = Some \<lparr>sm_source_type = Batch, sm_last_epoch_secs = 50\<rparr>"
    "registry_get sample_registry ''erp'' ''orders'' = Some \<lparr>sm_source_type = Cdc, sm_last_epoch_secs = 90\<rparr>"
    by (simp_all add: sample_registry_def registry_get_def dm.lookup_insert source_key_def)
  then show ?thesis
    using as_of_epoch_spec [of ?sources sample_registry 100] by auto
qed

text \<open>A feature is frozen into snapshots exactly when its name is a pair of sound identifiers
  joined by a dot among the names the store answered; families come sorted and without repeats,
  and so do the features of each.\<close>

theorem group_families_spec:
  "((\<exists>shorts. (family, shorts) \<in> set (group_families names) \<and> short \<in> set shorts) \<longleftrightarrow>
     IDENT_RE family \<and> IDENT_RE short \<and> family @ ''.'' @ short \<in> set names) \<and>
   sorted (map fst (group_families names)) \<and> distinct (map fst (group_families names)) \<and>
   (\<forall>(family, shorts) \<in> set (group_families names). shorts \<noteq> [] \<and> sorted shorts \<and> distinct shorts)"
proof (intro conjI)
  show "\<forall>(family, shorts) \<in> set (group_families names). shorts \<noteq> [] \<and> sorted shorts \<and> distinct shorts"
    using group_families_shorts by blast
qed (use group_families_mem group_families_keys in blast)+

theorem group_families_spec_witness:
  "(''rfm'', [''recency'']) \<in> set (group_families [''rfm.recency'', ''bad name'', ''.x'']) \<and>
   (\<exists>shorts. (''rfm'', shorts) \<in> set (group_families [''rfm.recency'', ''bad name'', ''.x'']) \<and> ''recency'' \<in> set shorts)"
proof
  show "\<exists>shorts. (''rfm'', shorts) \<in> set (group_families [''rfm.recency'', ''bad name'', ''.x'']) \<and> ''recency'' \<in> set shorts"
    using group_families_spec [of "''rfm''" "[''rfm.recency'', ''bad name'', ''.x'']" "''recency''"]
    by (simp add: IDENT_RE_def ident_char_def in_range_def less_eq_char_def)
qed code_simp

lemma ident_families_empty [simp]: "ident_families []"
  by (simp add: ident_families_def)

lemma feature_families_ident:
  "feature_families env eng t log = (Inr families, log') \<Longrightarrow> ident_families families"
  by (auto simp: feature_families_def ident_families_group bt_empty_def
      split: prod.splits sum.splits)

text \<open>C7: A segment with a \<open>Derive\<close> or a \<open>Characterize\<close> is refused before anything is sent. For
  any other validated segment a successful materialisation ends in one request to the writer, under
  the caller's tenant and campaign, whose parameters bind by position to the wrapped statement:
  the selection chain, the segment's plan under the write alias restricted to the tenant, and the
  cut-off and tenant of each family's pivot.\<close>

theorem materialize_in_place:
  assumes "wf_segment rfc3339 q"
  shows "(has_derive q \<or> has_characterize q \<longrightarrow> (\<exists>m. materialize env eng q campaign tenant log = (Inl (InvalidDsl m), log))) \<and>
    (\<forall>id log'. materialize env eng q campaign tenant log = (Inr id, log') \<longrightarrow>
      (\<exists>before sql params spec hit_reason families.
        log' = before @ [Write_request sql params (q_key q) spec tenant] \<and>
        id = ''snap_'' @ sp_snapshot_id spec \<and> sp_campaign_id spec = campaign \<and>
        en_ops_json env (q_ops q) = Inr hit_reason \<and>
        plan_scoped tenant (plan_of (write_options eng tenant) q) \<and>
        bind_positional sql params =
          Some (expand (wrap_frags (q_key q) hit_reason (sp_as_of_ts spec) tenant families
            (plan_frags ''dl'' (plan_of (write_options eng tenant) q))))))"
proof (intro conjI impI allI)
  assume "has_derive q \<or> has_characterize q"
  then show "\<exists>m. materialize env eng q campaign tenant log = (Inl (InvalidDsl m), log)"
    by (auto simp: materialize_def efail_def)
next
  fix id log'
  let ?fs = "plan_frags ''dl'' (plan_of (write_options eng tenant) q)"
  assume ok: "materialize env eng q campaign tenant log = (Inr id, log')"
  then obtain as_of_ts hit_reason families wr l0 l1 uid where
    hit: "en_ops_json env (q_ops q) = Inr hit_reason"
    and fam: "feature_families env eng tenant l0 = (Inr families, l1)"
    and wr: "compile_with_opts q (write_options eng tenant) = Inr wr"
    and log': "log' = l1 @ [Write_request (fst (wrap_segment (q_key q) hit_reason as_of_ts tenant families wr))
        (snd (wrap_segment (q_key q) hit_reason as_of_ts tenant families wr)) (q_key q)
        \<lparr>sp_snapshot_id = uid, sp_campaign_id = campaign, sp_as_of_ts = as_of_ts\<rparr> tenant]"
    and id: "id = ''snap_'' @ uid"
    by (auto simp: materialize_def ebind_Inr_iff elift_Inr_iff efail_def eret_def ehist_def
        materialize_request_def Let_def case_prod_unfold split: if_splits)
  have "wr = rendered (write_options eng tenant) q"
    using wr compile_at_refines [OF assms] by (simp add: compile_with_opts_def)
  then have "cq_sql wr = render ?fs" "cq_params wr = binds ?fs"
    by (simp_all add: rendered_def write_options_def WRITE_CATALOG_ALIAS_def)
  note wrapped = wrap_segment_eq [OF this, of "q_key q" hit_reason as_of_ts tenant families]
  have "qm_free ?fs"
    using qm_free_plan [OF assms, of "write_options eng tenant"] by (simp add: write_options_def WRITE_CATALOG_ALIAS_def)
  then have "bind_positional (fst (wrap_segment (q_key q) hit_reason as_of_ts tenant families wr))
      (snd (wrap_segment (q_key q) hit_reason as_of_ts tenant families wr)) =
      Some (expand (wrap_frags (q_key q) hit_reason as_of_ts tenant families ?fs))"
    using qm_free_wrap [OF feature_families_ident [OF fam]] wf_segment_top [OF assms]
    by (simp add: wrapped bind_positional_render)
  moreover have "plan_scoped tenant (plan_of (write_options eng tenant) q)"
    using plan_of_scoped [of "write_options eng tenant" q] by (simp add: write_options_def)
  ultimately show "\<exists>before sql params spec hit_reason families.
        log' = before @ [Write_request sql params (q_key q) spec tenant] \<and>
        id = ''snap_'' @ sp_snapshot_id spec \<and> sp_campaign_id spec = campaign \<and>
        en_ops_json env (q_ops q) = Inr hit_reason \<and>
        plan_scoped tenant (plan_of (write_options eng tenant) q) \<and>
        bind_positional sql params =
          Some (expand (wrap_frags (q_key q) hit_reason (sp_as_of_ts spec) tenant families ?fs))"
    using log' id hit by (metis snapshot_spec.select_convs)
qed

text \<open>What a materialisation sends: reads scoped to the tenant, the names of the tenant's features, and
  the one write, whose text and parameters are the rendering of a wrapped plan scoped to the tenant.\<close>

definition materialise_write :: "string \<Rightarrow> request \<Rightarrow> bool" where
  "materialise_write t r \<longleftrightarrow>
     (\<exists>key hit_reason as_of_ts families p spec.
        let fs = wrap_frags key hit_reason as_of_ts t families (plan_frags ''dl'' p)
        in plan_scoped t p \<and> qm_free fs \<and> r = Write_request (render fs) (binds fs) key spec t)"

definition materialise_request :: "string \<Rightarrow> request \<Rightarrow> bool" where
  "materialise_request t r \<longleftrightarrow>
     scoped_request t r \<or> r = Read_request feature_families_sql [VText t] \<or> materialise_write t r"

lemma qmarks_render: "qm_free fs \<Longrightarrow> qmarks (render fs) = length (binds fs)"
  by (induction fs rule: expand.induct) simp_all

lemma ensures_feature_families:
  "ensures (materialise_request t) (feature_families env eng t) ident_families"
  unfolding ensures_def
proof (intro allI conjI impI)
  fix log
  have "ensures (materialise_request t) (timed_read env eng feature_families_sql [VText t]) (\<lambda>_. True)"
    by (rule ensures_timed_read) (simp add: materialise_request_def)
  then obtain reqs where "snd (timed_read env eng feature_families_sql [VText t] log) = log @ reqs"
    "list_all (materialise_request t) reqs"
    unfolding ensures_def by blast
  then show "\<exists>reqs. snd (feature_families env eng t log) = log @ reqs \<and> list_all (materialise_request t) reqs"
    by (auto simp: feature_families_def split: prod.split sum.split)
next
  fix log families
  assume "fst (feature_families env eng t log) = Inr families"
  with feature_families_ident [of env eng t log families] show "ident_families families"
    by (metis prod.collapse)
qed

lemma compiled_write:
  assumes "wf_segment rfc3339 q" "compile_with_opts q (write_options eng t) = Inr wr" "ident_families families"
  shows "materialise_write t (Write_request (fst (wrap_segment (q_key q) hit_reason as_of_ts t families wr))
    (snd (wrap_segment (q_key q) hit_reason as_of_ts t families wr)) (q_key q) spec t)"
proof -
  let ?p = "plan_of (write_options eng t) q"
  have "wr = rendered (write_options eng t) q"
    using assms(2) compile_at_refines [OF assms(1)] by (simp add: compile_with_opts_def)
  then have "cq_sql wr = render (plan_frags ''dl'' ?p)" "cq_params wr = binds (plan_frags ''dl'' ?p)"
    by (simp_all add: rendered_def write_options_def WRITE_CATALOG_ALIAS_def)
  note wrapped = wrap_segment_eq [OF this, of "q_key q" hit_reason as_of_ts t families]
  have "qm_free (plan_frags ''dl'' ?p)"
    using qm_free_plan [OF assms(1), of "write_options eng t"] by (simp add: write_options_def WRITE_CATALOG_ALIAS_def)
  with assms(3) wf_segment_top [OF assms(1)]
  have "qm_free (wrap_frags (q_key q) hit_reason as_of_ts t families (plan_frags ''dl'' ?p))"
    by (intro qm_free_wrap) simp_all
  moreover have "plan_scoped t ?p"
    using plan_of_scoped [of "write_options eng t" q] by (simp add: write_options_def)
  ultimately show ?thesis
    unfolding materialise_write_def Let_def wrapped fst_conv snd_conv by blast
qed

lemma ensures_request: "P r \<Longrightarrow> r = Write_request sql params key spec t \<Longrightarrow>
   ensures P (materialize_request env sql params key spec t) (\<lambda>_. True)"
  by (simp add: ensures_def materialize_request_def Let_def)

lemma ensures_scoped: "ensures (scoped_request t) m Q \<Longrightarrow> ensures (materialise_request t) m Q"
  unfolding ensures_def list_all_iff materialise_request_def by metis

lemma ensures_materialize:
  assumes wf: "wf_segment rfc3339 q"
  shows "ensures (materialise_request t) (materialize env eng q campaign t) (\<lambda>_. True)"
proof -
  have explain: "ensures (scoped_request t) (explain_cost env c) (\<lambda>_. True)" if "scoped_query t c" for c
    using scoped_query_requests(2) [OF that] by (intro ensures_explain) simp
  show ?thesis
    unfolding materialize_def Let_def
    by (auto simp: case_prod_unfold materialise_request_def
        intro!: ensures_efail ensures_eret ensures_ebind [OF ensures_scoped [OF ensures_compile_and_check [OF wf]]]
          ensures_seq [OF ensures_scoped [OF explain]] ensures_seq [OF ensures_ehist [where Q = "\<lambda>_. True"]]
          ensures_seq [OF ensures_elift] ensures_ebind [OF ensures_feature_families]
          ensures_ebind [where Q = "\<lambda>wr. compile_with_opts q (write_options eng t) = Inr wr", OF ensures_elift]
          ensures_seq [OF ensures_request [OF _ refl]] compiled_write [OF wf])
qed

lemma sample_materialize_ok:
  "\<exists>id log'. materialize sample_env sample_engine sample_segment ''spring'' ''acme'' [] = (Inr id, log')"
proof -
  have "compilable (write_options sample_engine ''acme'') 0 sample_segment"
    by (rule sample_compilable) (simp add: write_options_def)
  then obtain wr where wr: "compile_with_opts sample_segment (write_options sample_engine ''acme'') = Inr wr"
    using compile_at_refines [OF sample_wf] unfolding compile_with_opts_def by blast
  have explain: "\<exists>l. explain_cost sample_env c log = (Inr \<lparr>est_rows = 12\<rparr>, l)" for c log
    by (simp add: explain_cost_def engine_steps)
  have families: "\<exists>fs l. feature_families sample_env sample_engine ''acme'' log = (Inr fs, l)" for log
    by (simp add: feature_families_def split: prod.split sum.split)
  have ops: "en_ops_json sample_env ops = Inr ''[]''" and en_wr: "en_write sample_env log = Inr 1" for ops log
    by (simp_all add: sample_env_def)
  obtain l1 where l1: "explain_cost sample_env (rendered sample_options sample_segment) [] = (Inr \<lparr>est_rows = 12\<rparr>, l1)"
    using explain by blast
  obtain fs l2 where l2: "feature_families sample_env sample_engine ''acme'' l1 = (Inr fs, l2)"
    using families by blast
  show ?thesis
    by (simp add: materialize_def sample_not_profile ebind_def sample_check l1 ehist_def Let_def elift_def ops l2 wr
        materialize_request_def en_wr eret_def case_prod_unfold)
qed

theorem materialize_in_place_witness:
  "\<exists>id log' before sql params spec hit_reason families.
     materialize sample_env sample_engine sample_segment ''spring'' ''acme'' [] = (Inr id, log') \<and>
     log' = before @ [Write_request sql params (q_key sample_segment) spec ''acme''] \<and>
     bind_positional sql params =
       Some (expand (wrap_frags (q_key sample_segment) hit_reason (sp_as_of_ts spec) ''acme'' families
         (plan_frags ''dl'' (plan_of (write_options sample_engine ''acme'') sample_segment))))"
proof -
  obtain id log' where ok: "materialize sample_env sample_engine sample_segment ''spring'' ''acme'' [] = (Inr id, log')"
    using sample_materialize_ok by blast
  note materialize_in_place [OF sample_wf, of sample_env sample_engine "''spring''" "''acme''" "[]",
      THEN conjunct2, THEN spec, THEN spec, THEN mp, OF ok]
  with ok show ?thesis by blast
qed

end
