(* ===== verification/Ingestion_Writer.thy ===== *)
theory Ingestion_Writer
  imports Keyed_Maps Core_Labels Query_Compiler
begin

text \<open>
  \<open>crates/ingestion/src/lib.rs\<close>: the writer thread. Its state is the tenant the storage writer
  stamps, the micro-batches per (tenant, system, entity) in a \<open>BTreeMap\<close>, the set of known
  tables and the log of the storage calls, each with the tenant it was stamped with. What a
  storage call returns is the environment's choice, a function of the whole log. A wake of the
  loop is a timeout, a command or the loss of every sender, at a given instant; \<open>writer_loop\<close>
  runs the body over the wakes until it breaks.
\<close>

subsection \<open>Storage calls\<close>

type_synonym cell_row = "string option list"

record source_batch =
  sb_system :: string
  sb_entity :: string
  sb_columns :: "string list"
  sb_key :: string
  sb_upserts :: "cell_row list"
  sb_deletes :: "string list"
  sb_offsets :: "(int \<times> int) list"

datatype store_call =
    Ingest_call string string "string list" "cell_row list"
  | Upsert_call string string "string list" string "cell_row list"
  | Delete_call string string string "string list"
  | Compact_call string string
  | Expire_call nat
  | Orphans_call nat
  | Materialize_call string "dval list" string snapshot_spec
  | Export_call string string
  | Features_call "feature_row list"
  | Catalog_call "catalog_row list"
  | Suppression_call "suppression_row list"
  | Cdc_call source_batch
  | Offsets_call string

type_synonym store_log = "(string \<times> store_call) list"

text \<open>A call's result: a count (\<open>usize\<close>, \<open>u64\<close>; for \<open>Result<()>\<close> it is ignored) or an error, and
  for \<open>read_cdc_offsets\<close> the pairs. \<open>known_order\<close> is the order a \<open>HashSet\<close> iterates in.\<close>

record store_env =
  se_count :: "store_log \<Rightarrow> (core_error, nat) result"
  se_offsets :: "store_log \<Rightarrow> (core_error, (int \<times> int) list) result"
  se_order :: "(string \<times> string) set \<Rightarrow> (string \<times> string) list"

record micro_batch_config =
  mb_flush_rows :: nat
  mb_flush_age_secs :: nat

definition micro_batch_default :: micro_batch_config where
  "micro_batch_default = \<lparr>mb_flush_rows = 50000, mb_flush_age_secs = 30\<rparr>"

definition micro_batch_immediate :: micro_batch_config where
  "micro_batch_immediate = \<lparr>mb_flush_rows = 1, mb_flush_age_secs = 0\<rparr>"

text \<open>Instants are nanoseconds.\<close>

record pending_batch =
  pb_columns :: "string list"
  pb_rows :: "cell_row list"
  pb_tenant :: string
  pb_since :: nat

type_synonym batch_key = "string \<times> string \<times> string"

record writer_state =
  ws_tenant :: string
  ws_pending :: "(batch_key, pending_batch) btree"
  ws_known :: "(string \<times> string) set"
  ws_log :: store_log

datatype command =
    IngestRaw string string "string list" "cell_row list" string
  | CompactAll nat
  | Materialize string "dval list" string snapshot_spec string
  | ExportParquet string string
  | UpsertRaw string string "string list" string "cell_row list" string
  | DeleteRaw string string string "string list" string
  | WriteFeatures "feature_row list" string
  | WriteCatalog "catalog_row list" string
  | WriteSuppression "suppression_row list" string
  | ApplyCdcBatch source_batch string
  | ReadCdcOffset string
  | Shutdown

datatype reply =
    Reply_count "(core_error, nat) result"
  | Reply_unit "(core_error, unit) result"
  | Reply_offsets "(core_error, (int \<times> int) list) result"
  | Reply_ack

text \<open>The tenant a command names.\<close>

fun command_tenant :: "command \<Rightarrow> string option" where
  "command_tenant (IngestRaw sys ent columns rows t) = Some t"
| "command_tenant (Materialize sql params key spec t) = Some t"
| "command_tenant (UpsertRaw sys ent columns key rows t) = Some t"
| "command_tenant (DeleteRaw sys ent key ks t) = Some t"
| "command_tenant (WriteFeatures rows t) = Some t"
| "command_tenant (WriteCatalog rows t) = Some t"
| "command_tenant (WriteSuppression rows t) = Some t"
| "command_tenant (ApplyCdcBatch b t) = Some t"
| "command_tenant c = None"

definition set_tenant :: "string \<Rightarrow> writer_state \<Rightarrow> writer_state" where
  "set_tenant t s = s\<lparr>ws_tenant := t\<rparr>"

definition store :: "store_env \<Rightarrow> store_call \<Rightarrow> writer_state \<Rightarrow> (core_error, nat) result \<times> writer_state" where
  "store env c s = (let log = ws_log s @ [(ws_tenant s, c)] in (se_count env log, s\<lparr>ws_log := log\<rparr>))"

definition learn :: "string \<Rightarrow> string \<Rightarrow> writer_state \<Rightarrow> writer_state" where
  "learn sys ent s = s\<lparr>ws_known := insert (sys, ent) (ws_known s)\<rparr>"

text \<open>A storage call after which the table is known, when it succeeds.\<close>

definition store_known ::
  "store_env \<Rightarrow> string \<Rightarrow> string \<Rightarrow> store_call \<Rightarrow> writer_state \<Rightarrow> (core_error, nat) result \<times> writer_state"
where
  "store_known env sys ent c s =
     (case store env c s of
        (Inl e, s) \<Rightarrow> (Inl e, s)
      | (Inr n, s) \<Rightarrow> (Inr n, learn sys ent s))"

subsection \<open>Flushing\<close>

definition flush_batch ::
  "store_env \<Rightarrow> batch_key \<Rightarrow> pending_batch \<Rightarrow> writer_state \<Rightarrow> (core_error, nat) result \<times> writer_state"
where
  "flush_batch env key batch s =
     (let (t, sys, ent) = key; s = set_tenant (pb_tenant batch) s
      in store_known env sys ent (Ingest_call sys ent (pb_columns batch) (pb_rows batch)) s)"

text \<open>A failed flush is logged and its rows are dropped.\<close>

definition flush_key :: "store_env \<Rightarrow> batch_key \<Rightarrow> writer_state \<Rightarrow> writer_state" where
  "flush_key env k s =
     (case bt_get (ws_pending s) k of
        None \<Rightarrow> s
      | Some b \<Rightarrow> snd (flush_batch env k b (s\<lparr>ws_pending := bt_remove k (ws_pending s)\<rparr>)))"

definition flush_some :: "store_env \<Rightarrow> (pending_batch \<Rightarrow> bool) \<Rightarrow> writer_state \<Rightarrow> writer_state" where
  "flush_some env should_flush s =
     fold (flush_key env) (map fst (filter (\<lambda>(k, b). should_flush b) (ws_pending s))) s"

definition flush_pending :: "store_env \<Rightarrow> writer_state \<Rightarrow> writer_state" where
  "flush_pending env s = flush_some env (\<lambda>_. True) s"

definition nanos :: "nat \<Rightarrow> nat" where
  "nanos secs = secs * 1000000000"

text \<open>\<open>duration_since\<close> saturates at zero, as subtraction on \<^typ>\<open>nat\<close> does.\<close>

definition flush_expired :: "store_env \<Rightarrow> nat \<Rightarrow> nat \<Rightarrow> writer_state \<Rightarrow> writer_state" where
  "flush_expired env age_secs now s =
     (if age_secs = 0 then s
      else flush_some env (\<lambda>b. now - pb_since b \<ge> nanos age_secs) s)"

subsection \<open>Commands\<close>

text \<open>The buffering half of \<open>IngestRaw\<close>; \<open>stamp\<close> is the instant a new batch starts at.\<close>

definition schema_flush :: "store_env \<Rightarrow> batch_key \<Rightarrow> string list \<Rightarrow> writer_state \<Rightarrow> writer_state" where
  "schema_flush env key columns s =
     (case bt_get (ws_pending s) key of
        None \<Rightarrow> s
      | Some existing \<Rightarrow> if pb_columns existing \<noteq> columns then flush_key env key s else s)"

definition buffer_rows ::
  "batch_key \<Rightarrow> string \<Rightarrow> string list \<Rightarrow> cell_row list \<Rightarrow> nat \<Rightarrow> writer_state \<Rightarrow> pending_batch"
where
  "buffer_rows key tenant columns rows stamp s =
     (let batch = (case bt_get (ws_pending s) key of
                     None \<Rightarrow> \<lparr>pb_columns = columns, pb_rows = [], pb_tenant = tenant, pb_since = stamp\<rparr>
                   | Some b \<Rightarrow> b)
      in batch\<lparr>pb_rows := pb_rows batch @ rows\<rparr>)"

definition ingest_raw ::
  "store_env \<Rightarrow> micro_batch_config \<Rightarrow> nat \<Rightarrow> string \<Rightarrow> string \<Rightarrow> string list \<Rightarrow> cell_row list \<Rightarrow> string
     \<Rightarrow> writer_state \<Rightarrow> (core_error, nat) result \<times> writer_state"
where
  "ingest_raw env cfg stamp sys ent columns rows tenant s =
     (let s = set_tenant tenant s in
      if mb_flush_rows cfg = 0 then store_known env sys ent (Ingest_call sys ent columns rows) s
      else
        let key = (tenant, sys, ent);
            s = schema_flush env key columns s;
            batch = buffer_rows key tenant columns rows stamp s;
            s = s\<lparr>ws_pending := bt_insert key batch (ws_pending s)\<rparr>
        in if length (pb_rows batch) \<ge> mb_flush_rows cfg then
             flush_batch env key batch (s\<lparr>ws_pending := bt_remove key (ws_pending s)\<rparr>)
           else (Inr 0, s))"

text \<open>\<open>if let Err(err) = call { last = Err(err) }\<close>\<close>

definition last_error ::
  "store_env \<Rightarrow> store_call \<Rightarrow> (core_error, unit) result \<times> writer_state \<Rightarrow> (core_error, unit) result \<times> writer_state"
where
  "last_error env c ls =
     (case store env c (snd ls) of
        (Inl e, s) \<Rightarrow> (Inl e, s)
      | (Inr n, s) \<Rightarrow> (fst ls, s))"

definition compact_all :: "store_env \<Rightarrow> nat \<Rightarrow> writer_state \<Rightarrow> (core_error, unit) result \<times> writer_state" where
  "compact_all env retention_days s =
     (let s = flush_pending env s in
      last_error env (Orphans_call retention_days)
        (last_error env (Expire_call retention_days)
          (fold (\<lambda>(sys, ent). last_error env (Compact_call sys ent)) (se_order env (ws_known s)) (Inr (), s))))"

definition as_unit :: "(core_error, nat) result \<Rightarrow> (core_error, unit) result" where
  "as_unit r = (case r of Inl e \<Rightarrow> Inl e | Inr n \<Rightarrow> Inr ())"

text \<open>One arm of the \<open>match\<close>: the reply and the new state.\<close>

fun handle_command ::
  "store_env \<Rightarrow> micro_batch_config \<Rightarrow> nat \<Rightarrow> command \<Rightarrow> writer_state \<Rightarrow> reply \<times> writer_state"
where
  "handle_command env cfg stamp (IngestRaw sys ent columns rows tenant) s =
     map_prod Reply_count id (ingest_raw env cfg stamp sys ent columns rows tenant s)"
| "handle_command env cfg stamp (CompactAll days) s = map_prod Reply_unit id (compact_all env days s)"
| "handle_command env cfg stamp (UpsertRaw sys ent columns key rows tenant) s =
     map_prod Reply_count id
       (store_known env sys ent (Upsert_call sys ent columns key rows) (set_tenant tenant s))"
| "handle_command env cfg stamp (DeleteRaw sys ent key keys tenant) s =
     map_prod Reply_count id (store_known env sys ent (Delete_call sys ent key keys) (set_tenant tenant s))"
| "handle_command env cfg stamp (Materialize sql params key spec tenant) s =
     map_prod Reply_count id (store env (Materialize_call sql params key spec) (set_tenant tenant s))"
| "handle_command env cfg stamp (ExportParquet snapshot_id dest) s =
     map_prod (Reply_unit \<circ> as_unit) id (store env (Export_call snapshot_id dest) s)"
| "handle_command env cfg stamp (WriteFeatures rows tenant) s =
     map_prod Reply_count id (store env (Features_call rows) (set_tenant tenant s))"
| "handle_command env cfg stamp (WriteCatalog rows tenant) s =
     map_prod Reply_count id (store env (Catalog_call rows) (set_tenant tenant s))"
| "handle_command env cfg stamp (WriteSuppression rows tenant) s =
     map_prod Reply_count id (store env (Suppression_call rows) (set_tenant tenant s))"
| "handle_command env cfg stamp (ApplyCdcBatch batch tenant) s =
     map_prod Reply_count id
       (store_known env (sb_system batch) (sb_entity batch) (Cdc_call batch) (set_tenant tenant s))"
| "handle_command env cfg stamp (ReadCdcOffset source) s =
     (let s = s\<lparr>ws_log := ws_log s @ [(ws_tenant s, Offsets_call source)]\<rparr>
      in (Reply_offsets (se_offsets env (ws_log s)), s))"
| "handle_command env cfg stamp Shutdown s = (Reply_ack, flush_pending env s)"

subsection \<open>The loop\<close>

text \<open>A wake: a timeout at an instant, a command received (with the instants of the age check and
  of a batch it may open), or the loss of every sender.\<close>

datatype wake = Timeout nat | Received nat nat command | Disconnected

fun writer_loop ::
  "store_env \<Rightarrow> micro_batch_config \<Rightarrow> wake list \<Rightarrow> writer_state \<Rightarrow> reply list \<times> writer_state"
where
  "writer_loop env cfg [] s = ([], s)"
| "writer_loop env cfg (Timeout now # ws) s =
     writer_loop env cfg ws (flush_expired env (mb_flush_age_secs cfg) now s)"
| "writer_loop env cfg (Disconnected # ws) s = ([], flush_pending env s)"
| "writer_loop env cfg (Received now stamp cmd # ws) s =
     (let (r, s) = handle_command env cfg stamp cmd (flush_expired env (mb_flush_age_secs cfg) now s)
      in if cmd = Shutdown then ([r], s)
         else (let (rs, s) = writer_loop env cfg ws s in (r # rs, s)))"

definition writer_start :: "string \<Rightarrow> writer_state" where
  "writer_start t = \<lparr>ws_tenant = t, ws_pending = bt_empty, ws_known = {}, ws_log = []\<rparr>"

end
