(* ===== verification/Ingestion_Writer_Props.thy ===== *)
theory Ingestion_Writer_Props
  imports Ingestion_Writer
begin

text \<open>
  Properties of the writer thread. \<open>content k s\<close> is everything received for a (tenant, system,
  entity) that is in the log of storage calls or still buffered, each row with its columns; every
  step appends to it exactly the rows of the command it serves (\<open>writer_loop_content\<close>), so that
  rows are neither lost, duplicated, reordered, mixed across tenants nor inserted under another
  schema. The micro-batch bounds, the drain on exit, the stamping of every other command and the
  set of tables known to compaction follow the same way.
\<close>

subsection \<open>Content\<close>

definition tag :: "string list \<Rightarrow> cell_row list \<Rightarrow> (string list \<times> cell_row) list" where
  "tag columns rows = map (Pair columns) rows"

fun call_rows :: "batch_key \<Rightarrow> string \<times> store_call \<Rightarrow> (string list \<times> cell_row) list" where
  "call_rows k (t, Ingest_call sys ent columns rows) = (if k = (t, sys, ent) then tag columns rows else [])"
| "call_rows k (t, c) = []"

fun command_rows :: "batch_key \<Rightarrow> command \<Rightarrow> (string list \<times> cell_row) list" where
  "command_rows k (IngestRaw sys ent columns rows t) = (if k = (t, sys, ent) then tag columns rows else [])"
| "command_rows k c = []"

definition flushed :: "batch_key \<Rightarrow> store_log \<Rightarrow> (string list \<times> cell_row) list" where
  "flushed k log = concat (map (call_rows k) log)"

definition received :: "batch_key \<Rightarrow> command list \<Rightarrow> (string list \<times> cell_row) list" where
  "received k cmds = concat (map (command_rows k) cmds)"

definition buffered :: "batch_key \<Rightarrow> writer_state \<Rightarrow> (string list \<times> cell_row) list" where
  "buffered k s = (case bt_get (ws_pending s) k of None \<Rightarrow> [] | Some b \<Rightarrow> tag (pb_columns b) (pb_rows b))"

definition content :: "batch_key \<Rightarrow> writer_state \<Rightarrow> (string list \<times> cell_row) list" where
  "content k s = flushed k (ws_log s) @ buffered k s"

text \<open>The invariant: a sound map, batches keyed by their tenant and below the threshold.\<close>

definition writer_inv :: "micro_batch_config \<Rightarrow> writer_state \<Rightarrow> bool" where
  "writer_inv cfg s \<longleftrightarrow> bt_inv (ws_pending s) \<and>
     (\<forall>k b. bt_get (ws_pending s) k = Some b \<longrightarrow>
        pb_tenant b = fst k \<and> length (pb_rows b) < mb_flush_rows cfg)"

lemma flushed_simps [simp]: "flushed k [] = []" "flushed k (log @ [c]) = flushed k log @ call_rows k c"
  by (simp_all add: flushed_def)

lemma tag_append [simp]: "tag c (xs @ ys) = tag c xs @ tag c ys" "tag c [] = []"
  by (simp_all add: tag_def)

subsection \<open>Storage calls and flushes\<close>

lemma store_fields [simp]:
  "ws_pending (snd (store env c s)) = ws_pending s" "ws_known (snd (store env c s)) = ws_known s"
  "ws_tenant (snd (store env c s)) = ws_tenant s"
  "ws_log (snd (store env c s)) = ws_log s @ [(ws_tenant s, c)]"
  by (simp_all add: store_def Let_def)

lemma store_known_fields [simp]:
  "ws_pending (snd (store_known env sys ent c s)) = ws_pending s"
  "ws_tenant (snd (store_known env sys ent c s)) = ws_tenant s"
  "ws_log (snd (store_known env sys ent c s)) = ws_log s @ [(ws_tenant s, c)]"
  by (simp_all add: store_known_def store_def learn_def Let_def split: sum.split)

lemma set_tenant_fields [simp]:
  "ws_pending (set_tenant t s) = ws_pending s" "ws_tenant (set_tenant t s) = t"
  "ws_log (set_tenant t s) = ws_log s" "ws_known (set_tenant t s) = ws_known s"
  by (simp_all add: set_tenant_def)

lemma flush_batch_fields [simp]:
  "ws_pending (snd (flush_batch env (t, sys, ent) b s)) = ws_pending s"
  "ws_log (snd (flush_batch env (t, sys, ent) b s)) =
     ws_log s @ [(pb_tenant b, Ingest_call sys ent (pb_columns b) (pb_rows b))]"
  by (simp_all add: flush_batch_def Let_def)

lemma flush_key_pending:
  "bt_inv (ws_pending s) \<Longrightarrow> bt_inv (ws_pending (flush_key env k s)) \<and>
     bt_get (ws_pending (flush_key env k s)) k' = (if k' = k then None else bt_get (ws_pending s) k')"
  by (cases k) (simp add: flush_key_def bt.inv_remove bt.lookup_remove split: option.split)

lemma flush_key_inv: "writer_inv cfg s \<Longrightarrow> writer_inv cfg (flush_key env k s)"
  using flush_key_pending by (auto simp: writer_inv_def split: if_splits)

lemma flush_key_content:
  assumes "writer_inv cfg s"
  shows "content k' (flush_key env k s) = content k' s"
proof (cases "bt_get (ws_pending s) k")
  case None
  then show ?thesis by (simp add: flush_key_def)
next
  case (Some b)
  obtain t sys ent where k: "k = (t, sys, ent)" by (cases k)
  from assms Some have "pb_tenant b = t" "bt_inv (ws_pending s)" by (auto simp: writer_inv_def k)
  with Some show ?thesis
    by (auto simp: content_def buffered_def flush_key_def k bt.lookup_remove)
qed

lemma fold_flush_key:
  assumes "writer_inv cfg s"
  shows "writer_inv cfg (fold (flush_key env) ks s) \<and>
    content k (fold (flush_key env) ks s) = content k s \<and>
    bt_get (ws_pending (fold (flush_key env) ks s)) k = (if k \<in> set ks then None else bt_get (ws_pending s) k)"
  using assms
proof (induction ks arbitrary: s)
  case Nil
  then show ?case by simp
next
  case (Cons x xs)
  have "bt_inv (ws_pending s)" using Cons.prems by (simp add: writer_inv_def)
  with Cons.IH [OF flush_key_inv [OF Cons.prems]] flush_key_content [OF Cons.prems] flush_key_pending
  show ?case by simp
qed

lemma flush_some_props:
  assumes "writer_inv cfg s"
  shows "writer_inv cfg (flush_some env P s)"
    and "content k (flush_some env P s) = content k s"
    and "bt_get (ws_pending (flush_some env P s)) k =
      (case bt_get (ws_pending s) k of None \<Rightarrow> None | Some b \<Rightarrow> if P b then None else Some b)"
proof -
  let ?ks = "map fst (filter (\<lambda>(k, b). P b) (ws_pending s))"
  note f = fold_flush_key [OF assms, of env ?ks k]
  show "writer_inv cfg (flush_some env P s)" "content k (flush_some env P s) = content k s"
    using f by (simp_all add: flush_some_def)
  have "bt_inv (ws_pending s)" using assms by (simp add: writer_inv_def)
  from bt.entries_iff [OF this, of k] have "k \<in> set ?ks \<longleftrightarrow> (\<exists>b. bt_get (ws_pending s) k = Some b \<and> P b)"
    by force
  with f show "bt_get (ws_pending (flush_some env P s)) k =
      (case bt_get (ws_pending s) k of None \<Rightarrow> None | Some b \<Rightarrow> if P b then None else Some b)"
    by (auto simp: flush_some_def split: option.split)
qed

lemma flush_pending_props:
  assumes "writer_inv cfg s"
  shows "writer_inv cfg (flush_pending env s)" "content k (flush_pending env s) = content k s"
    and "ws_pending (flush_pending env s) = []"
proof -
  have "bt_get (ws_pending (flush_pending env s)) k = None" for k
    using flush_some_props(3) [OF assms] by (simp add: flush_pending_def split: option.split)
  then show "ws_pending (flush_pending env s) = []"
    by (cases "ws_pending (flush_pending env s)") (auto simp: fun_eq_iff, metis bt_get.simps(2) option.distinct(1) surj_pair)
qed (use flush_some_props [OF assms] in \<open>simp_all add: flush_pending_def\<close>)

lemma flush_expired_props:
  assumes "writer_inv cfg s"
  shows "writer_inv cfg (flush_expired env age now s)"
    and "content k (flush_expired env age now s) = content k s"
    and "bt_get (ws_pending (flush_expired env age now s)) k =
      (case bt_get (ws_pending s) k of None \<Rightarrow> None
       | Some b \<Rightarrow> if age \<noteq> 0 \<and> now - pb_since b \<ge> nanos age then None else Some b)"
  using assms flush_some_props [OF assms]
  by (auto simp: flush_expired_def split: option.split)

subsection \<open>Commands\<close>

text \<open>A step that logs calls other than inserts and leaves the buffers alone.\<close>

definition quiet :: "writer_state \<Rightarrow> writer_state \<Rightarrow> bool" where
  "quiet s s' \<longleftrightarrow> ws_pending s' = ws_pending s \<and> (\<forall>k. flushed k (ws_log s') = flushed k (ws_log s))"

lemma quiet_props:
  assumes "quiet s s'"
  shows "writer_inv cfg s' = writer_inv cfg s" and "content k s' = content k s"
proof -
  from assms have "ws_pending s' = ws_pending s" and "flushed k (ws_log s') = flushed k (ws_log s)"
    unfolding quiet_def by blast+
  then show "writer_inv cfg s' = writer_inv cfg s" and "content k s' = content k s"
    by (simp_all add: writer_inv_def content_def buffered_def)
qed

lemma quiet_refl: "quiet s s"
  by (simp add: quiet_def)

lemma quiet_trans: "quiet s s' \<Longrightarrow> quiet s' s'' \<Longrightarrow> quiet s s''"
  by (simp add: quiet_def)

lemma quiet_last_error:
  assumes "\<And>k t. call_rows k (t, c) = []"
  shows "quiet (snd ls) (snd (last_error env c ls))"
proof -
  have "snd (last_error env c ls) = snd (store env c (snd ls))"
    by (simp add: last_error_def store_def Let_def split: sum.split)
  then show ?thesis by (simp add: quiet_def assms del: split_paired_All)
qed

lemma quiet_fold_compact: "quiet (snd ls) (snd (fold (\<lambda>(sys, ent). last_error env (Compact_call sys ent)) ts ls))"
proof (induction ts arbitrary: ls)
  case Nil
  then show ?case by (simp add: quiet_refl)
next
  case (Cons t ts)
  obtain sys ent where t: "t = (sys, ent)" by (cases t)
  have "quiet (snd ls) (snd (last_error env (Compact_call sys ent) ls))"
    by (rule quiet_last_error) simp
  from quiet_trans [OF this Cons.IH] show ?case by (simp add: t)
qed

lemma compact_all_quiet: "quiet (flush_pending env s) (snd (compact_all env days s))"
proof -
  let ?ls = "fold (\<lambda>(sys, ent). last_error env (Compact_call sys ent)) (se_order env (ws_known (flush_pending env s)))
    (Inr (), flush_pending env s)"
  have "quiet (flush_pending env s) (snd ?ls)"
    using quiet_fold_compact [of "(Inr (), flush_pending env s)"] by simp
  moreover have "quiet (snd ?ls) (snd (last_error env (Expire_call days) ?ls))"
    by (rule quiet_last_error) simp
  moreover have "quiet (snd (last_error env (Expire_call days) ?ls))
      (snd (last_error env (Orphans_call days) (last_error env (Expire_call days) ?ls)))"
    by (rule quiet_last_error) simp
  ultimately show ?thesis
    unfolding compact_all_def Let_def by (blast intro: quiet_trans)
qed

lemma schema_flush_props:
  assumes "writer_inv cfg s"
  shows "writer_inv cfg (schema_flush env key columns s)"
    and "content k (schema_flush env key columns s) = content k s"
    and "bt_get (ws_pending (schema_flush env key columns s)) key = Some b \<Longrightarrow> pb_columns b = columns"
  using assms flush_key_inv [OF assms] flush_key_content [OF assms] flush_key_pending [where s = s and env = env and k = key]
  by (auto simp: schema_flush_def writer_inv_def split: option.splits if_splits)

lemma ingest_raw_props:
  assumes "writer_inv cfg s"
  shows "writer_inv cfg (snd (ingest_raw env cfg stamp sys ent columns rows tenant s))"
    and "content k (snd (ingest_raw env cfg stamp sys ent columns rows tenant s)) =
      content k s @ command_rows k (IngestRaw sys ent columns rows tenant)"
proof -
  have inv: "writer_inv cfg (set_tenant tenant s)" and cont: "content k (set_tenant tenant s) = content k s" for k
    using assms by (simp_all add: writer_inv_def content_def buffered_def)
  let ?key = "(tenant, sys, ent)"
  let ?s = "schema_flush env ?key columns (set_tenant tenant s)"
  let ?b = "buffer_rows ?key tenant columns rows stamp ?s"
  note sf = schema_flush_props [OF inv, where env = env and key = ?key and columns = columns]
  have b: "pb_tenant ?b = tenant" "pb_columns ?b = columns"
    "tag columns (pb_rows ?b) = buffered ?key ?s @ tag columns rows"
    using sf by (auto simp: buffer_rows_def Let_def buffered_def writer_inv_def split: option.splits)
  have bi: "bt_inv (ws_pending ?s)" using sf(1) by (simp add: writer_inv_def)
  have c: "content k ?s = content k s" using sf(2) cont by simp
  show "writer_inv cfg (snd (ingest_raw env cfg stamp sys ent columns rows tenant s))"
    using sf(1) b(1) assms bi
    by (auto simp: ingest_raw_def Let_def writer_inv_def bt.inv_insert bt.inv_remove bt.lookup_insert bt.lookup_remove
        split: if_splits)
  show "content k (snd (ingest_raw env cfg stamp sys ent columns rows tenant s)) =
      content k s @ command_rows k (IngestRaw sys ent columns rows tenant)"
  proof (cases "mb_flush_rows cfg = 0")
    case True
    with assms have "buffered k s = []" for k
      by (cases "bt_get (ws_pending s) k") (auto simp: writer_inv_def buffered_def simp del: split_paired_All)
    with True show ?thesis
      by (auto simp: ingest_raw_def Let_def content_def buffered_def)
  next
    case False
    with c b bi show ?thesis
      by (auto simp: ingest_raw_def Let_def content_def buffered_def bt.inv_insert bt.lookup_insert bt.lookup_remove)
  qed
qed

lemma quiet_store: "(\<And>k t. call_rows k (t, c) = []) \<Longrightarrow> quiet s (snd (store env c (set_tenant t s)))"
  by (simp add: quiet_def del: split_paired_All)

lemma quiet_store_known: "(\<And>k t. call_rows k (t, c) = []) \<Longrightarrow> quiet s (snd (store_known env sys ent c (set_tenant t s)))"
  by (simp add: quiet_def del: split_paired_All)

lemma quiet_store_plain: "(\<And>k t. call_rows k (t, c) = []) \<Longrightarrow> quiet s (snd (store env c s))"
  by (simp add: quiet_def del: split_paired_All)

text \<open>Every other arm leaves the buffers alone, or drains them first.\<close>

lemma handle_command_props:
  assumes "writer_inv cfg s"
  shows "writer_inv cfg (snd (handle_command env cfg stamp cmd s)) \<and>
    content k (snd (handle_command env cfg stamp cmd s)) = content k s @ command_rows k cmd"
proof -
  have q: ?thesis if "quiet s (snd (handle_command env cfg stamp cmd s))" "command_rows k cmd = []"
    using that assms quiet_props [OF that(1)] by simp
  show ?thesis
  proof (cases cmd)
    case (IngestRaw sys ent columns rows tenant)
    with ingest_raw_props [OF assms] show ?thesis by simp
  next
    case (CompactAll days)
    with quiet_props [OF compact_all_quiet]
      flush_pending_props [OF assms] show ?thesis by simp
  next
    case (ReadCdcOffset source)
    then show ?thesis by (intro q) (simp_all add: quiet_def Let_def del: split_paired_All)
  next
    case Shutdown
    with flush_pending_props [OF assms] show ?thesis by simp
  qed (intro q; simp add: quiet_store quiet_store_known quiet_store_plain)+
qed

lemma handle_shutdown_empty:
  "writer_inv cfg s \<Longrightarrow> ws_pending (snd (handle_command env cfg stamp Shutdown s)) = []"
  by (simp add: flush_pending_props)

subsection \<open>The loop\<close>

text \<open>The commands the loop serves, and whether it has exited.\<close>

fun served :: "wake list \<Rightarrow> command list" where
  "served [] = []"
| "served (Timeout now # ws) = served ws"
| "served (Disconnected # ws) = []"
| "served (Received now stamp cmd # ws) = (if cmd = Shutdown then [cmd] else cmd # served ws)"

fun exits :: "wake list \<Rightarrow> bool" where
  "exits [] \<longleftrightarrow> False"
| "exits (Timeout now # ws) \<longleftrightarrow> exits ws"
| "exits (Disconnected # ws) \<longleftrightarrow> True"
| "exits (Received now stamp cmd # ws) \<longleftrightarrow> cmd = Shutdown \<or> exits ws"

lemma received_simps [simp]:
  "received k [] = []" "received k (c # cs) = command_rows k c @ received k cs"
  by (simp_all add: received_def)

lemma writer_loop_content:
  assumes "writer_inv cfg s"
  shows "writer_inv cfg (snd (writer_loop env cfg ws s)) \<and>
    content k (snd (writer_loop env cfg ws s)) = content k s @ received k (served ws) \<and>
    (exits ws \<longrightarrow> ws_pending (snd (writer_loop env cfg ws s)) = []) \<and>
    length (fst (writer_loop env cfg ws s)) = length (served ws)"
  using assms
proof (induction env cfg ws s rule: writer_loop.induct)
  case (1 env cfg s)
  then show ?case by simp
next
  case (2 env cfg now ws s)
  with flush_expired_props [OF "2.prems"] show ?case by simp
next
  case (3 env cfg ws s)
  with flush_pending_props [OF "3.prems"] show ?case by simp
next
  case (4 env cfg now stamp cmd ws s)
  note fe = flush_expired_props [OF "4.prems", where env = env and age = "mb_flush_age_secs cfg" and now = now]
  note h = handle_command_props [OF fe(1), where env = env and stamp = stamp and cmd = cmd]
  show ?case
  proof (cases "cmd = Shutdown")
    case True
    with h fe handle_shutdown_empty [OF fe(1)] show ?thesis
      by (simp add: Let_def case_prod_unfold)
  next
    case False
    with "4.IH" [OF refl prod.collapse False] h fe show ?thesis
      by (simp add: Let_def case_prod_unfold)
  qed
qed

lemma writer_start_inv: "writer_inv cfg (writer_start t)" "content k (writer_start t) = []"
  by (simp_all add: writer_inv_def writer_start_def content_def buffered_def bt.inv_empty bt.lookup_empty)

lemma writer_loop_received [simp]:
  "snd (writer_loop env cfg (Received now stamp cmd # ws) s) =
     (let s' = snd (handle_command env cfg stamp cmd (flush_expired env (mb_flush_age_secs cfg) now s))
      in if cmd = Shutdown then s' else snd (writer_loop env cfg ws s'))"
  by (simp add: Let_def case_prod_unfold)

lemma writer_loop_append:
  "\<not> exits ws \<Longrightarrow> snd (writer_loop env cfg (ws @ ws') s) = snd (writer_loop env cfg ws' (snd (writer_loop env cfg ws s)))"
proof (induction ws arbitrary: s)
  case (Cons w ws)
  then show ?case by (cases w) (simp_all add: Let_def del: writer_loop.simps(4))
qed simp

lemma writer_loop_exited:
  "exits ws \<Longrightarrow> snd (writer_loop env cfg (ws @ ws') s) = snd (writer_loop env cfg ws s)"
proof (induction ws arbitrary: s)
  case (Cons w ws)
  then show ?case by (cases w) (auto simp: Let_def simp del: writer_loop.simps(4))
qed simp

text \<open>A predicate on the state that flushing and every arm preserve holds along the loop; the arms need
  preserve it only for the commands that are served.\<close>

locale served_invariant =
  fixes inv :: "writer_state \<Rightarrow> bool" and ok :: "command \<Rightarrow> bool" and env :: store_env and cfg :: micro_batch_config
  assumes inv_flush: "inv s \<Longrightarrow> inv (flush_some env P s)"
    and inv_handle: "inv s \<Longrightarrow> ok cmd \<Longrightarrow> inv (snd (handle_command env cfg stamp cmd s))"
begin

lemma inv_expired: "inv s \<Longrightarrow> inv (flush_expired env age now s)"
  by (simp add: flush_expired_def inv_flush)

lemma inv_served: "inv s \<Longrightarrow> list_all ok (served ws) \<Longrightarrow> inv (snd (writer_loop env cfg ws s))"
proof (induction ws arbitrary: s)
  case (Cons w ws)
  then show ?case
    by (cases w) (simp_all add: Let_def flush_pending_def inv_expired inv_flush inv_handle del: writer_loop.simps(4)
      split: if_splits)
qed simp

end

locale writer_invariant =
  fixes inv :: "writer_state \<Rightarrow> bool" and env :: store_env and cfg :: micro_batch_config
  assumes inv_flush_some: "inv s \<Longrightarrow> inv (flush_some env P s)"
    and inv_handle_any: "inv s \<Longrightarrow> inv (snd (handle_command env cfg stamp cmd s))"

sublocale writer_invariant \<subseteq> every: served_invariant inv "\<lambda>cmd. True" env cfg
  by unfold_locales (rule inv_flush_some inv_handle_any; assumption)+

context writer_invariant
begin

lemma inv_loop: "inv s \<Longrightarrow> inv (snd (writer_loop env cfg ws s))"
  by (rule every.inv_served) (simp_all add: list_all_iff)

end

interpretation batches: writer_invariant "writer_inv cfg" env cfg
  by unfold_locales (use flush_some_props handle_command_props in blast)+

end
