(* ===== verification/Ingestion_Writer_Log.thy ===== *)
theory Ingestion_Writer_Log
  imports Ingestion_Writer_Props
begin

text \<open>
  What the log of storage calls of the writer thread holds besides rows: the tables known to
  compaction are those some call wrote successfully, and every call made on behalf of a command
  carries that command's tenant. The properties of the writer are stated last.
\<close>

subsection \<open>Known tables and stamps\<close>

fun call_table :: "store_call \<Rightarrow> (string \<times> string) option" where
  "call_table (Ingest_call sys ent columns rows) = Some (sys, ent)"
| "call_table (Upsert_call sys ent columns key rows) = Some (sys, ent)"
| "call_table (Delete_call sys ent key keys) = Some (sys, ent)"
| "call_table (Cdc_call b) = Some (sb_system b, sb_entity b)"
| "call_table c = None"

text \<open>The tables some call of the log wrote successfully.\<close>

definition successes :: "store_env \<Rightarrow> store_log \<Rightarrow> (string \<times> string) set" where
  "successes env log = {te. \<exists>n < length log. call_table (snd (log ! n)) = Some te \<and> is_ok (se_count env (take (Suc n) log))}"

lemma successes_Nil [simp]: "successes env [] = {}"
  by (simp add: successes_def)

lemma successes_snoc:
  "successes env (log @ [(t, c)]) = successes env log \<union>
     (if is_ok (se_count env (log @ [(t, c)])) then set_option (call_table c) else {})"
proof -
  have "(\<exists>n < length (log @ [(t, c)]). P n) \<longleftrightarrow> (\<exists>n < length log. P n) \<or> P (length log)" for P
    by (auto simp: less_Suc_eq)
  then show ?thesis
    unfolding successes_def by (auto simp: nth_append intro: exI [of _ "length log"])
qed

definition known_ok :: "store_env \<Rightarrow> writer_state \<Rightarrow> bool" where
  "known_ok env s \<longleftrightarrow> ws_known s = successes env (ws_log s)"

lemma known_ok_tenant [simp]: "known_ok env (set_tenant t s) = known_ok env s"
  by (simp add: known_ok_def)

lemma known_ok_pending [simp]: "known_ok env (s\<lparr>ws_pending := p\<rparr>) = known_ok env s"
  by (simp add: known_ok_def)

lemma known_ok_store: "known_ok env s \<Longrightarrow> call_table c = None \<Longrightarrow> known_ok env (snd (store env c s))"
  by (simp add: known_ok_def successes_snoc)

lemma known_ok_store_known:
  "known_ok env s \<Longrightarrow> call_table c = Some (sys, ent) \<Longrightarrow> known_ok env (snd (store_known env sys ent c s))"
  by (auto simp: known_ok_def store_known_def store_def learn_def Let_def successes_snoc split: sum.split)

lemma known_ok_flush_batch: "known_ok env s \<Longrightarrow> known_ok env (snd (flush_batch env k b s))"
  by (cases k) (simp add: flush_batch_def Let_def known_ok_store_known)

lemma known_ok_flush_key: "known_ok env s \<Longrightarrow> known_ok env (flush_key env k s)"
  by (simp add: flush_key_def known_ok_flush_batch split: option.split)

lemma known_ok_flush_some: "known_ok env s \<Longrightarrow> known_ok env (flush_some env P s)"
proof -
  have "known_ok env s \<Longrightarrow> known_ok env (fold (flush_key env) ks s)" for ks
    by (induction ks arbitrary: s) (simp_all add: known_ok_flush_key)
  then show "known_ok env s \<Longrightarrow> known_ok env (flush_some env P s)" by (simp add: flush_some_def)
qed

lemma known_ok_last_error:
  assumes "known_ok env (snd ls)" "call_table c = None"
  shows "known_ok env (snd (last_error env c ls))"
proof -
  have "snd (last_error env c ls) = snd (store env c (snd ls))"
    by (simp add: last_error_def store_def Let_def split: sum.split)
  with known_ok_store [OF assms] show ?thesis by simp
qed

lemma known_ok_compact:
  assumes "known_ok env s"
  shows "known_ok env (snd (compact_all env days s))"
proof -
  have f: "known_ok env (snd (fold (\<lambda>(sys, ent). last_error env (Compact_call sys ent)) ts ls))"
    if "known_ok env (snd ls)" for ts ls
    using that
  proof (induction ts arbitrary: ls)
    case (Cons t ts)
    obtain sys ent where t: "t = (sys, ent)" by (cases t)
    have "known_ok env (snd (last_error env (Compact_call sys ent) ls))"
      by (rule known_ok_last_error [OF Cons.prems]) simp
    from Cons.IH [OF this] show ?case by (simp add: t)
  qed simp
  from assms have "known_ok env (flush_pending env s)"
    by (simp add: flush_pending_def known_ok_flush_some)
  then show ?thesis
    unfolding compact_all_def Let_def by (intro known_ok_last_error f) simp_all
qed

lemma known_ok_handle: "known_ok env s \<Longrightarrow> known_ok env (snd (handle_command env cfg stamp cmd s))"
proof (cases cmd)
  case (IngestRaw sys ent columns rows tenant)
  moreover assume "known_ok env s"
  moreover have "known_ok env s' \<Longrightarrow> known_ok env (schema_flush env key columns s')" for key s'
    by (simp add: schema_flush_def known_ok_flush_key split: option.split)
  ultimately show ?thesis
    by (auto simp: ingest_raw_def Let_def known_ok_store_known known_ok_flush_batch)
next
  case (ReadCdcOffset source)
  moreover assume "known_ok env s"
  ultimately show ?thesis by (simp add: Let_def known_ok_def successes_snoc)
qed (simp_all add: known_ok_store known_ok_store_known known_ok_compact flush_pending_def known_ok_flush_some)

interpretation known: writer_invariant "known_ok env" env cfg
  by unfold_locales (rule known_ok_flush_some known_ok_handle; assumption)+

text \<open>A logged call other than an insert or a maintenance call carries the tenant of a command.\<close>

fun stamped :: "command list \<Rightarrow> string \<times> store_call \<Rightarrow> bool" where
  "stamped cmds (t, Upsert_call sys ent columns key rows) \<longleftrightarrow> UpsertRaw sys ent columns key rows t \<in> set cmds"
| "stamped cmds (t, Delete_call sys ent key keys) \<longleftrightarrow> DeleteRaw sys ent key keys t \<in> set cmds"
| "stamped cmds (t, Materialize_call sql params key spec) \<longleftrightarrow> Materialize sql params key spec t \<in> set cmds"
| "stamped cmds (t, Features_call rows) \<longleftrightarrow> WriteFeatures rows t \<in> set cmds"
| "stamped cmds (t, Catalog_call rows) \<longleftrightarrow> WriteCatalog rows t \<in> set cmds"
| "stamped cmds (t, Suppression_call rows) \<longleftrightarrow> WriteSuppression rows t \<in> set cmds"
| "stamped cmds (t, Cdc_call b) \<longleftrightarrow> ApplyCdcBatch b t \<in> set cmds"
| "stamped cmds (t, c) \<longleftrightarrow> True"

definition log_adds :: "command list \<Rightarrow> writer_state \<Rightarrow> writer_state \<Rightarrow> bool" where
  "log_adds cmds s s' \<longleftrightarrow> (\<exists>cs. ws_log s' = ws_log s @ cs \<and> list_all (stamped cmds) cs)"

lemma log_adds_refl [simp]: "log_adds cmds s s"
  by (simp add: log_adds_def)

lemma log_adds_trans: "log_adds cmds s s' \<Longrightarrow> log_adds cmds s' s'' \<Longrightarrow> log_adds cmds s s''"
  by (auto simp: log_adds_def)

lemma stamped_mono: "set cmds \<subseteq> set cmds' \<Longrightarrow> stamped cmds x \<Longrightarrow> stamped cmds' x"
  by (induction cmds x rule: stamped.induct) auto

lemma log_adds_mono: "log_adds cmds s s' \<Longrightarrow> set cmds \<subseteq> set cmds' \<Longrightarrow> log_adds cmds' s s'"
  using stamped_mono by (fastforce simp: log_adds_def list_all_iff)

lemma log_adds_store: "stamped cmds (ws_tenant s, c) \<Longrightarrow> log_adds cmds s (snd (store env c s))"
  by (simp add: log_adds_def)

lemma log_adds_flush_key: "log_adds cmds s (flush_key env k s)"
  by (cases k) (simp add: log_adds_def flush_key_def split: option.split)

lemma log_adds_flush_some: "log_adds cmds s (flush_some env P s)"
proof -
  have "log_adds cmds s (fold (flush_key env) ks s)" for ks
    by (induction ks arbitrary: s) (auto intro: log_adds_trans log_adds_flush_key)
  then show ?thesis by (simp add: flush_some_def)
qed

lemma log_adds_last_error:
  assumes "\<And>t. stamped cmds (t, c)"
  shows "log_adds cmds (snd ls) (snd (last_error env c ls))"
proof -
  have "snd (last_error env c ls) = snd (store env c (snd ls))"
    by (simp add: last_error_def store_def Let_def split: sum.split)
  then show ?thesis using assms by (simp add: log_adds_store)
qed

lemma log_adds_compact: "log_adds cmds s (snd (compact_all env days s))"
proof -
  have f: "log_adds cmds (snd ls) (snd (fold (\<lambda>(sys, ent). last_error env (Compact_call sys ent)) ts ls))" for ts ls
  proof (induction ts arbitrary: ls)
    case (Cons t ts)
    obtain sys ent where t: "t = (sys, ent)" by (cases t)
    have "log_adds cmds (snd ls) (snd (last_error env (Compact_call sys ent) ls))"
      by (rule log_adds_last_error) simp
    from log_adds_trans [OF this Cons.IH] show ?case by (simp add: t)
  qed simp
  let ?s = "flush_pending env s"
  let ?ls = "fold (\<lambda>(sys, ent). last_error env (Compact_call sys ent)) (se_order env (ws_known ?s)) (Inr (), ?s)"
  let ?le = "last_error env (Expire_call days) ?ls"
  have a: "log_adds cmds s ?s"
    by (simp add: flush_pending_def log_adds_flush_some)
  have b: "log_adds cmds ?s (snd ?ls)"
    using f [of "(Inr (), ?s)"] by simp
  have c: "log_adds cmds (snd ?ls) (snd ?le)"
    by (rule log_adds_last_error) simp
  have d: "log_adds cmds (snd ?le) (snd (last_error env (Orphans_call days) ?le))"
    by (rule log_adds_last_error) simp
  show ?thesis
    unfolding compact_all_def Let_def
    by (rule log_adds_trans [OF log_adds_trans [OF a b] log_adds_trans [OF c d]])
qed

lemma log_adds_ingest: "log_adds cmds s (snd (ingest_raw env cfg stamp sys ent columns rows tenant s))"
proof -
  let ?key = "(tenant, sys, ent)"
  let ?s = "schema_flush env ?key columns (set_tenant tenant s)"
  have "log_adds cmds (set_tenant tenant s) ?s"
    by (simp add: schema_flush_def log_adds_flush_key split: option.split)
  then obtain cs where cs: "ws_log ?s = ws_log s @ cs" "list_all (stamped cmds) cs"
    by (auto simp: log_adds_def)
  then show ?thesis
    by (auto simp: ingest_raw_def Let_def log_adds_def)
qed

lemma log_adds_handle: "log_adds [cmd] s (snd (handle_command env cfg stamp cmd s))"
proof (cases cmd)
  case (IngestRaw sys ent columns rows tenant)
  then show ?thesis by (simp add: log_adds_ingest)
next
  case (CompactAll days)
  then show ?thesis by (simp add: log_adds_compact)
next
  case Shutdown
  then show ?thesis by (simp add: flush_pending_def log_adds_flush_some)
qed (simp_all add: log_adds_def Let_def)

lemma log_adds_loop: "log_adds (served ws) s (snd (writer_loop env cfg ws s))"
proof (induction env cfg ws s rule: writer_loop.induct)
  case (1 env cfg s)
  then show ?case by simp
next
  case (2 env cfg now ws s)
  have "log_adds (served ws) s (flush_expired env (mb_flush_age_secs cfg) now s)"
    by (simp add: flush_expired_def log_adds_flush_some)
  from log_adds_trans [OF this 2] show ?case by simp
next
  case (3 env cfg ws s)
  then show ?case by (simp add: flush_pending_def log_adds_flush_some)
next
  case (4 env cfg now stamp cmd ws s)
  let ?cs = "served (Received now stamp cmd # ws)"
  let ?s = "flush_expired env (mb_flush_age_secs cfg) now s"
  have "log_adds ?cs s ?s"
    by (simp add: flush_expired_def log_adds_flush_some)
  moreover have "log_adds ?cs ?s (snd (handle_command env cfg stamp cmd ?s))"
    by (rule log_adds_mono [OF log_adds_handle]) simp
  ultimately have here: "log_adds ?cs s (snd (handle_command env cfg stamp cmd ?s))"
    by (rule log_adds_trans)
  show ?case
  proof (cases "cmd = Shutdown")
    case True
    with here show ?thesis by (simp add: Let_def case_prod_unfold)
  next
    case False
    from log_adds_mono [OF "4.IH" [OF refl prod.collapse False], of ?cs] False
    have "log_adds ?cs (snd (handle_command env cfg stamp cmd ?s))
        (snd (writer_loop env cfg ws (snd (handle_command env cfg stamp cmd ?s))))" by auto
    from log_adds_trans [OF here this] False show ?thesis
      by (simp add: Let_def case_prod_unfold)
  qed
qed

subsection \<open>Compaction\<close>

text \<open>The calls a compaction makes after the drain, under the tenant the drain leaves.\<close>

definition compaction_calls :: "nat \<Rightarrow> (string \<times> string) list \<Rightarrow> store_call list" where
  "compaction_calls days tables =
     map (\<lambda>(sys, ent). Compact_call sys ent) tables @ [Expire_call days, Orphans_call days]"

fun call_results :: "store_env \<Rightarrow> store_log \<Rightarrow> store_log \<Rightarrow> (core_error, nat) result list" where
  "call_results env log [] = []"
| "call_results env log (c # cs) = se_count env (log @ [c]) # call_results env (log @ [c]) cs"

definition last_failure :: "(core_error, nat) result list \<Rightarrow> (core_error, unit) result" where
  "last_failure rs = (if list_all is_ok rs then Inr () else as_unit (last (filter (\<lambda>r. \<not> is_ok r) rs)))"

lemma last_failure_Nil [simp]: "last_failure [] = Inr ()"
  by (simp add: last_failure_def)

lemma last_failure_snoc: "last_failure (rs @ [r]) = (if is_ok r then last_failure rs else as_unit r)"
  by (auto simp: last_failure_def)

lemma call_results_snoc [simp]:
  "call_results env log (cs @ [c]) = call_results env log cs @ [se_count env (log @ cs @ [c])]"
  by (induction cs arbitrary: log) simp_all

text \<open>What a sequence of such calls has done after starting in \<open>s\<close>.\<close>

definition ran :: "store_env \<Rightarrow> writer_state \<Rightarrow> store_call list \<Rightarrow> (core_error, unit) result \<times> writer_state \<Rightarrow> bool" where
  "ran env s cs ls \<longleftrightarrow> ws_log (snd ls) = ws_log s @ map (Pair (ws_tenant s)) cs \<and> ws_tenant (snd ls) = ws_tenant s \<and>
     fst ls = last_failure (call_results env (ws_log s) (map (Pair (ws_tenant s)) cs))"

lemma ran_step:
  assumes "ran env s cs ls"
  shows "ran env s (cs @ [c]) (last_error env c ls)"
proof -
  have "snd (last_error env c ls) = snd (store env c (snd ls))"
    by (simp add: last_error_def store_def Let_def split: sum.split)
  moreover have "fst (last_error env c ls) = (case se_count env (ws_log (snd ls) @ [(ws_tenant (snd ls), c)]) of
      Inl e \<Rightarrow> Inl e | Inr n \<Rightarrow> fst ls)"
    by (simp add: last_error_def store_def Let_def split: sum.split)
  ultimately show ?thesis
    using assms
    by (auto simp: ran_def last_failure_snoc as_unit_def split: sum.split)
qed

lemma ran_tables:
  "ran env s cs ls \<Longrightarrow> ran env s (cs @ map (\<lambda>(sys, ent). Compact_call sys ent) ts)
     (fold (\<lambda>(sys, ent). last_error env (Compact_call sys ent)) ts ls)"
proof (induction ts arbitrary: cs ls)
  case (Cons t ts)
  obtain sys ent where t: "t = (sys, ent)" by (cases t)
  from Cons.IH [OF ran_step [OF Cons.prems]] show ?case by (simp add: t)
qed simp

lemma ran_compact_all:
  "ran env (flush_pending env s) (compaction_calls days (se_order env (ws_known (flush_pending env s))))
     (compact_all env days s)"
proof -
  let ?s = "flush_pending env s"
  have "ran env ?s [] (Inr (), ?s)" by (simp add: ran_def)
  from ran_step [OF ran_step [OF ran_tables [OF this]], where c1 = "Expire_call days" and c = "Orphans_call days"]
  show ?thesis by (simp add: compact_all_def Let_def compaction_calls_def)
qed

end
