(* ===== verification/Ingestion_Writer_Spec.thy ===== *)
theory Ingestion_Writer_Spec
  imports Ingestion_Writer_Log
begin

text \<open>
  The properties of the writer thread, over every sequence of wakes from a freshly attached
  writer: conservation of rows, the two bounds on a micro-batch, tenant stamps, the tables
  compaction covers, and two orderings that the buffering changes.
\<close>

abbreviation run_writer ::
  "store_env \<Rightarrow> micro_batch_config \<Rightarrow> wake list \<Rightarrow> string \<Rightarrow> writer_state"
where
  "run_writer env cfg ws t \<equiv> snd (writer_loop env cfg ws (writer_start t))"

lemmas writer_run = writer_loop_content [OF writer_start_inv(1), unfolded writer_start_inv(2), simplified]

lemma run_writer_inv: "writer_inv cfg (run_writer env cfg ws t)"
  by (simp add: writer_run)

subsection \<open>A small run\<close>

definition all_ok :: store_env where
  "all_ok = \<lparr>se_count = (\<lambda>log. Inr 1), se_offsets = (\<lambda>log. Inr []), se_order = (\<lambda>S. [])\<rparr>"

definition none_ok :: store_env where
  "none_ok = \<lparr>se_count = (\<lambda>log. Inl WriterAlreadyHeld), se_offsets = (\<lambda>log. Inr []), se_order = (\<lambda>S. [])\<rparr>"

definition small_batches :: micro_batch_config where
  "small_batches = \<lparr>mb_flush_rows = 3, mb_flush_age_secs = 1\<rparr>"

definition one_row :: "string \<Rightarrow> string \<Rightarrow> command" where
  "one_row tenant v = IngestRaw ''crm'' ''users'' [''user_id''] [[Some v]] tenant"

text \<open>The state after a first ingest below the threshold.\<close>

definition held :: "string \<Rightarrow> string \<Rightarrow> string \<Rightarrow> string list \<Rightarrow> cell_row list \<Rightarrow> nat \<Rightarrow> writer_state" where
  "held tenant sys ent columns rows since = \<lparr>ws_tenant = tenant,
     ws_pending = [((tenant, sys, ent), \<lparr>pb_columns = columns, pb_rows = rows, pb_tenant = tenant, pb_since = since\<rparr>)],
     ws_known = {}, ws_log = []\<rparr>"

lemma flush_expired_start [simp]: "flush_expired env age now (writer_start t) = writer_start t"
  by (simp add: flush_expired_def flush_some_def writer_start_def bt_empty_def)

lemma ingest_start:
  "length rows < mb_flush_rows cfg \<Longrightarrow>
   ingest_raw env cfg stamp sys ent columns rows tenant (writer_start t) = (Inr 0, held tenant sys ent columns rows stamp)"
  by (simp add: ingest_raw_def schema_flush_def buffer_rows_def held_def writer_start_def set_tenant_def Let_def bt_empty_def)

lemma flush_held:
  "flush_some env P (held tenant sys ent columns rows since) =
     (if P \<lparr>pb_columns = columns, pb_rows = rows, pb_tenant = tenant, pb_since = since\<rparr>
      then snd (store_known env sys ent (Ingest_call sys ent columns rows) (writer_start tenant))
      else held tenant sys ent columns rows since)"
  by (simp add: flush_some_def held_def flush_key_def flush_batch_def set_tenant_def writer_start_def bt_empty_def)

lemma drained: "ws_pending s = [] \<Longrightarrow> flush_some env P s = s"
  by (simp add: flush_some_def)

lemma flush_held_twice:
  "flush_pending env (flush_expired env age now (held tenant sys ent columns rows since)) =
     snd (store_known env sys ent (Ingest_call sys ent columns rows) (writer_start tenant))"
  by (simp add: flush_pending_def flush_expired_def flush_held drained writer_start_def bt_empty_def)

subsection \<open>Rows\<close>

text \<open>C12: Conservation. Whatever the storage calls return, the rows handed to storage for a
  (tenant, system, entity), followed by those still buffered, are exactly the rows received for it,
  in order, each under the columns it came with; once the loop has left, nothing is buffered; and
  each command served is answered once.\<close>

theorem writer_conserves_rows:
  "flushed k (ws_log (run_writer env cfg ws t)) @ buffered k (run_writer env cfg ws t) = received k (served ws) \<and>
   (exits ws \<longrightarrow> ws_pending (run_writer env cfg ws t) = []) \<and>
   length (fst (writer_loop env cfg ws (writer_start t))) = length (served ws)"
  using writer_run [where env = env and cfg = cfg and ws = ws and t = t and k = k] by (simp add: content_def)

theorem writer_conserves_rows_witness:
  "let s = run_writer all_ok small_batches
       [Received 0 0 (one_row ''a'' ''1''), Received 0 0 (one_row ''b'' ''2''), Received 0 0 (one_row ''a'' ''3''),
        Received 0 0 Shutdown] ''x'';
       k = (''a'', ''crm'', ''users'')
   in ws_pending s = [] \<and> flushed k (ws_log s) @ buffered k s = [([''user_id''], [Some ''1'']), ([''user_id''], [Some ''3''])]"
  using writer_conserves_rows [where k = "(''a'', ''crm'', ''users'')" and env = all_ok and cfg = small_batches
      and ws = "[Received 0 0 (one_row ''a'' ''1''), Received 0 0 (one_row ''b'' ''2''), Received 0 0 (one_row ''a'' ''3''),
        Received 0 0 Shutdown]" and t = "''x''"]
  by (simp add: Let_def one_row_def tag_def del: writer_loop.simps writer_loop_received)

text \<open>A batch never outgrows its threshold: what is buffered belongs to the tenant of its key
  and has fewer than \<open>flush_rows\<close> rows.\<close>

theorem writer_batches_bounded:
  assumes "bt_get (ws_pending (run_writer env cfg ws t)) (tenant, sys, ent) = Some b"
  shows "pb_tenant b = tenant \<and> length (pb_rows b) < mb_flush_rows cfg"
  using run_writer_inv [of cfg env ws t] assms by (auto simp: writer_inv_def)

theorem writer_batches_bounded_witness:
  "pb_tenant \<lparr>pb_columns = [''user_id''], pb_rows = [[Some ''1'']], pb_tenant = ''a'', pb_since = 0\<rparr> = ''a'' \<and>
   length (pb_rows \<lparr>pb_columns = [''user_id''], pb_rows = [[Some ''1'']], pb_tenant = ''a'', pb_since = 0\<rparr>) < mb_flush_rows small_batches"
  by (rule writer_batches_bounded [where env = all_ok and ws = "[Received 0 0 (one_row ''a'' ''1'')]" and t = "''x''"
        and sys = "''crm''" and ent = "''users''"])
    (simp add: one_row_def ingest_start held_def small_batches_def Let_def)

text \<open>Freshness. After the wake at instant \<open>now\<close> that only the clock caused, no batch is left
  that has been buffered for the configured age.\<close>

theorem writer_flushes_by_age:
  assumes "mb_flush_age_secs cfg \<noteq> 0"
    and "bt_get (ws_pending (run_writer env cfg (ws @ [Timeout now]) t)) k = Some b"
    and "\<not> exits ws"
  shows "now - pb_since b < nanos (mb_flush_age_secs cfg)"
  using flush_expired_props(3) [OF run_writer_inv [of cfg env ws t], where env = env and age = "mb_flush_age_secs cfg"
      and now = now and k = k] assms
  by (simp add: writer_loop_append not_le split: option.splits if_splits)

theorem writer_flushes_by_age_witness:
  "7000000000 - pb_since \<lparr>pb_columns = [''user_id''], pb_rows = [[Some ''1'']], pb_tenant = ''a'', pb_since = 6500000000\<rparr>
     < nanos (mb_flush_age_secs small_batches)"
  by (rule writer_flushes_by_age [where env = all_ok and ws = "[Received 6400000000 6500000000 (one_row ''a'' ''1'')]"
        and t = "''x''" and k = "(''a'', ''crm'', ''users'')"])
    (simp_all add: one_row_def ingest_start small_batches_def Let_def,
     simp add: flush_expired_def flush_held nanos_def, simp add: held_def)

subsection \<open>Tenants and tables\<close>

text \<open>Every call the writer makes to upsert, delete, materialise, apply a CDC batch or write
  feature, catalogue or suppression rows is one of the commands served, stamped with the tenant
  that command names, whatever commands of other tenants and drains came before it.\<close>

theorem writer_stamps_tenant: "list_all (stamped (served ws)) (ws_log (run_writer env cfg ws t))"
  using log_adds_loop [of ws "writer_start t" env cfg] by (auto simp: log_adds_def writer_start_def)

text \<open>The tables the writer knows are those that some storage call wrote successfully.\<close>

theorem writer_known_tables:
  "ws_known (run_writer env cfg ws t) = successes env (ws_log (run_writer env cfg ws t))"
  using known.inv_loop [of env "writer_start t" cfg ws] by (simp add: known_ok_def writer_start_def)


subsection \<open>What buffering changes\<close>

text \<open>An ingest below the threshold is answered as a success before anything is stored, and a
  shutdown is acknowledged whatever the drain's insert returns: the replies do not depend on the
  storage, the single insert was handed to it once and nothing is kept to try again, so a drain
  that fails loses rows that were acknowledged.\<close>

theorem shutdown_hides_failed_drain:
  assumes "length rows < mb_flush_rows cfg"
  shows "(let (replies, s) = writer_loop env cfg
             [Received n m (IngestRaw sys ent columns rows tenant), Received n' m' Shutdown] (writer_start t)
          in replies = [Reply_count (Inr 0), Reply_ack] \<and> ws_pending s = [] \<and>
             ws_log s = [(tenant, Ingest_call sys ent columns rows)] \<and>
             (\<not> is_ok (se_count env (ws_log s)) \<longrightarrow> ws_known s = {}))"
  using assms
  by (simp add: ingest_start flush_held_twice Let_def)
    (simp add: writer_start_def store_known_def store_def learn_def bt_empty_def Let_def split: sum.split)

theorem shutdown_hides_failed_drain_witness:
  "(let (replies, s) = writer_loop none_ok small_batches
       [Received 0 0 (one_row ''a'' ''1''), Received 0 0 Shutdown] (writer_start ''a'')
    in replies = [Reply_count (Inr 0), Reply_ack] \<and> ws_pending s = [] \<and> ws_known s = {})"
  using shutdown_hides_failed_drain [where rows = "[[Some ''1'']]" and cfg = small_batches and env = none_ok and n = 0 and m = 0
      and sys = "''crm''" and ent = "''users''" and columns = "[''user_id'']" and tenant = "''a''" and n' = 0 and m' = 0 and t = "''a''"]
  by (simp add: small_batches_def none_ok_def one_row_def case_prod_unfold Let_def del: writer_loop.simps writer_loop_received)

text \<open>A keyed delete is not ordered after the rows buffered before it: with the age bound off
  the delete reaches the storage first, and the rows it names are inserted afterwards.\<close>

theorem delete_overtakes_buffered_rows:
  assumes "length rows < mb_flush_rows cfg" and "mb_flush_age_secs cfg = 0"
  shows "ws_log (run_writer env cfg
      [Received n m (IngestRaw sys ent columns rows tenant), Received n' m' (DeleteRaw sys ent key ks tenant),
       Received n'' m'' Shutdown] t) =
    [(tenant, Delete_call sys ent key ks), (tenant, Ingest_call sys ent columns rows)]"
  using assms
  by (simp add: ingest_start flush_expired_def Let_def flush_pending_def del: writer_loop.simps(4))
    (simp add: held_def flush_some_def flush_key_def flush_batch_def Let_def)

theorem delete_overtakes_buffered_rows_witness:
  "ws_log (run_writer all_ok \<lparr>mb_flush_rows = 3, mb_flush_age_secs = 0\<rparr>
      [Received 0 0 (one_row ''a'' ''1''), Received 0 0 (DeleteRaw ''crm'' ''users'' ''user_id'' [''1''] ''a''),
       Received 0 0 Shutdown] ''a'') =
    [(''a'', Delete_call ''crm'' ''users'' ''user_id'' [''1'']),
     (''a'', Ingest_call ''crm'' ''users'' [''user_id''] [[Some ''1'']])]"
  unfolding one_row_def by (rule delete_overtakes_buffered_rows) simp_all

end
