(* ===== verification/Ingestion_Cdc.thy ===== *)
theory Ingestion_Cdc
  imports Ingestion_Writer Json Core_Freshness Effects
begin

text \<open>
  \<open>crates/ingestion/src/{cdc,cdc_kafka}.rs\<close>: the source adapter contract, the pump that moves
  batches from an adapter to the writer, and the Kafka adapter with its Debezium mapping. An
  adapter is the record of its three methods over a state of its own; what the writer, the broker
  and the clock answer is the environment's choice.
\<close>

subsection \<open>Debezium envelopes\<close>

datatype envelope =
  Envelope (en_op: "string option") (en_after: "json option") (en_before: "json option") (en_payload: "envelope option")

record debezium_mapper =
  dm_system :: string
  dm_entity :: string
  dm_columns :: "string list"
  dm_key :: string

definition mapper_new :: "string \<Rightarrow> string \<Rightarrow> string list \<Rightarrow> string \<Rightarrow> debezium_mapper" where
  "mapper_new sys ent columns key = \<lparr>dm_system = sys, dm_entity = ent, dm_columns = columns, dm_key = key\<rparr>"

text \<open>\<open>show_json\<close> is the \<open>Display\<close> of a JSON value, \<open>serde_json\<close>'s.\<close>

definition cell_from_json :: "(json \<Rightarrow> string) \<Rightarrow> json \<Rightarrow> string option" where
  "cell_from_json show_json v =
     (case v of JNull \<Rightarrow> None | JString s \<Rightarrow> Some s | other \<Rightarrow> Some (show_json other))"

definition row_from_json :: "(json \<Rightarrow> string) \<Rightarrow> debezium_mapper \<Rightarrow> json \<Rightarrow> cell_row" where
  "row_from_json show_json m obj =
     map (\<lambda>c. Option.bind (json_get obj c) (cell_from_json show_json)) (dm_columns m)"

definition key_from_json :: "(json \<Rightarrow> string) \<Rightarrow> json \<Rightarrow> string" where
  "key_from_json show_json v = (case v of JString s \<Rightarrow> s | other \<Rightarrow> show_json other)"

definition map_envelope ::
  "(json \<Rightarrow> string) \<Rightarrow> debezium_mapper \<Rightarrow> envelope \<Rightarrow> int \<Rightarrow> int \<Rightarrow> source_batch"
where
  "map_envelope show_json m env0 part off =
     (let env = (case en_payload env0 of Some p \<Rightarrow> p | None \<Rightarrow> env0);
          change = en_op env;
          upserts = (if change \<in> {Some ''c'', Some ''u'', Some ''r'', None}
                     then (case en_after env of Some a \<Rightarrow> [row_from_json show_json m a] | None \<Rightarrow> []) else []);
          deletes = (if change = Some ''d''
                     then (case Option.bind (en_before env) (\<lambda>b. json_get b (dm_key m)) of
                             Some k \<Rightarrow> [key_from_json show_json k] | None \<Rightarrow> []) else [])
      in \<lparr>sb_system = dm_system m, sb_entity = dm_entity m, sb_columns = dm_columns m, sb_key = dm_key m,
          sb_upserts = upserts, sb_deletes = deletes, sb_offsets = [(part, off)]\<rparr>)"

subsection \<open>The Kafka adapter\<close>

definition MAX_BATCH_MESSAGES :: nat where
  "MAX_BATCH_MESSAGES = 500"

text \<open>What one turn of the receive loop meets: a message with its partition, offset and payload, a
  poll error, or the deadline.\<close>

datatype recv = Message int int "string option" | Poll_error | Deadline

record accumulated =
  ac_upserts :: "cell_row list"
  ac_deletes :: "string list"
  ac_offsets :: "(int, int) btree"

definition nothing_yet :: accumulated where
  "nothing_yet = \<lparr>ac_upserts = [], ac_deletes = [], ac_offsets = bt_empty\<rparr>"

text \<open>Tombstones and messages \<open>decode\<close> (\<open>serde_json::from_slice\<close>) rejects only move the offset.\<close>

definition take_message ::
  "(json \<Rightarrow> string) \<Rightarrow> (string \<Rightarrow> envelope option) \<Rightarrow> debezium_mapper \<Rightarrow> int \<Rightarrow> int \<Rightarrow> string option \<Rightarrow>
     accumulated \<Rightarrow> accumulated"
where
  "take_message show_json decode m part off payload acc =
     (let acc = acc\<lparr>ac_offsets := bt_insert part off (ac_offsets acc)\<rparr>
      in case Option.bind payload decode of
           None \<Rightarrow> acc
         | Some env \<Rightarrow>
             (let b = map_envelope show_json m env part off
              in acc\<lparr>ac_upserts := ac_upserts acc @ sb_upserts b, ac_deletes := ac_deletes acc @ sb_deletes b\<rparr>))"

text \<open>Returns the messages not taken too: the broker keeps them for the next batch.\<close>

fun receive_loop ::
  "(json \<Rightarrow> string) \<Rightarrow> (string \<Rightarrow> envelope option) \<Rightarrow> debezium_mapper \<Rightarrow> recv list \<Rightarrow> accumulated \<Rightarrow>
     accumulated \<times> recv list"
where
  "receive_loop show_json decode m [] acc = (acc, [])"
| "receive_loop show_json decode m (r # rs) acc =
     (if length (ac_upserts acc) + length (ac_deletes acc) \<ge> MAX_BATCH_MESSAGES then (acc, r # rs)
      else case r of
        Message part off payload \<Rightarrow>
          receive_loop show_json decode m rs (take_message show_json decode m part off payload acc)
      | _ \<Rightarrow> (acc, rs))"

definition next_batch ::
  "(json \<Rightarrow> string) \<Rightarrow> (string \<Rightarrow> envelope option) \<Rightarrow> debezium_mapper \<Rightarrow> recv list \<Rightarrow>
     (core_error, source_batch option) result \<times> recv list"
where
  "next_batch show_json decode m rs =
     (case receive_loop show_json decode m rs nothing_yet of
        (acc, rs) \<Rightarrow>
          (if ac_upserts acc = [] \<and> ac_deletes acc = [] \<and> ac_offsets acc = [] then (Inr None, rs)
           else (Inr (Some \<lparr>sb_system = dm_system m, sb_entity = dm_entity m, sb_columns = dm_columns m,
                   sb_key = dm_key m, sb_upserts = ac_upserts acc, sb_deletes = ac_deletes acc,
                   sb_offsets = ac_offsets acc\<rparr>), rs)))"

text \<open>\<open>resume\<close>: the assigned partitions that have a committed offset are sought to it, in the order of
  the assignment; the first failing seek ends it. \<open>assigned\<close> is what the wait for the assignment
  ended with, nothing when its ten seconds ran out.\<close>

fun resume_seeks :: "(int \<Rightarrow> int \<Rightarrow> (msg, unit) result) \<Rightarrow> (int \<times> int) list \<Rightarrow> int list \<Rightarrow> (core_error, (int \<times> int) list) result"
where
  "resume_seeks seek offsets [] = Inr []"
| "resume_seeks seek offsets (p # ps) =
     (case map_of offsets p of
        None \<Rightarrow> resume_seeks seek offsets ps
      | Some off \<Rightarrow>
          rbind (map_err (\<lambda>e. Ingestion (Msg ''kafka seek: {e}'' [AMsg e])) (seek p off)) (\<lambda>_.
          rbind (resume_seeks seek offsets ps) (\<lambda>done_seeks. Inr ((p, off) # done_seeks))))"

subsection \<open>The pump\<close>

record 'a source_adapter =
  sa_source_id :: string
  sa_next_batch :: "'a \<Rightarrow> (core_error, source_batch option) result \<times> 'a"
  sa_resume :: "(int \<times> int) list \<Rightarrow> 'a \<Rightarrow> (core_error, unit) result \<times> 'a"

datatype pump_event =
    Read_offsets string
  | Apply_batch source_batch string
  | Marked_fresh source_batch int
  | Sleep nat

type_synonym pump_log = "pump_event list"

record pump_env =
  pe_offsets :: "pump_log \<Rightarrow> (core_error, (int \<times> int) list) result"
  pe_apply :: "pump_log \<Rightarrow> (core_error, nat) result"
  pe_now :: "pump_log \<Rightarrow> int"

record 'a pump_state =
  pu_adapter :: 'a
  pu_fresh :: freshness_registry
  pu_backoff :: nat
  pu_log :: pump_log

definition pump_emit :: "pump_event \<Rightarrow> 'a pump_state \<Rightarrow> 'a pump_state" where
  "pump_emit ev s = s\<lparr>pu_log := pu_log s @ [ev]\<rparr>"

text \<open>The body of the loop, \<open>outcome\<close>.\<close>

definition pump_body ::
  "'a source_adapter \<Rightarrow> pump_env \<Rightarrow> string \<Rightarrow> nat \<Rightarrow> 'a pump_state \<Rightarrow> (core_error, unit) result \<times> 'a pump_state"
where
  "pump_body ad env tenant poll_interval s =
     (let (r, a) = sa_next_batch ad (pu_adapter s); s = s\<lparr>pu_adapter := a\<rparr>
      in case r of
           Inl e \<Rightarrow> (Inl e, s)
         | Inr None \<Rightarrow> (Inr (), pump_emit (Sleep poll_interval) s)
         | Inr (Some batch) \<Rightarrow>
             (let s = pump_emit (Apply_batch batch tenant) s
              in case pe_apply env (pu_log s) of
                   Inl e \<Rightarrow> (Inl e, s)
                 | Inr rows \<Rightarrow>
                     (let epoch = pe_now env (pu_log s)
                      in case registry_set (pu_fresh s) (sb_system batch) (sb_entity batch) Cdc epoch of
                           Inl e \<Rightarrow> (Inl e, s)
                         | Inr reg \<Rightarrow> (Inr (), pump_emit (Marked_fresh batch epoch) (s\<lparr>pu_fresh := reg\<rparr>)))))"

definition MAX_BACKOFF :: nat where
  "MAX_BACKOFF = 30000000000"

definition pump_iteration :: "'a source_adapter \<Rightarrow> pump_env \<Rightarrow> string \<Rightarrow> nat \<Rightarrow> 'a pump_state \<Rightarrow> 'a pump_state" where
  "pump_iteration ad env tenant poll_interval s =
     (case pump_body ad env tenant poll_interval s of
        (Inr _, s) \<Rightarrow> s\<lparr>pu_backoff := poll_interval\<rparr>
      | (Inl e, s) \<Rightarrow>
          (let s = pump_emit (Sleep (pu_backoff s)) s in s\<lparr>pu_backoff := min (pu_backoff s * 2) MAX_BACKOFF\<rparr>))"

text \<open>The resume, whose failure alone ends the pump; then the loop, which never ends: \<open>n\<close> iterations
  of it.\<close>

definition pump_start ::
  "'a source_adapter \<Rightarrow> pump_env \<Rightarrow> nat \<Rightarrow> 'a \<Rightarrow> freshness_registry \<Rightarrow> (core_error, 'a pump_state) result"
where
  "pump_start ad env poll_interval a reg =
     (let log = [Read_offsets (sa_source_id ad)]
      in rbind (pe_offsets env log) (\<lambda>offsets.
         if offsets = [] then Inr \<lparr>pu_adapter = a, pu_fresh = reg, pu_backoff = poll_interval, pu_log = log\<rparr>
         else (case sa_resume ad offsets a of
                 (Inl e, a) \<Rightarrow> Inl e
               | (Inr u, a) \<Rightarrow> Inr \<lparr>pu_adapter = a, pu_fresh = reg, pu_backoff = poll_interval, pu_log = log\<rparr>)))"

definition run_cdc_pump ::
  "'a source_adapter \<Rightarrow> pump_env \<Rightarrow> string \<Rightarrow> nat \<Rightarrow> nat \<Rightarrow> 'a \<Rightarrow> freshness_registry \<Rightarrow>
     (core_error, 'a pump_state) result"
where
  "run_cdc_pump ad env tenant poll_interval n a reg =
     rbind (pump_start ad env poll_interval a reg) (\<lambda>s.
     Inr ((pump_iteration ad env tenant poll_interval ^^ n) s))"

definition kafka_adapter ::
  "(json \<Rightarrow> string) \<Rightarrow> (string \<Rightarrow> envelope option) \<Rightarrow> debezium_mapper \<Rightarrow>
     ((int \<times> int) list \<Rightarrow> recv list \<Rightarrow> (core_error, unit) result \<times> recv list) \<Rightarrow> recv list source_adapter"
where
  "kafka_adapter show_json decode m resume =
     \<lparr>sa_source_id = source_key (dm_system m) (dm_entity m),
      sa_next_batch = next_batch show_json decode m,
      sa_resume = resume\<rparr>"

end
