(* ===== verification/Ingestion_Cdc_Spec.thy ===== *)
theory Ingestion_Cdc_Spec
  imports Ingestion_Cdc
begin

text \<open>
  The properties of CDC ingestion. \<open>stream_source\<close> is the contract of an adapter: it reads its
  stream front to back, each piece into at most one batch. What the pump does with such an adapter
  is proved in the locale, which the Kafka adapter interprets.
\<close>

subsection \<open>The contract of a source\<close>

definition attempted :: "pump_log \<Rightarrow> source_batch list" where
  "attempted log = List.map_filter (\<lambda>ev. case ev of Apply_batch b t \<Rightarrow> Some b | _ \<Rightarrow> None) log"

lemma attempted_append [simp]: "attempted (log @ log') = attempted log @ attempted log'"
  by (simp add: attempted_def map_filter_def)

lemma attempted_simps [simp]:
  "attempted [] = []" "attempted (Apply_batch b t # log) = b # attempted log"
  "attempted (Sleep d # log) = attempted log" "attempted (Marked_fresh b e # log) = attempted log"
  "attempted (Read_offsets src # log) = attempted log"
  by (simp_all add: attempted_def map_filter_simps)

locale stream_source =
  fixes pull :: "'a \<Rightarrow> (core_error, source_batch option) result \<times> 'a"
    and rest :: "'a \<Rightarrow> 'x list"
    and dull :: "'x list \<Rightarrow> bool"
    and reads :: "'x list \<Rightarrow> source_batch \<Rightarrow> bool"
  assumes yields: "pull a = (Inr (Some b), a') \<Longrightarrow> \<exists>xs. rest a = xs @ rest a' \<and> reads xs b"
    and empty: "pull a = (Inr None, a') \<Longrightarrow> \<exists>xs. rest a = xs @ rest a' \<and> dull xs"
    and fails: "pull a = (Inl e, a') \<Longrightarrow> \<exists>xs. rest a = xs @ rest a' \<and> dull xs"
begin

definition piece :: "'x list \<times> source_batch option \<Rightarrow> bool" where
  "piece p \<longleftrightarrow> (case snd p of Some b \<Rightarrow> reads (fst p) b | None \<Rightarrow> dull (fst p))"

text \<open>Whatever the writer answers, an iteration attempts at most the one batch it has read.\<close>

lemma body_piece:
  assumes "sa_next_batch ad = pull" "pump_body ad env tenant poll s = (r, s')"
  shows "\<exists>p. piece p \<and> rest (pu_adapter s) = fst p @ rest (pu_adapter s') \<and>
     attempted (pu_log s') = attempted (pu_log s) @ (case snd p of Some b \<Rightarrow> [b] | None \<Rightarrow> [])"
proof -
  obtain o' a' where n: "pull (pu_adapter s) = (o', a')" by fastforce
  consider (fail) e where "o' = Inl e" | (none) "o' = Inr None" | (batch) b where "o' = Inr (Some b)"
    by (cases o') auto
  then show ?thesis
  proof cases
    case fail
    from fails [OF n [unfolded fail]] obtain xs where "rest (pu_adapter s) = xs @ rest a'" "dull xs" by blast
    with assms n fail show ?thesis by (intro exI [of _ "(xs, None)"]) (auto simp: pump_body_def piece_def)
  next
    case none
    from empty [OF n [unfolded none]] obtain xs where "rest (pu_adapter s) = xs @ rest a'" "dull xs" by blast
    with assms n none show ?thesis
      by (intro exI [of _ "(xs, None)"]) (auto simp: pump_body_def piece_def pump_emit_def)
  next
    case batch
    from yields [OF n [unfolded batch]] obtain xs where "rest (pu_adapter s) = xs @ rest a'" "reads xs b" by blast
    with assms n batch show ?thesis
      by (intro exI [of _ "(xs, Some b)"])
         (auto simp: pump_body_def piece_def pump_emit_def Let_def split: sum.splits)
  qed
qed

lemma iteration_piece:
  assumes "sa_next_batch ad = pull"
  shows "\<exists>p. piece p \<and> rest (pu_adapter s) = fst p @ rest (pu_adapter (pump_iteration ad env tenant poll s)) \<and>
     attempted (pu_log (pump_iteration ad env tenant poll s)) =
       attempted (pu_log s) @ (case snd p of Some b \<Rightarrow> [b] | None \<Rightarrow> [])"
proof -
  obtain r s' where run: "pump_body ad env tenant poll s = (r, s')" by fastforce
  have "pu_adapter (pump_iteration ad env tenant poll s) = pu_adapter s' \<and>
      attempted (pu_log (pump_iteration ad env tenant poll s)) = attempted (pu_log s')"
    by (cases r) (simp_all add: pump_iteration_def run Let_def pump_emit_def)
  with body_piece [OF assms run] show ?thesis by simp
qed

lemma pump_pieces:
  assumes "sa_next_batch ad = pull"
  shows "\<exists>ps. list_all piece ps \<and> rest (pu_adapter s) =
       concat (map fst ps) @ rest (pu_adapter ((pump_iteration ad env tenant poll ^^ n) s)) \<and>
     attempted (pu_log ((pump_iteration ad env tenant poll ^^ n) s)) =
       attempted (pu_log s) @ List.map_filter snd ps"
proof (induction n arbitrary: s)
  case 0
  show ?case by (intro exI [of _ "[]"]) (simp add: map_filter_simps)
next
  case (Suc n)
  let ?s1 = "pump_iteration ad env tenant poll s"
  obtain p where p: "piece p" "rest (pu_adapter s) = fst p @ rest (pu_adapter ?s1)"
    "attempted (pu_log ?s1) = attempted (pu_log s) @ (case snd p of Some b \<Rightarrow> [b] | None \<Rightarrow> [])"
    using iteration_piece [OF assms] by blast
  obtain ps where ps: "list_all piece ps"
    "rest (pu_adapter ?s1) = concat (map fst ps) @ rest (pu_adapter ((pump_iteration ad env tenant poll ^^ n) ?s1))"
    "attempted (pu_log ((pump_iteration ad env tenant poll ^^ n) ?s1)) = attempted (pu_log ?s1) @ List.map_filter snd ps"
    using Suc.IH by blast
  from p ps show ?case
    by (intro exI [of _ "p # ps"])
       (simp add: funpow_Suc_right map_filter_simps del: funpow.simps split: option.split)
qed

end

subsection \<open>The Kafka adapter reads its stream\<close>

text \<open>The changes of the messages of a stream, in order, and the last offset of each partition.\<close>

definition message_batch ::
  "(json \<Rightarrow> string) \<Rightarrow> (string \<Rightarrow> envelope option) \<Rightarrow> debezium_mapper \<Rightarrow> recv \<Rightarrow> source_batch option"
where
  "message_batch show_json decode m r =
     (case r of
        Message part off payload \<Rightarrow>
          map_option (\<lambda>env. map_envelope show_json m env part off) (Option.bind payload decode)
      | _ \<Rightarrow> None)"

definition stream_batches where
  "stream_batches show_json decode m rs = List.map_filter (message_batch show_json decode m) rs"

definition last_offset :: "recv list \<Rightarrow> int \<Rightarrow> int option" where
  "last_offset rs p = fold (\<lambda>r found. case r of Message q off pl \<Rightarrow> if q = p then Some off else found | _ \<Rightarrow> found) rs None"

definition kafka_reads ::
  "(json \<Rightarrow> string) \<Rightarrow> (string \<Rightarrow> envelope option) \<Rightarrow> debezium_mapper \<Rightarrow> recv list \<Rightarrow> source_batch \<Rightarrow> bool"
where
  "kafka_reads show_json decode m rs b \<longleftrightarrow>
     sb_upserts b = concat (map sb_upserts (stream_batches show_json decode m rs)) \<and>
     sb_deletes b = concat (map sb_deletes (stream_batches show_json decode m rs)) \<and>
     (\<forall>p. map_of (sb_offsets b) p = last_offset rs p) \<and>
     length (sb_upserts b) + length (sb_deletes b) \<le> MAX_BATCH_MESSAGES"

definition no_messages :: "recv list \<Rightarrow> bool" where
  "no_messages rs \<longleftrightarrow> list_all (\<lambda>r. case r of Message p off pl \<Rightarrow> False | _ \<Rightarrow> True) rs"

lemma stream_batches_simps [simp]:
  "stream_batches show_json decode m [] = []"
  "stream_batches show_json decode m (rs @ rs') = stream_batches show_json decode m rs @ stream_batches show_json decode m rs'"
  by (simp_all add: stream_batches_def map_filter_def)

lemma last_offset_snoc:
  "last_offset (rs @ [Message q off pl]) p = (if q = p then Some off else last_offset rs p)"
  "last_offset (rs @ [Poll_error]) p = last_offset rs p"
  "last_offset (rs @ [Deadline]) p = last_offset rs p"
  by (simp_all add: last_offset_def)

lemma one_change:
  "length (sb_upserts (map_envelope show_json m env p off)) + length (sb_deletes (map_envelope show_json m env p off)) \<le> 1"
  by (auto simp: map_envelope_def Let_def split: option.split)

text \<open>The accumulator after the messages \<open>rs\<close>.\<close>

definition holds :: "(json \<Rightarrow> string) \<Rightarrow> (string \<Rightarrow> envelope option) \<Rightarrow> debezium_mapper \<Rightarrow> recv list \<Rightarrow> accumulated \<Rightarrow> bool" where
  "holds show_json decode m rs acc \<longleftrightarrow>
     ac_upserts acc = concat (map sb_upserts (stream_batches show_json decode m rs)) \<and>
     ac_deletes acc = concat (map sb_deletes (stream_batches show_json decode m rs)) \<and>
     (\<forall>p. bt_get (ac_offsets acc) p = last_offset rs p) \<and>
     length (ac_upserts acc) + length (ac_deletes acc) \<le> MAX_BATCH_MESSAGES"

lemma holds_message:
  assumes "holds show_json decode m rs acc" "length (ac_upserts acc) + length (ac_deletes acc) < MAX_BATCH_MESSAGES"
  shows "holds show_json decode m (rs @ [Message part off payload]) (take_message show_json decode m part off payload acc)"
proof (cases "Option.bind payload decode")
  case None
  with assms show ?thesis
    by (simp add: holds_def take_message_def Let_def stream_batches_def map_filter_def message_batch_def
        bt_get_insert last_offset_snoc)
next
  case (Some env)
  with assms one_change [of show_json m env part off] show ?thesis
    by (simp add: holds_def take_message_def Let_def stream_batches_def map_filter_def message_batch_def
        bt_get_insert last_offset_snoc)
qed

lemma holds_break:
  "holds show_json decode m rs acc \<Longrightarrow> r = Poll_error \<or> r = Deadline \<Longrightarrow> holds show_json decode m (rs @ [r]) acc"
  by (auto simp: holds_def stream_batches_def map_filter_def message_batch_def last_offset_snoc)

lemma receive_loop_holds:
  assumes "holds show_json decode m seen acc" "receive_loop show_json decode m rs acc = (acc', rs')"
  shows "\<exists>taken. rs = taken @ rs' \<and> holds show_json decode m (seen @ taken) acc'"
  using assms
proof (induction rs arbitrary: seen acc)
  case Nil
  then show ?case by simp
next
  case (Cons r rs)
  show ?case
  proof (cases "length (ac_upserts acc) + length (ac_deletes acc) \<ge> MAX_BATCH_MESSAGES")
    case True
    with Cons.prems show ?thesis by simp
  next
    case False
    show ?thesis
    proof (cases r)
      case (Message part off payload)
      from False have "holds show_json decode m (seen @ [r]) (take_message show_json decode m part off payload acc)"
        unfolding Message by (intro holds_message [OF Cons.prems(1)]) simp
      moreover from False Cons.prems(2) Message
      have "receive_loop show_json decode m rs (take_message show_json decode m part off payload acc) = (acc', rs')" by simp
      ultimately obtain taken where "rs = taken @ rs'" "holds show_json decode m ((seen @ [r]) @ taken) acc'"
        using Cons.IH by blast
      then show ?thesis by (intro exI [of _ "r # taken"]) simp
    qed (use False Cons.prems holds_break [OF Cons.prems(1), of r] in auto)
  qed
qed

lemma last_offset_None: "(\<forall>p. last_offset rs p = None) \<Longrightarrow> no_messages rs"
proof (induction rs rule: rev_induct)
  case (snoc r rs)
  then show ?case by (cases r) (auto simp: last_offset_snoc no_messages_def split: if_splits)
qed (simp add: no_messages_def)

lemma next_batch_reads:
  assumes "next_batch show_json decode m rs = (r, rs')"
  shows "\<exists>xs. rs = xs @ rs' \<and> (case r of Inr (Some b) \<Rightarrow> kafka_reads show_json decode m xs b
     | Inr None \<Rightarrow> no_messages xs | Inl e \<Rightarrow> no_messages xs)"
proof -
  obtain acc rs1 where run: "receive_loop show_json decode m rs nothing_yet = (acc, rs1)" by fastforce
  have "holds show_json decode m [] nothing_yet"
    by (simp add: holds_def nothing_yet_def last_offset_def bt_empty_def)
  from receive_loop_holds [OF this run] obtain xs where xs: "rs = xs @ rs1" "holds show_json decode m xs acc" by auto
  show ?thesis
  proof (cases "ac_upserts acc = [] \<and> ac_deletes acc = [] \<and> ac_offsets acc = []")
    case True
    with assms run have "r = Inr None" "rs' = rs1" by (auto simp: next_batch_def)
    moreover from True xs(2) have "no_messages xs" by (intro last_offset_None) (simp add: holds_def)
    ultimately show ?thesis using xs by auto
  next
    case False
    with assms run have "rs' = rs1" and r: "r = Inr (Some \<lparr>sb_system = dm_system m, sb_entity = dm_entity m,
       sb_columns = dm_columns m, sb_key = dm_key m, sb_upserts = ac_upserts acc, sb_deletes = ac_deletes acc,
       sb_offsets = ac_offsets acc\<rparr>)" by (auto simp: next_batch_def)
    with xs show ?thesis by (auto simp: r kafka_reads_def holds_def bt_get_map_of)
  qed
qed

interpretation kafka: stream_source "next_batch show_json decode m" "\<lambda>rs. rs" no_messages "kafka_reads show_json decode m"
  for show_json decode m
  by unfold_locales (use next_batch_reads [of show_json decode m] in fastforce)+

subsection \<open>The pump over Kafka\<close>

lemma dull_stream: "no_messages xs \<Longrightarrow> stream_batches show_json decode m xs = []"
  by (induction xs) (auto simp: stream_batches_def map_filter_simps no_messages_def message_batch_def split: recv.splits)

lemma piece_changes:
  assumes "kafka.piece show_json decode m p"
  shows "concat (map sb_upserts (stream_batches show_json decode m (fst p))) = (case snd p of Some b \<Rightarrow> sb_upserts b | None \<Rightarrow> [])"
    "concat (map sb_deletes (stream_batches show_json decode m (fst p))) = (case snd p of Some b \<Rightarrow> sb_deletes b | None \<Rightarrow> [])"
  using assms by (auto simp: kafka.piece_def dull_stream kafka_reads_def split: option.splits)

lemma reads_pieces:
  "list_all (kafka.piece show_json decode m) ps \<Longrightarrow>
   concat (map sb_upserts (List.map_filter snd ps)) =
     concat (map sb_upserts (stream_batches show_json decode m (concat (map fst ps)))) \<and>
   concat (map sb_deletes (List.map_filter snd ps)) =
     concat (map sb_deletes (stream_batches show_json decode m (concat (map fst ps))))"
proof (induction ps)
  case (Cons p ps)
  then show ?case by (cases "snd p") (simp_all add: map_filter_simps piece_changes)
qed (simp add: map_filter_simps)


subsection \<open>A failed batch\<close>

lemma iteration_of_failed_apply:
  assumes "sa_next_batch ad (pu_adapter s) = (Inr (Some b), a)" "pe_apply env (pu_log s @ [Apply_batch b tenant]) = Inl e"
  shows "pump_iteration ad env tenant poll s =
     s\<lparr>pu_adapter := a, pu_log := pu_log s @ [Apply_batch b tenant, Sleep (pu_backoff s)],
       pu_backoff := min (pu_backoff s * 2) MAX_BACKOFF\<rparr>"
  using assms by (simp add: pump_iteration_def pump_body_def pump_emit_def Let_def)

lemma iteration_of_apply:
  assumes "sa_next_batch ad (pu_adapter s) = (Inr (Some b), a)" "pe_apply env (pu_log s @ [Apply_batch b tenant]) = Inr n"
    and "IDENT_RE (sb_system b)" "IDENT_RE (sb_entity b)"
  shows "\<exists>reg epoch. pump_iteration ad env tenant poll s =
     s\<lparr>pu_adapter := a, pu_fresh := reg, pu_log := pu_log s @ [Apply_batch b tenant, Marked_fresh b epoch], pu_backoff := poll\<rparr>"
  using assms
  by (auto simp: pump_iteration_def pump_body_def pump_emit_def Let_def registry_set_def rbind_def validate_ident_def)

text \<open>a batch whose apply fails is not applied again. The adapter has moved on, so the next
  iteration applies the next batch, and the source's committed offset passes the lost one.\<close>

theorem failed_batch_is_skipped:
  assumes "sa_next_batch ad (pu_adapter s) = (Inr (Some b1), a1)" "sa_next_batch ad a1 = (Inr (Some b2), a2)"
    and "pe_apply env (pu_log s @ [Apply_batch b1 tenant]) = Inl e"
    and "pe_apply env (pu_log s @ [Apply_batch b1 tenant, Sleep (pu_backoff s), Apply_batch b2 tenant]) = Inr n"
    and "IDENT_RE (sb_system b2)" "IDENT_RE (sb_entity b2)"
  shows "\<exists>epoch. let s' = (pump_iteration ad env tenant poll ^^ 2) s in
     pu_log s' = pu_log s @ [Apply_batch b1 tenant, Sleep (pu_backoff s), Apply_batch b2 tenant, Marked_fresh b2 epoch] \<and>
     pu_adapter s' = a2"
proof -
  let ?s1 = "pump_iteration ad env tenant poll s"
  note one = iteration_of_failed_apply [OF assms(1,3), of poll]
  have "sa_next_batch ad (pu_adapter ?s1) = (Inr (Some b2), a2)"
    "pe_apply env (pu_log ?s1 @ [Apply_batch b2 tenant]) = Inr n"
    using assms(2,4) by (simp_all add: one)
  from iteration_of_apply [OF this assms(5,6), of poll] show ?thesis
    by (auto simp: one numeral_2_eq_2)
qed

definition sample_mapper :: debezium_mapper where
  "sample_mapper = mapper_new ''erp'' ''orders'' [''user_id''] ''user_id''"

definition sample_decode :: "string \<Rightarrow> envelope option" where
  "sample_decode s = Some (Envelope (Some ''c'') (Some (JObject [(''user_id'', JString s)])) None None)"

definition sample_stream :: "recv list" where
  "sample_stream = [Message 0 7 (Some ''u1''), Deadline, Message 0 8 (Some ''u2''), Deadline]"

definition sample_adapter :: "recv list source_adapter" where
  "sample_adapter = kafka_adapter (\<lambda>j. []) sample_decode sample_mapper (\<lambda>offsets a. (Inr (), a))"

definition order_batch :: "string \<Rightarrow> int \<Rightarrow> source_batch" where
  "order_batch u off = \<lparr>sb_system = ''erp'', sb_entity = ''orders'', sb_columns = [''user_id''], sb_key = ''user_id'',
     sb_upserts = [[Some u]], sb_deletes = [], sb_offsets = [(0, off)]\<rparr>"

lemma order_batch_fields: "sb_system (order_batch u off) = ''erp''" "sb_entity (order_batch u off) = ''orders''"
  by (simp_all add: order_batch_def)

text \<open>The first apply fails, every later one succeeds.\<close>

definition sample_pump_env :: pump_env where
  "sample_pump_env = \<lparr>pe_offsets = (\<lambda>log. Inr []),
     pe_apply = (\<lambda>log. if length (attempted log) = 1 then Inl WriterAlreadyHeld else Inr 1), pe_now = (\<lambda>log. 0)\<rparr>"

lemma sample_next:
  "sa_next_batch sample_adapter (Message 0 off (Some u) # Deadline # rs) = (Inr (Some (order_batch u off)), rs)"
  by (simp add: sample_adapter_def kafka_adapter_def next_batch_def nothing_yet_def MAX_BATCH_MESSAGES_def
      take_message_def sample_decode_def map_envelope_def sample_mapper_def mapper_new_def row_from_json_def
      cell_from_json_def order_batch_def bt_empty_def)

definition sample_pump :: "recv list pump_state" where
  "sample_pump = \<lparr>pu_adapter = sample_stream, pu_fresh = registry_new, pu_backoff = 1000, pu_log = []\<rparr>"

theorem failed_batch_is_skipped_witness:
  "\<exists>epoch. let s' = (pump_iteration sample_adapter sample_pump_env ''acme'' 1000 ^^ 2) sample_pump in
     pu_log s' = pu_log sample_pump @ [Apply_batch (order_batch ''u1'' 7) ''acme'', Sleep (pu_backoff sample_pump),
       Apply_batch (order_batch ''u2'' 8) ''acme'', Marked_fresh (order_batch ''u2'' 8) epoch] \<and>
     pu_adapter s' = []"
proof -
  have "IDENT_RE ''erp'' = True" "IDENT_RE ''orders'' = True" by code_simp+
  then show ?thesis
    by (intro failed_batch_is_skipped [where e = WriterAlreadyHeld and n = 1 and ?a1.0 = "[Message 0 8 (Some ''u2''), Deadline]"])
       (simp_all add: sample_pump_def sample_stream_def sample_next sample_pump_env_def order_batch_fields)
qed

lemma sample_run: "\<exists>s. run_cdc_pump sample_adapter sample_pump_env ''acme'' 1000 2 sample_stream registry_new = Inr s"
  by (simp add: run_cdc_pump_def pump_start_def sample_pump_env_def)


subsection \<open>The back-off\<close>

lemma backoff_step:
  assumes "poll \<le> MAX_BACKOFF" "poll \<le> pu_backoff s \<and> pu_backoff s \<le> MAX_BACKOFF"
  shows "poll \<le> pu_backoff (pump_iteration ad env tenant poll s) \<and> pu_backoff (pump_iteration ad env tenant poll s) \<le> MAX_BACKOFF"
proof -
  obtain r s' where run: "pump_body ad env tenant poll s = (r, s')" by fastforce
  then have "pu_backoff s' = pu_backoff s"
    by (auto simp: pump_body_def pump_emit_def Let_def split: prod.splits sum.splits option.splits)
  with assms show ?thesis
    by (cases r) (auto simp: pump_iteration_def run Let_def pump_emit_def)
qed

text \<open>however long a source keeps failing, the pump waits between the poll interval and thirty
  seconds before its next attempt.\<close>

theorem pump_backoff_bounded:
  assumes "poll \<le> MAX_BACKOFF" "run_cdc_pump ad env tenant poll n a reg = Inr s"
  shows "poll \<le> pu_backoff s \<and> pu_backoff s \<le> MAX_BACKOFF"
proof -
  from assms(2) obtain s0 where s0: "pump_start ad env poll a reg = Inr s0"
    "s = (pump_iteration ad env tenant poll ^^ n) s0"
    by (auto simp: run_cdc_pump_def rbind_Inr_iff)
  then have "pu_backoff s0 = poll"
    by (auto simp: pump_start_def Let_def rbind_Inr_iff split: if_splits prod.splits sum.splits)
  then have "poll \<le> pu_backoff ((pump_iteration ad env tenant poll ^^ n) s0) \<and>
      pu_backoff ((pump_iteration ad env tenant poll ^^ n) s0) \<le> MAX_BACKOFF"
  proof (induction n)
    case (Suc n)
    from backoff_step [OF assms(1) Suc.IH [OF Suc.prems]] show ?case by simp
  qed (use assms(1) in simp)
  with s0(2) show ?thesis by simp
qed

theorem pump_backoff_bounded_witness:
  "\<exists>s. run_cdc_pump sample_adapter sample_pump_env ''acme'' 1000 2 sample_stream registry_new = Inr s \<and>
     1000 \<le> pu_backoff s \<and> pu_backoff s \<le> MAX_BACKOFF"
proof -
  obtain s where run: "run_cdc_pump sample_adapter sample_pump_env ''acme'' 1000 2 sample_stream registry_new = Inr s"
    using sample_run by blast
  from pump_backoff_bounded [OF _ run] run show ?thesis by (simp add: MAX_BACKOFF_def)
qed

end
