(* ===== verification/Ingestion_Producers.thy ===== *)
theory Ingestion_Producers
  imports Keyed_Maps Query_Engine
begin

text \<open>
  \<open>crates/ingestion/src/producer.rs\<close>: the registry of feature producers and running one through the
  writer. A producer is its id and its \<open>run\<close>.
\<close>

subsection \<open>The registry\<close>

record producer =
  pr_id :: string
  pr_run :: "string \<Rightarrow> (core_error, feature_row list) result"

type_synonym producer_registry = "(string, producer) dashmap"

definition producer_registry_new :: producer_registry where
  "producer_registry_new = dm_empty"

definition already_registered :: "string \<Rightarrow> core_error" where
  "already_registered pid = InvalidInput (Msg ''producer {id:?} is already registered'' [AStr pid])"

definition check_producer_id :: "string \<Rightarrow> (core_error, unit) result" where
  "check_producer_id pid =
     map_err (\<lambda>e. InvalidInput (Msg ''producer id: {e}'' [AMsg (display_error e)])) (validate_feature_name pid)"

definition register :: "producer \<Rightarrow> producer_registry \<Rightarrow> (core_error, producer_registry) result" where
  "register p reg =
     rbind (check_producer_id (pr_id p)) (\<lambda>_.
     rbind (guard (dm_get reg (pr_id p) = None) (already_registered (pr_id p))) (\<lambda>_.
     Inr (dm_insert (pr_id p) p reg)))"

definition producer_get :: "producer_registry \<Rightarrow> string \<Rightarrow> producer option" where
  "producer_get reg pid = dm_get reg pid"

text \<open>\<open>keys\<close> is the registry's iteration, in some order.\<close>

definition producer_ids :: "string list \<Rightarrow> string list" where
  "producer_ids keys = sort keys"

definition unknown_producer :: "string \<Rightarrow> core_error" where
  "unknown_producer pid = InvalidInput (Msg ''unknown producer {id:?}'' [AStr pid])"

definition run_producer ::
  "(feature_row list \<Rightarrow> string \<Rightarrow> (core_error, nat) result) \<Rightarrow> producer_registry \<Rightarrow> string \<Rightarrow> string \<Rightarrow> string \<Rightarrow>
     (core_error, nat) result"
where
  "run_producer write_features reg pid as_of tenant =
     rbind (ok_or (unknown_producer pid) (producer_get reg pid)) (\<lambda>p.
     rbind (pr_run p as_of) (\<lambda>rows.
     write_features rows tenant))"

subsection \<open>Registration\<close>

text \<open>registering a producer under a free, well-formed id makes it the one that id finds and
  changes no other; every other registration is refused.\<close>

theorem register_spec:
  "register p reg =
     (if \<not> FEATURE_NAME_RE (pr_id p) then Inl (InvalidInput (Msg ''producer id: {e}''
        [AMsg (display_error (InvalidInput (Msg ''invalid feature name {name:?}: must match ^[a-zA-Z0-9_.-]{{1,64}}$'' [AStr (pr_id p)])))]))
      else if producer_get reg (pr_id p) \<noteq> None then Inl (already_registered (pr_id p))
      else Inr (\<lambda>k. if k = pr_id p then Some p else producer_get reg k))"
  by (auto simp: register_def check_producer_id_def validate_feature_name_def producer_get_def dm_insert_def
      dm_get_def rbind_def guard_def fun_eq_iff)

end
