(* ===== verification/Ingestion_Cadence.thy ===== *)
theory Ingestion_Cadence
  imports Ingestion_Producers Float64_Props "HOL-Library.Multiset"
begin

text \<open>
  \<open>crates/ingestion/src/producers/cadence.rs\<close>: the cadence producer, one regularity score per user.
  The score is computed in \<open>f64\<close> arithmetic (\<open>Float64\<close>). The reader's answer and chrono's parsers are
  arguments.
\<close>

subsection \<open>The score\<close>

text \<open>\<open>windows(2)\<close>.\<close>

fun windows2 :: "'a list \<Rightarrow> ('a \<times> 'a) list" where
  "windows2 (a # b # xs) = (a, b) # windows2 (b # xs)"
| "windows2 _ = []"

text \<open>\<open>powi(2)\<close> is one multiplication; the subtraction of two epochs wraps, as in a release build.\<close>

definition intervals_of :: "int list \<Rightarrow> fl list" where
  "intervals_of epochs = map (\<lambda>(a, b). fl_of_int F64 (wrap_i64 (b - a))) (windows2 epochs)"

definition regularity :: "int list \<Rightarrow> fl" where
  "regularity epochs =
     (if length epochs < 2 then zero F64
      else
        let intervals = intervals_of epochs;
            n = fl_of_int F64 (int (length intervals));
            mean = fdiv F64 (fsum intervals) n
        in if feq mean (zero F64) then zero F64
           else
             let variance = fdiv F64 (fsum (map (\<lambda>x. let d = fsub F64 x mean in fmul F64 d d) intervals)) n;
                 stddev = fsqrt variance;
                 cv = fdiv F64 stddev mean
             in fmax (fsub F64 one cv) (zero F64))"

subsection \<open>Times\<close>

text \<open>chrono's three parsers, each with the epoch of what it reads, a date at midnight UTC.\<close>

record chrono =
  ch_rfc3339 :: "string \<Rightarrow> int option"
  ch_datetime :: "string \<Rightarrow> int option"
  ch_date :: "string \<Rightarrow> int option"

definition parse_epoch :: "chrono \<Rightarrow> string \<Rightarrow> int option" where
  "parse_epoch ch ts =
     (case ch_rfc3339 ch ts of
        Some t \<Rightarrow> Some t
      | None \<Rightarrow>
          (case ch_datetime ch ts of
             Some t \<Rightarrow> Some t
           | None \<Rightarrow> ch_date ch ts))"

subsection \<open>The cadence producer\<close>

definition SCAN_ROW_CAP :: nat where
  "SCAN_ROW_CAP = 1000000"

definition FEATURE_NAME :: string where
  "FEATURE_NAME = ''cadence.regularity''"

definition cadence_sql :: "dataset \<Rightarrow> string" where
  "cadence_sql orders =
     ''SELECT user_id, ts FROM '' @ READ_ONLY_CATALOG_ALIAS @ ''.raw_'' @ ds_system orders @ ''_'' @ ds_entity orders @
     '' WHERE ts <= ? LIMIT '' @ show_nat (SCAN_ROW_CAP + 1)"

definition over_scan_cap :: "dataset \<Rightarrow> string \<Rightarrow> core_error" where
  "over_scan_cap orders as_of =
     InvalidInput (Msg ''{}.{} has >{SCAN_ROW_CAP} matching rows at as_of {as_of}; raise the producer scan cap or narrow as_of''
       [AStr (ds_system orders), AStr (ds_entity orders), ANat SCAN_ROW_CAP, AStr as_of])"

text \<open>A row with a user, a time and a time that parses.\<close>

definition cadence_event :: "chrono \<Rightarrow> json list \<Rightarrow> (string \<times> int) option" where
  "cadence_event ch row =
     (case row of
        u # t # _ \<Rightarrow>
          (case (as_str u, as_str t) of
             (Some user, Some ts) \<Rightarrow> map_option (Pair user) (parse_epoch ch ts)
           | _ \<Rightarrow> None)
      | _ \<Rightarrow> None)"

definition cadence_row :: "string \<Rightarrow> string \<Rightarrow> string \<times> int list \<Rightarrow> feature_row" where
  "cadence_row producer_id as_of = (\<lambda>(user, epochs).
     \<lparr>fr_user_id = user, fr_feature_name = FEATURE_NAME, fr_num_value = bits_of F64 (regularity (sort epochs)),
      fr_as_of_ts = as_of, fr_producer_id = producer_id\<rparr>)"

text \<open>\<open>order\<close> is the order the \<open>HashMap\<close> of users is walked in.\<close>

definition cadence_run ::
  "(string \<Rightarrow> dval list \<Rightarrow> (core_error, query_result) result) \<Rightarrow> chrono \<Rightarrow> ((string \<times> int list) list \<Rightarrow> (string \<times> int list) list) \<Rightarrow> dataset \<Rightarrow> string \<Rightarrow> string \<Rightarrow>
     (core_error, feature_row list) result"
where
  "cadence_run query ch order orders producer_id as_of =
     rbind (validate_ident (ds_system orders)) (\<lambda>_.
     rbind (validate_ident (ds_entity orders)) (\<lambda>_.
     rbind (query (cadence_sql orders) [VText as_of]) (\<lambda>qr.
     rbind (guard (\<not> length (qr_rows qr) > SCAN_ROW_CAP) (over_scan_cap orders as_of)) (\<lambda>_.
     Inr (map (cadence_row producer_id as_of)
           (order (bt_push_all (List.map_filter (cadence_event ch) (qr_rows qr)))))))))"

definition cadence_new ::
  "(string \<Rightarrow> dval list \<Rightarrow> (core_error, query_result) result) \<Rightarrow> chrono \<Rightarrow> ((string \<times> int list) list \<Rightarrow> (string \<times> int list) list) \<Rightarrow> dataset \<Rightarrow> producer"
where
  "cadence_new query ch order orders =
     \<lparr>pr_id = ''cadence_sql'',
      pr_run = cadence_run query ch order orders ''cadence_sql''\<rparr>"

subsection \<open>The score is a score\<close>

lemma windows2_sorted: "sorted xs \<Longrightarrow> (a, b) \<in> set (windows2 xs) \<Longrightarrow> a \<le> b \<and> a \<in> set xs \<and> b \<in> set xs"
  by (induction xs rule: windows2.induct) auto

lemma length_windows2: "length (windows2 xs) = length xs - 1"
  by (induction xs rule: windows2.induct) auto

lemma intervals_nonneg:
  assumes "sorted epochs" "list_all (\<lambda>t. - (2 ^ 62) \<le> t \<and> t < 2 ^ 62) epochs"
  shows "list_all nonneg (intervals_of epochs)"
proof -
  have "nonneg (fl_of_int F64 (wrap_i64 (b - a)))" if ab: "(a, b) \<in> set (windows2 epochs)" for a b
  proof -
    from windows2_sorted [OF assms(1) ab] have "a \<le> b" "a \<in> set epochs" "b \<in> set epochs" by simp_all
    moreover from assms(2) have "- (2 ^ 62) \<le> t \<and> t < 2 ^ 62" if "t \<in> set epochs" for t
      using that by (simp add: list_all_iff)
    ultimately have "0 \<le> b - a" "- (2 ^ 62) \<le> a" "b < 2 ^ 62" by simp_all
    then show ?thesis by (simp add: wrap_i64_def in_i64_def nonneg_of_int)
  qed
  then show ?thesis by (auto simp: intervals_of_def list_all_iff)
qed

text \<open>the score of sorted event times that are at most 2 ^ 62 seconds from the epoch is a
  number between zero and one, never a NaN or an infinity, and its bit pattern in the feature row
  reads back as that number.\<close>

theorem regularity_in_unit:
  assumes "sorted epochs" "list_all (\<lambda>t. - (2 ^ 62) \<le> t \<and> t < 2 ^ 62) epochs"
  shows "\<exists>s m e. regularity epochs = Fin s m e \<and> 0 \<le> fl_val (regularity epochs) \<and> fl_val (regularity epochs) \<le> 1 \<and>
    fl_of_bits F64 (bits_of F64 (regularity epochs)) = regularity epochs"
proof -
  let ?P = "\<lambda>x. \<exists>s m e. x = Fin s m e \<and> 0 \<le> fl_val x \<and> fl_val x \<le> 1 \<and> fl_of_bits F64 (bits_of F64 x) = x"
  have zero: "?P (zero F64)" using bits_round_trip [of F64 "zero F64"] by (simp add: zero_def ex_bool_eq)
  show ?thesis
  proof (cases "length epochs < 2")
    case True
    then show ?thesis using zero by (simp add: regularity_def)
  next
    case False
    define xs where "xs = intervals_of epochs"
    define n where "n = fl_of_int F64 (int (length xs))"
    define mean where "mean = fdiv F64 (fsum xs) n"
    define sq where "sq = map (\<lambda>x. let d = fsub F64 x mean in fmul F64 d d) xs"
    define cv where "cv = fdiv F64 (fsqrt (fdiv F64 (fsum sq) n)) mean"
    have nonempty: "xs \<noteq> []" "sq \<noteq> []"
      using False length_windows2 [of epochs] by (auto simp: xs_def sq_def intervals_of_def)
    have "nonneg n" by (simp add: n_def nonneg_of_int)
    moreover have "nonneg (fsum xs)"
      using nonneg_fsum [OF nonempty(1)] intervals_nonneg [OF assms] by (simp add: xs_def)
    ultimately have mean: "nonneg mean" unfolding mean_def by (rule nonneg_fdiv [rotated])
    have "nonneg (fsum sq)"
      by (rule nonneg_fsum [OF nonempty(2)]) (auto simp: sq_def list_all_iff Let_def nonneg_square)
    with \<open>nonneg n\<close> mean have "nonneg cv" by (simp add: cv_def nonneg_fdiv nonneg_fsqrt)
    then obtain s m e where score: "fmax (fsub F64 one cv) (zero F64) = Fin s m e"
      "0 \<le> fl_val (Fin s m e)" "fl_val (Fin s m e) \<le> 1"
      by (rule one_minus_unit)
    have "fl_wf F64 (Fin s m e)"
      unfolding score(1) [symmetric] by (intro fmax_wf fsub_wf) (simp add: zero_def)
    then have "fl_of_bits F64 (bits_of F64 (Fin s m e)) = Fin s m e" by (rule bits_round_trip) simp
    with score have "?P (fmax (fsub F64 one cv) (zero F64))" unfolding score(1) by blast
    moreover have "regularity epochs = (if feq mean (zero F64) then zero F64 else fmax (fsub F64 one cv) (zero F64))"
      using False by (simp add: regularity_def Let_def xs_def n_def mean_def sq_def cv_def)
    ultimately show ?thesis using zero by simp
  qed
qed

text \<open>Visits 10, 10 and 20 seconds apart score 0.6464466094067263.\<close>

theorem regularity_in_unit_witness:
  "bits_of F64 (regularity [0, 10, 20, 40]) = 4603997892963754522 \<and> fl_val (regularity [0, 10, 20, 40]) \<le> 1"
proof
  show "bits_of F64 (regularity [0, 10, 20, 40]) = 4603997892963754522"
    unfolding regularity_def intervals_of_def windows2.simps list.map prod.case
    by (simp add: fl_eval cong: let_weak_cong)
  show "fl_val (regularity [0, 10, 20, 40]) \<le> 1"
    using regularity_in_unit [of "[0, 10, 20, 40]"] by simp
qed

subsection \<open>Its output\<close>

text \<open>C35: a run of the cadence producer that succeeds gives one feature per user with an event whose
  time parses, in some order: the score of exactly that user's times, sorted, stamped with the
  producer and with the instant asked for.\<close>

theorem cadence_one_row_per_user:
  assumes "cadence_run query ch order orders producer_id as_of = Inr rows"
    and "query (cadence_sql orders) [VText as_of] = Inr qr" "\<forall>xs. mset (order xs) = mset xs"
  shows "distinct (map fr_user_id rows) \<and>
     set rows = {\<lparr>fr_user_id = u, fr_feature_name = FEATURE_NAME,
        fr_num_value = bits_of F64 (regularity (sort (map snd (filter (\<lambda>p. fst p = u) (List.map_filter (cadence_event ch) (qr_rows qr)))))),
        fr_as_of_ts = as_of, fr_producer_id = producer_id\<rparr> |u.
        u \<in> fst ` set (List.map_filter (cadence_event ch) (qr_rows qr))}"
proof -
  let ?ps = "List.map_filter (cadence_event ch) (qr_rows qr)"
  let ?m = "bt_push_all ?ps"
  have rows: "rows = map (cadence_row producer_id as_of) (order ?m)"
    using assms(1,2) by (auto simp: cadence_run_def rbind_Inr_iff)
  have keys: "distinct (map fst ?m)" using bt.entries_sorted [OF bt_inv_push_all] by blast
  have "mset (map fst (order ?m)) = mset (map fst ?m)" using assms(3) by (metis mset_map)
  with keys have "distinct (map fst (order ?m))" by (metis mset_eq_imp_distinct_iff)
  moreover have "map fr_user_id rows = map fst (order ?m)"
    by (simp add: rows cadence_row_def case_prod_unfold)
  ultimately have dist: "distinct (map fr_user_id rows)" by simp
  have same: "set (order ?m) = set ?m" using assms(3) by (metis mset_eq_setD)
  have entries: "set ?m = {(u, map snd (filter (\<lambda>p. fst p = u) ?ps)) |u. u \<in> fst ` set ?ps}"
  proof -
    have "(u, ts) \<in> set ?m \<longleftrightarrow> bt_get ?m u = Some ts" for u ts
      using keys by (simp add: bt_get_map_of)
    then have "(u, ts) \<in> set ?m \<longleftrightarrow> u \<in> fst ` set ?ps \<and> ts = map snd (filter (\<lambda>p. fst p = u) ?ps)" for u ts
      by (cases "u \<in> fst ` set ?ps") (simp_all add: bt_get_push_all eq_commute)
    then have "p \<in> set ?m \<longleftrightarrow> (\<exists>u. p = (u, map snd (filter (\<lambda>p. fst p = u) ?ps)) \<and> u \<in> fst ` set ?ps)" for p
      by (cases p) blast
    then show ?thesis by blast
  qed
  have "set rows = cadence_row producer_id as_of ` {(u, map snd (filter (\<lambda>p. fst p = u) ?ps)) |u. u \<in> fst ` set ?ps}"
    unfolding rows set_map same entries ..
  also have "\<dots> = {cadence_row producer_id as_of (u, map snd (filter (\<lambda>p. fst p = u) ?ps)) |u. u \<in> fst ` set ?ps}"
    by blast
  finally show ?thesis using dist unfolding cadence_row_def prod.case by blast
qed

definition sample_events :: query_result where
  "sample_events = \<lparr>qr_columns = [''user_id'', ''ts''],
     qr_rows = [[JString ''u1'', JString ''b''], [JString ''u2'', JString ''a''], [JString ''u1'', JString ''a''], [JNull, JString ''a'']]\<rparr>"

definition sample_epoch :: "string \<Rightarrow> int option" where
  "sample_epoch s = (if s = ''a'' then Some 10 else if s = ''b'' then Some 20 else None)"

definition sample_chrono :: chrono where
  "sample_chrono = \<lparr>ch_rfc3339 = \<lambda>_. None, ch_datetime = \<lambda>_. None, ch_date = sample_epoch\<rparr>"

theorem cadence_one_row_per_user_witness:
  "\<exists>rows. cadence_run (\<lambda>sql ps. Inr sample_events) sample_chrono (\<lambda>m. m)
       \<lparr>ds_system = ''erp'', ds_entity = ''orders''\<rparr> ''cadence_sql'' ''2026'' = Inr rows \<and>
     distinct (map fr_user_id rows) \<and> ''u1'' \<in> fr_user_id ` set rows"
proof -
  have ids: "IDENT_RE ''erp'' = True" "IDENT_RE ''orders'' = True" by code_simp+
  have "length (qr_rows sample_events) \<le> SCAN_ROW_CAP" by (simp add: sample_events_def SCAN_ROW_CAP_def)
  with ids obtain rows where run: "cadence_run (\<lambda>sql ps. Inr sample_events) sample_chrono (\<lambda>m. m)
       \<lparr>ds_system = ''erp'', ds_entity = ''orders''\<rparr> ''cadence_sql'' ''2026'' = Inr rows"
    by (auto simp: cadence_run_def rbind_def validate_ident_def guard_def)
  have "(''u1'', 20) \<in> set (List.map_filter (cadence_event sample_chrono) (qr_rows sample_events))"
    by (simp add: sample_events_def map_filter_simps cadence_event_def parse_epoch_def sample_chrono_def sample_epoch_def)
  with cadence_one_row_per_user [OF run refl] run show ?thesis by (force simp: image_iff)
qed

end
