(* ===== verification/Storage_Base.thy ===== *)
theory Storage_Base
  imports Query_Compiler Effects Core_Config
begin

text \<open>
  \<open>crates/storage/src/lib.rs\<close>, what the operations of the writer share: the DuckDB connection as a
  log of calls, the writer's own state, chunks, identifiers and the tables the engine creates.
  DuckDB and DuckLake are not part of the program: what a call returns is the environment's
  choice, a function of the whole log. The operations themselves are in \<open>Storage_Raw\<close> and
  \<open>Storage_Tables\<close>.
\<close>

subsection \<open>The connection\<close>

text \<open>\<open>execute_batch\<close>, \<open>prepare\<close>, \<open>execute\<close> and \<open>query_map\<close>; the advance of the shared write generation;
  and the lock file.\<close>

datatype db_event =
    Batch_stmt string
  | Prepare_stmt string
  | Execute_stmt string "dval list"
  | Query_stmt string "dval list"
  | Generation
  | Open_lock string
  | Try_lock string
  | Open_memory

type_synonym db_log = "db_event list"

text \<open>An operation ends with an error of the crate or with a panic, which unwinds past every
  handler of the thread.\<close>

datatype failure = Failed core_error | Panicked

type_synonym 'a db = "(db_event, failure, 'a) logged"

definition checked :: "(core_error, 'a) result \<Rightarrow> 'a db" where
  "checked r = elift (map_err Failed r)"

record db_env =
  de_unit :: "db_log \<Rightarrow> (msg, unit) result"
  de_count :: "db_log \<Rightarrow> (msg, nat) result"
  de_names :: "db_log \<Rightarrow> (msg, string list) result"
  de_pairs :: "db_log \<Rightarrow> (msg, (int \<times> int) list) result"
  de_json :: "json \<Rightarrow> (msg, string) result"
  de_now :: "db_log \<Rightarrow> string"

type_synonym table_row = "string option list"

record writer =
  wr_tenant :: string
  wr_gen :: bool
  wr_maintenance :: bool

definition execute_batch :: "db_env \<Rightarrow> string \<Rightarrow> unit db" where
  "execute_batch env sql = ebind (ask (Batch_stmt sql) (de_unit env)) (\<lambda>r. checked (map_err Storage r))"

definition db_prepare :: "db_env \<Rightarrow> string \<Rightarrow> unit db" where
  "db_prepare env sql = ebind (ask (Prepare_stmt sql) (de_unit env)) (\<lambda>r. checked (map_err Storage r))"

definition db_execute :: "db_env \<Rightarrow> string \<Rightarrow> dval list \<Rightarrow> nat db" where
  "db_execute env sql params = ebind (ask (Execute_stmt sql params) (de_count env)) (\<lambda>r. checked (map_err Storage r))"

definition db_query :: "(db_log \<Rightarrow> (msg, 'a) result) \<Rightarrow> string \<Rightarrow> dval list \<Rightarrow> 'a db" where
  "db_query answer sql params = ebind (ask (Query_stmt sql params) answer) (\<lambda>r. checked (map_err Storage r))"

definition prepare_execute :: "db_env \<Rightarrow> string \<Rightarrow> dval list \<Rightarrow> nat db" where
  "prepare_execute env sql params = ebind (db_prepare env sql) (\<lambda>_. db_execute env sql params)"

definition try_each :: "('a \<Rightarrow> (core_error, unit) result) \<Rightarrow> 'a list \<Rightarrow> unit db" where
  "try_each f xs = checked (each f xs)"

definition bump_write :: "writer \<Rightarrow> unit db" where
  "bump_write w = (if wr_gen w then ask Generation (\<lambda>_. ()) else eret ())"

definition with_tenant :: "string \<Rightarrow> writer \<Rightarrow> writer" where
  "with_tenant t w = w\<lparr>wr_tenant := t\<rparr>"

text \<open>Summing the counts of a loop whose body ends in \<open>?\<close>.\<close>

fun esum :: "('a \<Rightarrow> nat db) \<Rightarrow> 'a list \<Rightarrow> nat db" where
  "esum f [] = eret 0"
| "esum f (x # xs) = ebind (f x) (\<lambda>n. ebind (esum f xs) (\<lambda>m. eret (n + m)))"

text \<open>\<open>BEGIN\<close>, the body, then \<open>COMMIT\<close> and the generation, or a \<open>ROLLBACK\<close> whose own failure is
  ignored.\<close>

definition transaction :: "db_env \<Rightarrow> writer \<Rightarrow> nat db \<Rightarrow> nat db" where
  "transaction env w body =
     ebind (execute_batch env ''BEGIN TRANSACTION'') (\<lambda>_ log.
     case body log of
       (Inr n, log) \<Rightarrow>
         ebind (execute_batch env ''COMMIT'') (\<lambda>_. ebind (bump_write w) (\<lambda>_. eret n)) log
     | (Inl (Failed e), log) \<Rightarrow> (Inl (Failed e), snd (execute_batch env ''ROLLBACK'' log))
     | (Inl Panicked, log) \<Rightarrow> (Inl Panicked, log))"

subsection \<open>Chunks\<close>

text \<open>\<open>slice.chunks(n)\<close>, which panics on \<open>n = 0\<close>.\<close>

function chunks :: "nat \<Rightarrow> 'a list \<Rightarrow> 'a list list" where
  "chunks n [] = []"
| "chunks n (x # xs) = (if n = 0 then [] else take n (x # xs) # chunks n (drop n (x # xs)))"
  by pat_completeness auto
termination by (relation "measure (\<lambda>(n, xs). length xs)") auto

declare chunks.simps(2) [simp del]

lemma concat_chunks: "n \<noteq> 0 \<Longrightarrow> concat (chunks n xs) = xs"
proof (induction n xs rule: chunks.induct)
  case (2 n x xs)
  then have "concat (chunks n (drop n (x # xs))) = drop n (x # xs)" by simp
  with 2 show ?case by (simp add: chunks.simps(2) del: drop.simps take.simps)
qed simp

lemma chunks_bounds: "c \<in> set (chunks n xs) \<Longrightarrow> c \<noteq> [] \<and> length c \<le> n \<and> set c \<subseteq> set xs"
proof (induction n xs rule: chunks.induct)
  case (2 n x xs)
  show ?case
  proof (cases "n = 0 \<or> c = take n (x # xs)")
    case True
    with 2(2) show ?thesis
      by (cases n) (auto simp: chunks.simps(2) dest: in_set_takeD)
  next
    case False
    with 2(2) have "c \<in> set (chunks n (drop n (x # xs)))"
      by (simp add: chunks.simps(2) del: drop.simps take.simps)
    with False have "c \<noteq> [] \<and> length c \<le> n \<and> set c \<subseteq> set (drop n (x # xs))"
      by (intro 2(1)) simp_all
    with set_drop_subset [of n "x # xs"] show ?thesis by (meson subset_trans)
  qed
qed simp

lemma ceiling_step:
  assumes "n \<noteq> 0" "l \<noteq> (0::nat)"
  shows "Suc ((l - n + n - 1) div n) = (l + n - 1) div n"
proof (cases "l \<le> n")
  case True
  with assms have "(l + n - 1) div n = 1" "(l - n + n - 1) div n = 0" by (auto intro!: div_nat_eqI)
  then show ?thesis by simp
next
  case False
  then have "l + n - 1 = (l - n + n - 1) + n" by simp
  with assms(1) show ?thesis by (metis Suc_eq_plus1 div_add_self2)
qed

lemma length_chunks: "n \<noteq> 0 \<Longrightarrow> length (chunks n xs) = (length xs + n - 1) div n"
proof (induction n xs rule: chunks.induct)
  case (2 n x xs)
  from 2(1) [OF 2(2) 2(2)]
  have "length (chunks n (drop n (x # xs))) = (length (x # xs) - n + n - 1) div n"
    unfolding length_drop .
  with 2(2) have "length (chunks n (x # xs)) =
    Suc ((length (x # xs) - n + n - 1) div n)"
    unfolding chunks.simps(2) by simp
  also have "\<dots> = (length (x # xs) + n - 1) div n" by (rule ceiling_step) (use 2(2) in simp_all)
  finally show ?case .
qed simp

subsection \<open>Names and placeholders\<close>

definition raw_table_name :: "string \<Rightarrow> string \<Rightarrow> (core_error, string) result" where
  "raw_table_name sys ent =
     rbind (validate_ident sys) (\<lambda>_.
     rbind (validate_ident ent) (\<lambda>_.
     Inr (''raw_'' @ sys @ ''_'' @ ent)))"

text \<open>\<open>s.replace('\'', "''")\<close>\<close>

definition escape_for_sql_literal :: "string \<Rightarrow> string" where
  "escape_for_sql_literal s = concat (map (\<lambda>c. if c = CHR 0x27 then [CHR 0x27, CHR 0x27] else [c]) s)"

definition holes :: "nat \<Rightarrow> string" where
  "holes n = join '', '' (replicate n ''?'')"

definition row_holes :: "nat \<Rightarrow> string" where
  "row_holes n = ''('' @ holes n @ '')''"

lemma qmarks_holes [simp]: "qmarks (holes n) = n"
proof -
  have "sum_list (map qmarks (replicate n ''?'')) = n" by (induction n) simp_all
  then show ?thesis by (simp add: holes_def qmarks_join)
qed

lemma qmarks_row_holes [simp]: "qmarks (row_holes n) = n"
  by (simp add: row_holes_def)

text \<open>\<open>k\<close> rows of \<open>n\<close> placeholders.\<close>

definition multi_rows :: "nat \<Rightarrow> nat \<Rightarrow> string" where
  "multi_rows k n = join '', '' (replicate k (row_holes n))"

lemma qmarks_multi_rows [simp]: "qmarks (multi_rows k n) = k * n"
proof -
  have "sum_list (map qmarks (replicate k (row_holes n))) = k * n" by (induction k) simp_all
  then show ?thesis by (simp add: multi_rows_def qmarks_join)
qed

text \<open>A table of the catalog, qualified; the value bound for a cell.\<close>

definition dl :: "string \<Rightarrow> string" where
  "dl table = WRITE_CATALOG_ALIAS @ ''.'' @ table"

definition cell_value :: "string option \<Rightarrow> dval" where
  "cell_value v = (case v of Some s \<Rightarrow> VText s | None \<Rightarrow> VNull)"

lemma qmarks_dl [simp, qm_simps]: "qmarks (dl t) = qmarks t"
  by (simp add: dl_def WRITE_CATALOG_ALIAS_def)

lemma raw_table_name_Inr:
  "raw_table_name sys ent = Inr t \<longleftrightarrow> IDENT_RE sys \<and> IDENT_RE ent \<and> t = ''raw_'' @ sys @ ''_'' @ ent"
  by (auto simp: raw_table_name_def result_simps)

end
