(* ===== verification/Storage_Raw.thy ===== *)
theory Storage_Raw
  imports Storage_Base
begin

text \<open>
  \<open>crates/storage/src/lib.rs\<close>: the raw tables. Appending a batch in chunks, the upsert and the
  logical delete by merge, the atomic CDC batch with its offsets and the offsets a restart reads.
  The SQL texts are definitions of their own, so that the lemmas can name them.
\<close>

subsection \<open>Appending\<close>

definition MAX_PARAMS :: nat where
  "MAX_PARAMS = 65535"

definition CHUNK_ROWS :: nat where
  "CHUNK_ROWS = 500"

definition chunk_rows :: "nat \<Rightarrow> nat" where
  "chunk_rows cols = min CHUNK_ROWS (MAX_PARAMS div max cols 1)"

text \<open>\<open>rows.chunks(0)\<close> panics, which a table wider than \<open>MAX_PARAMS\<close> reaches.\<close>

definition insert_chunked :: "db_env \<Rightarrow> string \<Rightarrow> nat \<Rightarrow> 'r list \<Rightarrow> ('r \<Rightarrow> dval list) \<Rightarrow> nat db" where
  "insert_chunked env insert_prefix cols rows bind =
     (if rows = [] then eret 0
      else if chunk_rows cols = 0 then efail Panicked
      else esum (\<lambda>chunk. prepare_execute env (insert_prefix @ multi_rows (length chunk) cols)
                           (concat (map bind chunk)))
             (chunks (chunk_rows cols) rows))"

definition create_raw_sql :: "string \<Rightarrow> string list \<Rightarrow> string" where
  "create_raw_sql table columns =
     ''CREATE TABLE IF NOT EXISTS '' @ dl table @ '' ('' @
     join '', '' (map (\<lambda>c. c @ '' VARCHAR'') columns @ [''tenant_id VARCHAR'']) @ '')''"

definition add_tenant_sql :: "string \<Rightarrow> string" where
  "add_tenant_sql table = ''ALTER TABLE '' @ dl table @ '' ADD COLUMN IF NOT EXISTS tenant_id VARCHAR''"

definition ensure_raw :: "db_env \<Rightarrow> string \<Rightarrow> string list \<Rightarrow> unit db" where
  "ensure_raw env table columns =
     ebind (execute_batch env (create_raw_sql table columns)) (\<lambda>_.
     execute_batch env (add_tenant_sql table))"

definition insert_raw_prefix :: "string \<Rightarrow> string list \<Rightarrow> string" where
  "insert_raw_prefix table columns =
     ''INSERT INTO '' @ dl table @ '' ('' @ join '', '' columns @ '', tenant_id) VALUES ''"

definition bind_row :: "string \<Rightarrow> table_row \<Rightarrow> dval list" where
  "bind_row tenant row = map cell_value row @ [VText tenant]"

definition no_columns :: core_error where
  "no_columns = InvalidInput (Msg ''columns must not be empty'' [])"

definition writer_ingest_raw ::
  "db_env \<Rightarrow> writer \<Rightarrow> string \<Rightarrow> string \<Rightarrow> string list \<Rightarrow> table_row list \<Rightarrow> nat db"
where
  "writer_ingest_raw env w sys ent columns rows =
     ebind (checked (guard (columns \<noteq> []) no_columns)) (\<lambda>_.
     ebind (try_each validate_ident columns) (\<lambda>_.
     ebind (checked (raw_table_name sys ent)) (\<lambda>table.
     ebind (ensure_raw env table columns) (\<lambda>_.
     if rows = [] then eret 0
     else
       ebind (insert_chunked env (insert_raw_prefix table columns) (length columns + 1) rows
                (bind_row (wr_tenant w))) (\<lambda>n.
       ebind (bump_write w) (\<lambda>_. eret n))))))"

subsection \<open>Upserting and deleting\<close>

text \<open>The cell a row is merged by, when it has one and it is not NULL.\<close>

definition row_key :: "nat \<Rightarrow> table_row \<Rightarrow> string option" where
  "row_key key_idx row = (if key_idx < length row then row ! key_idx else None)"

text \<open>\<open>seen\<close> is the \<open>HashMap\<close> of the slot each key was pushed at.\<close>

definition dedup_step ::
  "nat \<Rightarrow> table_row \<Rightarrow> table_row list \<times> (string \<rightharpoonup> nat) \<Rightarrow> table_row list \<times> (string \<rightharpoonup> nat)"
where
  "dedup_step key_idx row = (\<lambda>(deduped, seen).
     case row_key key_idx row of
       None \<Rightarrow> (deduped, seen)
     | Some k \<Rightarrow>
         (case seen k of
            Some i \<Rightarrow> (deduped[i := row], seen)
          | None \<Rightarrow> (deduped @ [row], seen(k \<mapsto> length deduped))))"

definition dedup_by_key :: "table_row list \<Rightarrow> nat \<Rightarrow> table_row list" where
  "dedup_by_key rows key_idx = fst (fold (dedup_step key_idx) rows ([], Map.empty))"

definition MERGE_CHUNK_ROWS :: nat where
  "MERGE_CHUNK_ROWS = 500"

definition MERGE_CHUNK_KEYS :: nat where
  "MERGE_CHUNK_KEYS = 500"

definition upsert_sql :: "string \<Rightarrow> string list \<Rightarrow> string \<Rightarrow> nat \<Rightarrow> string" where
  "upsert_sql table columns key n =
     (let cols_all = columns @ [''tenant_id'']; cols_names = join '', '' cols_all
      in ''MERGE INTO '' @ dl table @ '' AS t USING (VALUES '' @ multi_rows n (length cols_all) @
         '') AS s('' @ cols_names @ '') ON t.'' @ key @ '' = s.'' @ key @
         '' WHEN MATCHED THEN UPDATE SET '' @ join '', '' (map (\<lambda>c. c @ '' = s.'' @ c) cols_all) @
         '' WHEN NOT MATCHED THEN INSERT ('' @ cols_names @ '') VALUES ('' @
         join '', '' (map (\<lambda>c. ''s.'' @ c) cols_all) @ '')'')"

definition merge_upserts ::
  "db_env \<Rightarrow> writer \<Rightarrow> string \<Rightarrow> string list \<Rightarrow> string \<Rightarrow> table_row list \<Rightarrow> nat db"
where
  "merge_upserts env w table columns key deduped =
     esum (\<lambda>chunk. prepare_execute env (upsert_sql table columns key (length chunk))
                     (concat (map (bind_row (wr_tenant w)) chunk)))
       (chunks MERGE_CHUNK_ROWS deduped)"

definition delete_sql :: "string \<Rightarrow> string \<Rightarrow> nat \<Rightarrow> string" where
  "delete_sql table key n =
     ''MERGE INTO '' @ dl table @ '' AS t USING (VALUES '' @ join '', '' (replicate n ''(?)'') @
     '') AS s('' @ key @ '') ON t.'' @ key @ '' = s.'' @ key @
     '' AND t.tenant_id = ? WHEN MATCHED THEN DELETE''"

definition merge_deletes :: "db_env \<Rightarrow> writer \<Rightarrow> string \<Rightarrow> string \<Rightarrow> string list \<Rightarrow> nat db" where
  "merge_deletes env w table key keys =
     esum (\<lambda>chunk. prepare_execute env (delete_sql table key (length chunk))
                     (map VText chunk @ [VText (wr_tenant w)]))
       (chunks MERGE_CHUNK_KEYS keys)"

fun position :: "('a \<Rightarrow> bool) \<Rightarrow> 'a list \<Rightarrow> nat option" where
  "position P [] = None"
| "position P (x # xs) = (if P x then Some 0 else map_option Suc (position P xs))"

definition not_a_column :: "string \<Rightarrow> core_error" where
  "not_a_column key = InvalidInput (Msg ''merge key {key:?} must be a column'' [AStr key])"

definition key_index :: "string list \<Rightarrow> string \<Rightarrow> (core_error, nat) result" where
  "key_index columns key = ok_or (not_a_column key) (position (\<lambda>c. c = key) columns)"

definition upsert_raw ::
  "db_env \<Rightarrow> writer \<Rightarrow> string \<Rightarrow> string \<Rightarrow> string list \<Rightarrow> string \<Rightarrow> table_row list \<Rightarrow> nat db"
where
  "upsert_raw env w sys ent columns key rows =
     ebind (checked (guard (columns \<noteq> []) no_columns)) (\<lambda>_.
     ebind (try_each validate_ident columns) (\<lambda>_.
     ebind (checked (validate_ident key)) (\<lambda>_.
     ebind (checked (key_index columns key)) (\<lambda>key_idx.
     ebind (checked (raw_table_name sys ent)) (\<lambda>table.
     ebind (ensure_raw env table columns) (\<lambda>_.
     if rows = [] then eret 0
     else
       ebind (merge_upserts env w table columns key (dedup_by_key rows key_idx)) (\<lambda>affected.
       ebind (bump_write w) (\<lambda>_. eret affected))))))))"

definition delete_raw :: "db_env \<Rightarrow> writer \<Rightarrow> string \<Rightarrow> string \<Rightarrow> string \<Rightarrow> string list \<Rightarrow> nat db" where
  "delete_raw env w sys ent key keys =
     ebind (checked (validate_ident key)) (\<lambda>_.
     ebind (checked (raw_table_name sys ent)) (\<lambda>table.
     if keys = [] then eret 0
     else
       ebind (merge_deletes env w table key keys) (\<lambda>affected.
       ebind (bump_write w) (\<lambda>_. eret affected))))"

subsection \<open>The CDC batch\<close>

definition create_offsets_sql :: string where
  "create_offsets_sql =
     ''CREATE TABLE IF NOT EXISTS '' @ dl ''cdc_offsets'' @
     '' (source VARCHAR, partition BIGINT, cdc_offset BIGINT, updated_at TIMESTAMPTZ)''"

definition offset_sql :: string where
  "offset_sql =
     ''MERGE INTO '' @ dl ''cdc_offsets'' @ '' AS t USING (VALUES (?, ?, ?, ?)) AS '' @
     ''s(source, partition, cdc_offset, updated_at) ON t.source = s.source AND t.partition '' @
     ''= s.partition WHEN MATCHED THEN UPDATE SET cdc_offset = s.cdc_offset, updated_at = '' @
     ''s.updated_at WHEN NOT MATCHED THEN INSERT (source, partition, cdc_offset, '' @
     ''updated_at) VALUES (s.source, s.partition, s.cdc_offset, s.updated_at)''"

definition upsert_cdc_offset :: "db_env \<Rightarrow> string \<Rightarrow> int \<Rightarrow> int \<Rightarrow> string \<Rightarrow> unit db" where
  "upsert_cdc_offset env source part cdc_offset updated_at =
     ebind (prepare_execute env offset_sql
              [VText source, VInt part, VBigInt cdc_offset, VText updated_at]) (\<lambda>_. eret ())"

text \<open>The body of the transaction: the tables, the upserts, the deletes and one offset per
  partition.\<close>

definition cdc_body ::
  "db_env \<Rightarrow> writer \<Rightarrow> string \<Rightarrow> string \<Rightarrow> string list \<Rightarrow> string \<Rightarrow> table_row list \<Rightarrow> string list \<Rightarrow>
     (int \<times> int) list \<Rightarrow> nat db"
where
  "cdc_body env w table source columns key upserts deletes offsets =
     ebind (ensure_raw env table columns) (\<lambda>_.
     ebind (execute_batch env create_offsets_sql) (\<lambda>_.
     ebind (checked (key_index columns key)) (\<lambda>key_idx.
     ebind (merge_upserts env w table columns key (dedup_by_key upserts key_idx)) (\<lambda>written.
     ebind (merge_deletes env w table key deletes) (\<lambda>_.
     ebind (eeach (\<lambda>(part, cdc_offset).
              ebind (peek (de_now env)) (upsert_cdc_offset env source part cdc_offset)) offsets) (\<lambda>_.
     eret written))))))"

definition apply_cdc_batch ::
  "db_env \<Rightarrow> writer \<Rightarrow> string \<Rightarrow> string \<Rightarrow> string list \<Rightarrow> string \<Rightarrow> table_row list \<Rightarrow> string list \<Rightarrow>
     (int \<times> int) list \<Rightarrow> nat db"
where
  "apply_cdc_batch env w sys ent columns key upserts deletes offsets =
     ebind (checked (guard (columns \<noteq> []) no_columns)) (\<lambda>_.
     ebind (try_each validate_ident columns) (\<lambda>_.
     ebind (checked (validate_ident key)) (\<lambda>_.
     ebind (checked (guard (key \<in> set columns) (not_a_column key))) (\<lambda>_.
     ebind (checked (raw_table_name sys ent)) (\<lambda>table.
     transaction env w
       (cdc_body env w table (sys @ ''.'' @ ent) columns key upserts deletes offsets))))))"

text \<open>\<open>as i32\<close> on the \<open>BIGINT\<close> column truncates.\<close>

definition as_i32 :: "int \<Rightarrow> int" where
  "as_i32 n = (n + 2147483648) mod 4294967296 - 2147483648"

definition offsets_query :: string where
  "offsets_query = ''SELECT partition, cdc_offset FROM '' @ dl ''cdc_offsets'' @ '' WHERE source = ?''"

definition read_cdc_offsets :: "db_env \<Rightarrow> string \<Rightarrow> (int \<times> int) list db" where
  "read_cdc_offsets env source =
     ebind (execute_batch env create_offsets_sql) (\<lambda>_.
     ebind (db_prepare env offsets_query) (\<lambda>_.
     ebind (db_query (de_pairs env) offsets_query [VText source]) (\<lambda>pairs.
     eret (map (\<lambda>(p, off). (as_i32 p, off)) pairs))))"

end
