(* ===== verification/Storage_Tables.thy ===== *)
theory Storage_Tables
  imports Storage_Raw Core_Labels Keyed_Maps
begin

text \<open>
  \<open>crates/storage/src/lib.rs\<close>: the tables the engine owns. Creating them, the idempotent
  suppression append, features with their wide views, the semantic catalogue, audience snapshots,
  maintenance, and attaching the catalog for writing and for reading.
\<close>

subsection \<open>Creating the tables\<close>

definition ensure_table :: "db_env \<Rightarrow> string \<Rightarrow> string \<Rightarrow> unit db" where
  "ensure_table env table columns =
     ebind (execute_batch env (''CREATE TABLE IF NOT EXISTS '' @ dl table @ columns)) (\<lambda>_.
     execute_batch env (add_tenant_sql table))"

definition feature_store_columns :: string where
  "feature_store_columns =
     '' (user_id VARCHAR, feature_name VARCHAR, num_value DOUBLE, as_of_ts TIMESTAMPTZ, '' @
      ''producer_id VARCHAR, tenant_id VARCHAR)''"

definition ensure_feature_store_table :: "db_env \<Rightarrow> unit db" where
  "ensure_feature_store_table env = ensure_table env ''feature_store'' feature_store_columns"

definition semantic_catalog_columns :: string where
  "semantic_catalog_columns =
     '' (entity_type VARCHAR, system VARCHAR, table_name VARCHAR, column_name VARCHAR, '' @
      ''semantic_type VARCHAR, data_type VARCHAR, description VARCHAR, pii_flag BOOLEAN, '' @
      ''sample_values JSON, embedding FLOAT[], source_epoch BIGINT, tenant_id VARCHAR)''"

definition ensure_semantic_catalog_table :: "db_env \<Rightarrow> unit db" where
  "ensure_semantic_catalog_table env = ensure_table env ''semantic_catalog'' semantic_catalog_columns"

definition suppression_columns :: string where
  "suppression_columns =
     '' (suppression_id UUID, campaign_id VARCHAR, user_id VARCHAR, channel VARCHAR, '' @
      ''action VARCHAR, occurred_ts TIMESTAMPTZ, received_ts TIMESTAMPTZ, tenant_id VARCHAR)''"

definition ensure_suppression_table :: "db_env \<Rightarrow> unit db" where
  "ensure_suppression_table env = ensure_table env ''suppression'' suppression_columns"

definition audience_snapshot_columns :: string where
  "audience_snapshot_columns =
     '' (snapshot_id UUID, campaign_id VARCHAR, as_of_ts TIMESTAMPTZ, user_id VARCHAR, '' @
      ''features JSON, hit_reason JSON, tenant_id VARCHAR)''"

definition ensure_audience_snapshot_table :: "db_env \<Rightarrow> unit db" where
  "ensure_audience_snapshot_table env = ensure_table env ''audience_snapshot'' audience_snapshot_columns"

subsection \<open>Suppression\<close>

definition suppression_sql :: string where
  "suppression_sql =
     ''INSERT INTO '' @ dl ''suppression'' @ '' (suppression_id, campaign_id, user_id, '' @
     ''channel, action, occurred_ts, received_ts, tenant_id) SELECT CAST(? AS UUID), ?, ?, '' @
     ''?, ?, CAST(? AS TIMESTAMPTZ), CAST(? AS TIMESTAMPTZ), ? WHERE NOT EXISTS (SELECT 1 '' @
     ''FROM '' @ dl ''suppression'' @ '' WHERE suppression_id = CAST(? AS UUID))''"

definition suppression_params :: "string \<Rightarrow> suppression_row \<Rightarrow> dval list" where
  "suppression_params tenant r =
     [VText (sr_suppression_id r), VText (sr_campaign_id r), VText (sr_user_id r),
      VText (channel_as_str (sr_channel r)), VText (action_as_str (sr_action r)),
      VText (sr_occurred_ts r), VText (sr_received_ts r), VText tenant, VText (sr_suppression_id r)]"

definition write_suppression_idempotent :: "db_env \<Rightarrow> writer \<Rightarrow> suppression_row list \<Rightarrow> nat db" where
  "write_suppression_idempotent env w rows =
     (if rows = [] then eret 0
      else
        ebind (ensure_suppression_table env) (\<lambda>_.
        ebind (db_prepare env suppression_sql) (\<lambda>_.
        ebind (esum (\<lambda>r. db_execute env suppression_sql (suppression_params (wr_tenant w) r)) rows) (\<lambda>written.
        ebind (bump_write w) (\<lambda>_. eret written)))))"

subsection \<open>Features\<close>

definition bad_feature :: "string \<Rightarrow> core_error \<Rightarrow> core_error" where
  "bad_feature what e = InvalidInput (Msg (what @ '': {e}'') [AMsg (display_error e)])"

definition validate_feature_row :: "feature_row \<Rightarrow> (core_error, unit) result" where
  "validate_feature_row r =
     rbind (map_err (bad_feature ''feature_name'') (validate_feature_name (fr_feature_name r))) (\<lambda>_.
     map_err (bad_feature ''producer_id'') (validate_feature_name (fr_producer_id r)))"

definition feature_prefix :: string where
  "feature_prefix =
     ''INSERT INTO '' @ dl ''feature_store'' @ '' (user_id, feature_name, '' @
     ''num_value, as_of_ts, producer_id, tenant_id) VALUES ''"

definition bind_feature :: "string \<Rightarrow> feature_row \<Rightarrow> dval list" where
  "bind_feature tenant r =
     [VText (fr_user_id r), VText (fr_feature_name r), VDouble (fr_num_value r),
      VText (fr_as_of_ts r), VText (fr_producer_id r), VText tenant]"

definition write_feature_rows :: "db_env \<Rightarrow> writer \<Rightarrow> feature_row list \<Rightarrow> nat db" where
  "write_feature_rows env w rows =
     (if rows = [] then eret 0
      else
        ebind (try_each validate_feature_row rows) (\<lambda>_.
        ebind (ensure_feature_store_table env) (\<lambda>_.
        insert_chunked env feature_prefix 6 rows (bind_feature (wr_tenant w)))))"

definition short_names_sql :: string where
  "short_names_sql =
     ''SELECT DISTINCT feature_name FROM '' @ dl ''feature_store'' @ '' WHERE starts_with(feature_name, ?)''"

definition short_of :: "string \<Rightarrow> string option" where
  "short_of name = map_option snd (split_once CHR ''.'' name)"

definition feature_short_names :: "db_env \<Rightarrow> string \<Rightarrow> string list db" where
  "feature_short_names env family =
     ebind (checked (validate_ident family)) (\<lambda>_.
     ebind (ensure_feature_store_table env) (\<lambda>_.
     ebind (db_prepare env short_names_sql) (\<lambda>_.
     ebind (db_query (de_names env) short_names_sql [VText (family @ ''.'')]) (\<lambda>names.
     eret (bt_set (List.map_filter short_of names))))))"

definition wide_column :: "string \<Rightarrow> string \<Rightarrow> string" where
  "wide_column family short =
     ''arg_max(num_value, as_of_ts) FILTER (WHERE feature_name = '' @ [CHR 0x27] @ family @ ''.'' @ short @
     [CHR 0x27] @ '') AS '' @ short"

definition wide_view_sql :: "string \<Rightarrow> string list \<Rightarrow> string" where
  "wide_view_sql family shorts =
     ''CREATE OR REPLACE VIEW '' @ dl ''feature_wide_'' @ family @ '' AS SELECT '' @
     join '', '' ([''user_id'', ''tenant_id''] @ map (wide_column family) shorts) @
     '' FROM '' @ dl ''feature_store'' @ '' WHERE starts_with(feature_name, '' @ [CHR 0x27] @ family @ ''.'' @
     [CHR 0x27] @ '') GROUP BY user_id, tenant_id''"

definition refresh_feature_wide_view :: "db_env \<Rightarrow> string \<Rightarrow> string list \<Rightarrow> unit db" where
  "refresh_feature_wide_view env family shorts =
     ebind (checked (validate_ident family)) (\<lambda>_.
     if shorts = [] then eret ()
     else
       ebind (ensure_feature_store_table env) (\<lambda>_.
       ebind (try_each validate_ident shorts) (\<lambda>_.
       execute_batch env (wide_view_sql family shorts))))"

text \<open>The batch's families with their short names, a \<open>BTreeMap\<close> of \<open>BTreeSet\<close>s; a name that does
  not split ends the loop.\<close>

fun split_all :: "feature_row list \<Rightarrow> (core_error, (string \<times> string) list) result" where
  "split_all [] = Inr []"
| "split_all (r # rs) =
     rbind (split_feature_name (fr_feature_name r)) (\<lambda>p. rbind (split_all rs) (\<lambda>ps. Inr (p # ps)))"

definition batch_families :: "feature_row list \<Rightarrow> (core_error, (string \<times> string list) list) result" where
  "batch_families rows = rbind (split_all rows) (\<lambda>ps. Inr (bt_push_all ps))"

definition features_body :: "db_env \<Rightarrow> writer \<Rightarrow> feature_row list \<Rightarrow> nat db" where
  "features_body env w rows =
     ebind (write_feature_rows env w rows) (\<lambda>n.
     ebind (checked (batch_families rows)) (\<lambda>families.
     ebind (eeach (\<lambda>(family, batch_shorts).
              ebind (feature_short_names env family) (\<lambda>stored.
              refresh_feature_wide_view env family (bt_set (stored @ batch_shorts)))) families) (\<lambda>_.
     eret n)))"

definition write_features_and_refresh :: "db_env \<Rightarrow> writer \<Rightarrow> feature_row list \<Rightarrow> nat db" where
  "write_features_and_refresh env w rows =
     (if rows = [] then eret 0 else transaction env w (features_body env w rows))"

subsection \<open>The semantic catalogue\<close>

definition dimension_mismatch :: "nat \<Rightarrow> nat \<Rightarrow> core_error" where
  "dimension_mismatch dim got =
     InvalidInput (Msg ''catalog embedding dimension mismatch: expected {dim}, got {}'' [ANat dim, ANat got])"

definition embedding_expr :: "nat \<Rightarrow> string" where
  "embedding_expr dim = (if dim = 0 then ''list_value()'' else ''list_value('' @ holes dim @ '')'')"

definition catalog_sql :: "nat \<Rightarrow> string" where
  "catalog_sql dim =
     ''INSERT INTO '' @ dl ''semantic_catalog'' @ '' VALUES (?, ?, ?, ?, ?, ?, ?, ?, '' @
     ''CAST(? AS JSON), '' @ embedding_expr dim @ '', ?, ?)''"

definition catalog_params :: "string \<Rightarrow> string \<Rightarrow> catalog_row \<Rightarrow> dval list" where
  "catalog_params tenant sample r =
     [VText (ca_entity_type r), VText (ca_system r), VText (ca_table_name r), cell_value (ca_column_name r),
      VText (semantic_as_str (ca_semantic_type r)), VText (ca_data_type r), VText (ca_description r),
      VBoolean (ca_pii_flag r), VText sample] @
     map VFloat (ca_embedding r) @ [VBigInt (ca_source_epoch r), VText tenant]"

definition write_catalog_rows :: "db_env \<Rightarrow> writer \<Rightarrow> catalog_row list \<Rightarrow> nat db" where
  "write_catalog_rows env w rows =
     (case rows of
        [] \<Rightarrow> eret 0
      | r0 # _ \<Rightarrow>
          let dim = length (ca_embedding r0) in
          ebind (ensure_semantic_catalog_table env) (\<lambda>_.
          ebind (try_each (\<lambda>r. guard (length (ca_embedding r) = dim)
                   (dimension_mismatch dim (length (ca_embedding r)))) rows) (\<lambda>_.
          ebind (db_prepare env (catalog_sql dim)) (\<lambda>_.
          ebind (esum (\<lambda>r.
                   ebind (checked (map_err Storage (de_json env (ca_sample_values r)))) (\<lambda>sample.
                   db_execute env (catalog_sql dim) (catalog_params (wr_tenant w) sample r))) rows) (\<lambda>written.
          ebind (bump_write w) (\<lambda>_. eret written))))))"

subsection \<open>Audience snapshots\<close>

definition snapshot_sql :: "string \<Rightarrow> string \<Rightarrow> string" where
  "snapshot_sql key_column subquery =
     ''INSERT INTO '' @ dl ''audience_snapshot'' @ '' (snapshot_id, campaign_id, '' @
     ''as_of_ts, user_id, features, hit_reason, tenant_id) SELECT CAST(? AS UUID), ?, '' @
     ''CAST(? AS TIMESTAMPTZ), sub.'' @ key_column @ '', sub.features, sub.hit_reason, ? FROM '' @
     ''('' @ subquery @ '') sub''"

definition snapshot_params :: "string \<Rightarrow> snapshot_spec \<Rightarrow> dval list \<Rightarrow> dval list" where
  "snapshot_params tenant spec params =
     [VText (sp_snapshot_id spec), VText (sp_campaign_id spec), VText (sp_as_of_ts spec), VText tenant] @ params"

definition materialize_snapshot ::
  "db_env \<Rightarrow> writer \<Rightarrow> string \<Rightarrow> dval list \<Rightarrow> string \<Rightarrow> snapshot_spec \<Rightarrow> nat db"
where
  "materialize_snapshot env w subquery params key_column spec =
     ebind (checked (validate_ident key_column)) (\<lambda>_.
     ebind (ensure_audience_snapshot_table env) (\<lambda>_.
     ebind (db_execute env (snapshot_sql key_column subquery) (snapshot_params (wr_tenant w) spec params)) (\<lambda>n.
     ebind (bump_write w) (\<lambda>_. eret n))))"

definition export_sql :: "string \<Rightarrow> string" where
  "export_sql dest =
     ''COPY (SELECT snapshot_id, campaign_id, as_of_ts, user_id, features, hit_reason FROM '' @
     dl ''audience_snapshot'' @ '' WHERE snapshot_id = CAST(? AS UUID)) TO '' @
     [CHR 0x27] @ escape_for_sql_literal dest @ [CHR 0x27] @ '' (FORMAT '' @ [CHR 0x27] @ ''PARQUET'' @ [CHR 0x27] @ '')''"

definition export_snapshot_parquet :: "db_env \<Rightarrow> string \<Rightarrow> string \<Rightarrow> unit db" where
  "export_snapshot_parquet env snapshot_id dest =
     ebind (db_execute env (export_sql dest) [VText snapshot_id]) (\<lambda>_. eret ())"

subsection \<open>Maintenance\<close>

definition quoted :: "string \<Rightarrow> string" where
  "quoted s = [CHR 0x27] @ s @ [CHR 0x27]"

definition compact_sql :: "string \<Rightarrow> string" where
  "compact_sql table =
     ''CALL ducklake_merge_adjacent_files('' @ quoted WRITE_CATALOG_ALIAS @ '', '' @ quoted table @ '');''"

definition compact :: "db_env \<Rightarrow> writer \<Rightarrow> string \<Rightarrow> string \<Rightarrow> unit db" where
  "compact env w sys ent =
     ebind (checked (raw_table_name sys ent)) (\<lambda>table.
     ebind (execute_batch env (compact_sql table)) (\<lambda>_.
     bump_write w))"

definition probe_sql :: string where
  "probe_sql =
     ''CALL ducklake_expire_snapshots('' @ quoted WRITE_CATALOG_ALIAS @ '', CAST(? AS TIMESTAMPTZ), '' @
     ''CAST([] AS UBIGINT[]), true)''"

text \<open>The probe never fails; it sets the cell \<open>maintenance_available\<close>, returned with the writer.\<close>

definition probe_maintenance :: "db_env \<Rightarrow> writer \<Rightarrow> writer db" where
  "probe_maintenance env w =
     (if wr_maintenance w then eret w
      else (\<lambda>log.
        case prepare_execute env probe_sql [VText ''1970-01-01T00:00:00Z''] log of
          (r, log) \<Rightarrow> (Inr (w\<lparr>wr_maintenance := is_ok r\<rparr>), log)))"

definition interval_sql :: "nat \<Rightarrow> string" where
  "interval_sql days =
     ''CAST(CAST(now() AS TIMESTAMP) - INTERVAL '' @ quoted (show_nat days) @ '' DAY AS TIMESTAMPTZ)''"

definition expire_sql :: "nat \<Rightarrow> string" where
  "expire_sql days =
     ''CALL ducklake_expire_snapshots('' @ quoted WRITE_CATALOG_ALIAS @ '', '' @ interval_sql days @
     '', CAST([] AS UBIGINT[]), false)''"

definition orphans_sql :: "nat \<Rightarrow> string" where
  "orphans_sql days =
     ''CALL ducklake_delete_orphaned_files('' @ quoted WRITE_CATALOG_ALIAS @ '', '' @ interval_sql days @
     '', true, false)''"

definition maintain :: "db_env \<Rightarrow> writer \<Rightarrow> string \<Rightarrow> writer db" where
  "maintain env w sql =
     ebind (probe_maintenance env w) (\<lambda>w.
     if wr_maintenance w then
       ebind (execute_batch env sql) (\<lambda>_.
       ebind (bump_write w) (\<lambda>_. eret w))
     else eret w)"

definition expire_snapshots :: "db_env \<Rightarrow> writer \<Rightarrow> nat \<Rightarrow> writer db" where
  "expire_snapshots env w retention_days = maintain env w (expire_sql retention_days)"

definition delete_orphaned_files :: "db_env \<Rightarrow> writer \<Rightarrow> nat \<Rightarrow> writer db" where
  "delete_orphaned_files env w retention_days = maintain env w (orphans_sql retention_days)"

subsection \<open>Attaching\<close>

definition load_ducklake :: "db_env \<Rightarrow> unit db" where
  "load_ducklake env = execute_batch env ''INSTALL ducklake; LOAD ducklake;''"

definition attach_sql :: "string \<Rightarrow> string \<Rightarrow> string" where
  "attach_sql catalog_path data_path =
     ''ATTACH '' @ quoted (''ducklake:'' @ escape_for_sql_literal catalog_path) @ '' AS '' @ WRITE_CATALOG_ALIAS @
     '' (DATA_PATH '' @ quoted (escape_for_sql_literal data_path) @ '');''"

definition compaction_sql :: "compaction_config \<Rightarrow> string" where
  "compaction_sql compaction =
     ''SET ducklake_default_data_inlining_row_limit = '' @ show_nat (cc_inlining_row_limit compaction) @
     ''; SET ducklake_target_file_size = '' @ quoted (escape_for_sql_literal (cc_target_file_size compaction)) @ '';''"

text \<open>The lock is a sibling of the catalog, whose name \<open>lock_of\<close> gives (\<open>Path::with_extension\<close>);
  whatever stops the locking is read as a held lock.\<close>

definition attach_with_compaction ::
  "db_env \<Rightarrow> (string \<Rightarrow> string) \<Rightarrow> string \<Rightarrow> string \<Rightarrow> compaction_config \<Rightarrow> writer db"
where
  "attach_with_compaction env lock_of catalog_path data_path compaction =
     ebind (ask (Open_lock (lock_of catalog_path)) (de_unit env)) (\<lambda>r.
     ebind (checked (map_err Storage r)) (\<lambda>_.
     ebind (ask (Try_lock (lock_of catalog_path)) (de_unit env)) (\<lambda>r.
     ebind (checked (map_err (\<lambda>_. WriterAlreadyHeld) r)) (\<lambda>_.
     ebind (ask Open_memory (de_unit env)) (\<lambda>r.
     ebind (checked (map_err Storage r)) (\<lambda>_.
     ebind (load_ducklake env) (\<lambda>_.
     ebind (execute_batch env (attach_sql catalog_path data_path)) (\<lambda>_.
     ebind (execute_batch env (compaction_sql compaction)) (\<lambda>_.
     eret \<lparr>wr_tenant = ''default'', wr_gen = False, wr_maintenance = False\<rparr>)))))))))"

definition attach :: "db_env \<Rightarrow> (string \<Rightarrow> string) \<Rightarrow> string \<Rightarrow> string \<Rightarrow> writer db" where
  "attach env lock_of catalog_path data_path =
     attach_with_compaction env lock_of catalog_path data_path compaction_config_default"

definition attach_with_gen ::
  "db_env \<Rightarrow> (string \<Rightarrow> string) \<Rightarrow> string \<Rightarrow> string \<Rightarrow> compaction_config \<Rightarrow> bool \<Rightarrow> writer db"
where
  "attach_with_gen env lock_of catalog_path data_path compaction write_gen =
     ebind (attach_with_compaction env lock_of catalog_path data_path compaction) (\<lambda>w.
     eret (w\<lparr>wr_gen := write_gen\<rparr>))"

definition read_only_attach_sql :: "string \<Rightarrow> string \<Rightarrow> string" where
  "read_only_attach_sql catalog_path data_path =
     ''ATTACH '' @ quoted (''ducklake:'' @ escape_for_sql_literal catalog_path) @ '' AS '' @ READ_ONLY_CATALOG_ALIAS @
     '' (DATA_PATH '' @ quoted (escape_for_sql_literal data_path) @ '', READ_ONLY);''"

text \<open>A reader reports every failure of its attach as an execution error.\<close>

definition as_execution :: "failure \<Rightarrow> failure" where
  "as_execution f = (case f of Failed (Storage b) \<Rightarrow> Failed (Execution b) | _ \<Rightarrow> f)"

definition re_err :: "(failure \<Rightarrow> failure) \<Rightarrow> 'a db \<Rightarrow> 'a db" where
  "re_err f m log = (case m log of (r, log) \<Rightarrow> (map_err f r, log))"

definition open_reader :: "db_env \<Rightarrow> string \<Rightarrow> string \<Rightarrow> unit db" where
  "open_reader env catalog_path data_path =
     ebind (ask Open_memory (de_unit env)) (\<lambda>r.
     ebind (checked (map_err Execution r)) (\<lambda>_.
     ebind (re_err as_execution (load_ducklake env)) (\<lambda>_.
     re_err as_execution (execute_batch env (read_only_attach_sql catalog_path data_path)))))"

end
