(* ===== verification/Storage_Trace.thy ===== *)
theory Storage_Trace
  imports Storage_Tables
begin

text \<open>
  What the storage operations send: the traces of the merges, of a chunked insert and of the CDC
  batch, the bracketing of a transaction, and when the shared generation advances.
\<close>

named_theorems trace_intros \<open>traces of the storage operations\<close>

lemma emits_checked [trace_intros]: "emits (checked r) {[]}"
  unfolding checked_def by (rule emits_elift)

lemma emits_try_each [trace_intros]: "emits (try_each f xs) {[]}"
  unfolding try_each_def by (rule emits_checked)

lemma emits_then_checked: "emits m T \<Longrightarrow> emits (ebind m (\<lambda>r. checked (f r))) T"
  using emits_ebind [of m T "\<lambda>r. checked (f r)" "{[]}"] by (simp add: emits_checked seq_def)

lemma emits_then_eret: "emits m T \<Longrightarrow> emits (ebind m (\<lambda>r. eret (f r))) T"
  using emits_ebind [of m T "\<lambda>r. eret (f r)" "{[]}"] by (simp add: emits_eret seq_def)

lemma emits_after_checked: "(\<And>x. emits (f x) T) \<Longrightarrow> emits (ebind (checked r) f) T"
  using emits_ebind [OF emits_checked, of f T] by (simp add: seq_def)

lemma emits_after_try_each: "(\<And>x. emits (f x) T) \<Longrightarrow> emits (ebind (try_each g xs) f) T"
  unfolding try_each_def by (rule emits_after_checked)

lemma emits_execute_batch [trace_intros]: "emits (execute_batch env sql) {[Batch_stmt sql]}"
  unfolding execute_batch_def by (rule emits_then_checked) (rule emits_ask)

lemma emits_db_prepare [trace_intros]: "emits (db_prepare env sql) {[Prepare_stmt sql]}"
  unfolding db_prepare_def by (rule emits_then_checked) (rule emits_ask)

lemma emits_db_execute [trace_intros]: "emits (db_execute env sql ps) {[Execute_stmt sql ps]}"
  unfolding db_execute_def by (rule emits_then_checked) (rule emits_ask)

lemma emits_db_query [trace_intros]: "emits (db_query f sql ps) {[Query_stmt sql ps]}"
  unfolding db_query_def by (rule emits_then_checked) (rule emits_ask)

definition prepared :: "string \<Rightarrow> dval list \<Rightarrow> db_event list" where
  "prepared sql ps = [Prepare_stmt sql, Execute_stmt sql ps]"

lemma emits_prepare_execute [trace_intros]: "emits (prepare_execute env sql ps) {prepared sql ps}"
  using emits_ebind [of "db_prepare env sql" _ "\<lambda>_. db_execute env sql ps", OF emits_db_prepare emits_db_execute]
  by (simp add: prepare_execute_def prepared_def)

definition generation :: "writer \<Rightarrow> db_event list" where
  "generation w = (if wr_gen w then [Generation] else [])"

lemma emits_bump_write [trace_intros]: "emits (bump_write w) {generation w}"
  by (simp add: bump_write_def generation_def emits_ask emits_eret)

lemma emits_esum: "(\<And>x. emits (f x) (T x)) \<Longrightarrow> emits (esum f xs) (seqs T xs)"
  by (induction xs) (auto intro!: emits_ebind emits_then_eret emits_eret)

lemma seq_seq_single: "seq {a} (seq {b} T) = seq {a @ b} T"
  unfolding seq_def by auto

subsection \<open>Merges and inserts\<close>

definition upsert_event :: "writer \<Rightarrow> string \<Rightarrow> string list \<Rightarrow> string \<Rightarrow> table_row list \<Rightarrow> db_event list" where
  "upsert_event w table columns key chunk =
     prepared (upsert_sql table columns key (length chunk)) (concat (map (bind_row (wr_tenant w)) chunk))"

definition delete_event :: "writer \<Rightarrow> string \<Rightarrow> string \<Rightarrow> string list \<Rightarrow> db_event list" where
  "delete_event w table key chunk =
     prepared (delete_sql table key (length chunk)) (map VText chunk @ [VText (wr_tenant w)])"

definition insert_event :: "string \<Rightarrow> nat \<Rightarrow> ('r \<Rightarrow> dval list) \<Rightarrow> 'r list \<Rightarrow> db_event list" where
  "insert_event insert_prefix cols bind chunk =
     prepared (insert_prefix @ multi_rows (length chunk) cols) (concat (map bind chunk))"

lemma emits_merge_upserts:
  "emits (merge_upserts env w table columns key rows)
     {concat (map (upsert_event w table columns key) (chunks MERGE_CHUNK_ROWS rows))}"
  unfolding merge_upserts_def seqs_single [symmetric] upsert_event_def
  by (rule emits_esum) (rule trace_intros)

lemma emits_merge_deletes:
  "emits (merge_deletes env w table key keys)
     {concat (map (delete_event w table key) (chunks MERGE_CHUNK_KEYS keys))}"
  unfolding merge_deletes_def seqs_single [symmetric] delete_event_def
  by (rule emits_esum) (rule trace_intros)

lemma emits_insert_chunked:
  "emits (insert_chunked env insert_prefix cols rows bind)
     {concat (map (insert_event insert_prefix cols bind) (chunks (chunk_rows cols) rows))}"
proof (cases "rows = [] \<or> chunk_rows cols = 0")
  case True
  then show ?thesis by (cases "rows = []") (simp_all add: insert_chunked_def emits_eret emits_efail)
next
  case False
  then show ?thesis
    unfolding insert_chunked_def seqs_single [symmetric] insert_event_def
    by (simp, intro emits_esum trace_intros)
qed

definition ensure_events :: "string \<Rightarrow> string list \<Rightarrow> db_event list" where
  "ensure_events table columns = [Batch_stmt (create_raw_sql table columns), Batch_stmt (add_tenant_sql table)]"

lemma emits_ensure_raw [trace_intros]: "emits (ensure_raw env table columns) {ensure_events table columns}"
  using emits_ebind [of "execute_batch env (create_raw_sql table columns)" _ "\<lambda>_. execute_batch env (add_tenant_sql table)",
      OF emits_execute_batch emits_execute_batch]
  by (simp add: ensure_raw_def ensure_events_def)

subsection \<open>The CDC batch\<close>

text \<open>The offset merges, at some clock readings.\<close>

definition offset_event :: "string \<Rightarrow> int \<times> int \<Rightarrow> db_event list set" where
  "offset_event source po =
     {prepared offset_sql [VText source, VInt (fst po), VBigInt (snd po), VText now] |now. True}"

lemma emits_upsert_cdc_offset:
  "emits (upsert_cdc_offset env source p off now)
     {prepared offset_sql [VText source, VInt p, VBigInt off, VText now]}"
  unfolding upsert_cdc_offset_def by (intro emits_then_eret trace_intros)

lemma emits_offset:
  "emits (ebind (peek f) (upsert_cdc_offset env source p off)) (offset_event source (p, off))"
proof -
  have "emits (upsert_cdc_offset env source p off now) (offset_event source (p, off))" for now
    by (rule emits_mono [OF emits_upsert_cdc_offset]) (auto simp: offset_event_def)
  from emits_ebind [OF emits_peek this] show ?thesis by (simp add: seq_def)
qed

definition cdc_data ::
  "writer \<Rightarrow> string \<Rightarrow> string list \<Rightarrow> string \<Rightarrow> nat \<Rightarrow> table_row list \<Rightarrow> string list \<Rightarrow> db_event list"
where
  "cdc_data w table columns key key_idx upserts deletes =
     ensure_events table columns @ [Batch_stmt create_offsets_sql] @
     concat (map (upsert_event w table columns key) (chunks MERGE_CHUNK_ROWS (dedup_by_key upserts key_idx))) @
     concat (map (delete_event w table key) (chunks MERGE_CHUNK_KEYS deletes))"

lemma emits_cdc_body:
  assumes idx: "key_index columns key = Inr key_idx"
  shows "emits (cdc_body env w table source columns key upserts deletes offsets)
     (seq {cdc_data w table columns key key_idx upserts deletes} (seqs (offset_event source) offsets))"
proof -
  let ?up = "concat (map (upsert_event w table columns key) (chunks MERGE_CHUNK_ROWS (dedup_by_key upserts key_idx)))"
  let ?del = "concat (map (delete_event w table key) (chunks MERGE_CHUNK_KEYS deletes))"
  let ?off = "seqs (offset_event source) offsets"
  have offs: "emits (eeach (\<lambda>(part, cdc_offset).
      ebind (peek (de_now env)) (upsert_cdc_offset env source part cdc_offset)) offsets) ?off"
    by (rule emits_eeach) (auto simp: emits_offset split: prod.split)
  have idx': "ebind (checked (key_index columns key)) f = f key_idx" for f :: "nat \<Rightarrow> nat db"
    by (simp add: checked_def idx elift_def ebind_def fun_eq_iff)
  have "emits (cdc_body env w table source columns key upserts deletes offsets)
      (seq {ensure_events table columns} (seq {[Batch_stmt create_offsets_sql]} (seq {?up} (seq {?del} ?off))))"
    unfolding cdc_body_def idx'
    by (intro emits_then_eret offs emits_merge_upserts emits_merge_deletes trace_intros
        emits_ebind [OF emits_ensure_raw] emits_ebind [OF emits_execute_batch]
        emits_ebind [OF emits_merge_upserts] emits_ebind [OF emits_merge_deletes])
  then show ?thesis by (simp add: seq_seq_single cdc_data_def)
qed

subsection \<open>Transactions\<close>

abbreviation "BEGIN_EV \<equiv> Batch_stmt ''BEGIN TRANSACTION''"
abbreviation "COMMIT_EV \<equiv> Batch_stmt ''COMMIT''"
abbreviation "ROLLBACK_EV \<equiv> Batch_stmt ''ROLLBACK''"

text \<open>The logs a transaction over the traces \<open>T\<close> leaves: committed, or failed at its start, in its
  body, at its commit, or by a panic.\<close>

definition committed_events :: "writer \<Rightarrow> db_event list set \<Rightarrow> db_event list set" where
  "committed_events w T = {BEGIN_EV # t @ COMMIT_EV # generation w |t. t \<in> T}"

definition failed_events :: "db_event list set \<Rightarrow> failure \<Rightarrow> db_event list set" where
  "failed_events T e =
     {[BEGIN_EV]} \<union> {BEGIN_EV # d @ [ROLLBACK_EV] |d r. d @ r \<in> T} \<union> {BEGIN_EV # t @ [COMMIT_EV] |t. t \<in> T} \<union>
     (if e = Panicked then {BEGIN_EV # d |d r. d @ r \<in> T} else {})"

lemma execute_batch_log: "snd (execute_batch env sql log) = log @ [Batch_stmt sql]"
  by (simp add: execute_batch_def ebind_def ask_def checked_def elift_def)

lemma bump_write_run: "bump_write w log = (Inr (), log @ generation w)"
  by (simp add: bump_write_def generation_def ask_def eret_def)

lemma transaction_events:
  assumes body: "emits body T"
  shows "\<exists>evs. snd (transaction env w body log) = log @ evs \<and>
    (case fst (transaction env w body log) of
       Inr n \<Rightarrow> evs \<in> committed_events w T
     | Inl e \<Rightarrow> evs \<in> failed_events T e)"
proof (cases "execute_batch env ''BEGIN TRANSACTION'' log")
  case start: (Pair r0 log0)
  then have log0: "log0 = log @ [BEGIN_EV]" using execute_batch_log [of env "''BEGIN TRANSACTION''" log] by simp
  show ?thesis
  proof (cases r0)
    case (Inl e)
    with start log0 show ?thesis by (simp add: transaction_def ebind_def failed_events_def)
  next
    case (Inr u)
    show ?thesis
    proof (cases "body log0")
      case run: (Pair r1 log1)
      show ?thesis
      proof (cases r1)
        case (Inl e)
        with run emits_fail [OF body] obtain d q where d: "d @ q \<in> T" "log1 = log0 @ d" by blast
        with Inl Inr start run log0 show ?thesis
          by (cases e)
             (auto simp: transaction_def ebind_def failed_events_def execute_batch_log)
      next
        case ok: (Inr n)
        with run emits_ok [OF body] obtain t where t: "t \<in> T" "log1 = log0 @ t" by blast
        obtain r2 where commit: "execute_batch env ''COMMIT'' log1 = (r2, log1 @ [COMMIT_EV])"
          using execute_batch_log [of env "''COMMIT''" log1] by (metis prod.collapse)
        from t ok Inr start run log0 commit show ?thesis
          by (cases r2)
             (auto simp: transaction_def ebind_def failed_events_def committed_events_def bump_write_run eret_def)
      qed
    qed
  qed
qed

lemma generation_last:
  "\<forall>t \<in> T. Generation \<notin> set t \<Longrightarrow> evs \<in> failed_events T e \<Longrightarrow> Generation \<notin> set evs"
  by (force simp: failed_events_def split: if_splits)

end
