(* ===== verification/Storage_Merge.thy ===== *)
theory Storage_Merge
  imports Storage_Trace
begin

text \<open>
  The raw table a CDC batch is merged into. \<open>merge_effect\<close> and \<open>delete_effect\<close> are the documented
  meaning of the two merges on the rows of a table; \<open>documented\<close> says that an engine \<open>exec\<close> runs
  the statements of this program by them. The deduplication of a batch and the chunked merges are
  then one update of the table per key: \<open>cdc_key\<close>.
\<close>

subsection \<open>Deduplication\<close>

text \<open>The last row of a key.\<close>

definition last_row :: "nat \<Rightarrow> table_row list \<Rightarrow> string \<Rightarrow> table_row option" where
  "last_row key_idx rows k = find (\<lambda>r. row_key key_idx r = Some k) (rev rows)"

definition dedup_inv :: "nat \<Rightarrow> table_row list \<Rightarrow> table_row list \<times> (string \<rightharpoonup> nat) \<Rightarrow> bool" where
  "dedup_inv key_idx done_rows = (\<lambda>(d, seen).
     distinct (map (row_key key_idx) d) \<and> set d \<subseteq> set done_rows \<and> None \<notin> row_key key_idx ` set d \<and>
     (\<forall>k i. seen k = Some i \<longleftrightarrow> i < length d \<and> row_key key_idx (d ! i) = Some k) \<and>
     (\<forall>k. find (\<lambda>r. row_key key_idx r = Some k) d = last_row key_idx done_rows k))"

lemma dedup_inv_parts:
  assumes "dedup_inv key_idx rows (d, seen)"
  shows "distinct (map (row_key key_idx) d)" "set d \<subseteq> set rows" "None \<notin> row_key key_idx ` set d"
    "seen k = Some i \<longleftrightarrow> i < length d \<and> row_key key_idx (d ! i) = Some k"
    "find (\<lambda>r. row_key key_idx r = Some k) d = last_row key_idx rows k"
  using assms by (simp_all add: dedup_inv_def)

lemma find_distinct_key:
  "distinct (map f d) \<Longrightarrow> i < length d \<Longrightarrow> f (d ! i) = v \<Longrightarrow> find (\<lambda>r. f r = v) d = Some (d ! i)"
proof (induction d arbitrary: i)
  case (Cons x d)
  then show ?case by (cases i) (auto simp: nth_mem image_iff dest: nth_mem)
qed simp

lemma find_None_key: "v \<notin> f ` set d \<Longrightarrow> find (\<lambda>r. f r = v) d = None"
  by (induction d) auto

lemma find_update_other:
  "i < length d \<Longrightarrow> f (d ! i) \<noteq> v \<Longrightarrow> f x \<noteq> v \<Longrightarrow> find (\<lambda>r. f r = v) (d[i := x]) = find (\<lambda>r. f r = v) d"
proof (induction d arbitrary: i)
  case (Cons y d)
  then show ?case by (cases i) auto
qed simp

lemma last_row_snoc:
  "last_row key_idx (rows @ [r]) k = (if row_key key_idx r = Some k then Some r else last_row key_idx rows k)"
  by (simp add: last_row_def)

lemma dedup_new:
  assumes inv: "dedup_inv key_idx rows (d, seen)" and k: "row_key key_idx r = Some k" and new: "seen k = None"
  shows "dedup_inv key_idx (rows @ [r]) (d @ [r], seen(k \<mapsto> length d))"
proof -
  have fresh: "Some k \<notin> row_key key_idx ` set d"
  proof
    assume "Some k \<in> row_key key_idx ` set d"
    then obtain i where "i < length d" "row_key key_idx (d ! i) = Some k" by (metis imageE in_set_conv_nth)
    then have "seen k = Some i" by (intro dedup_inv_parts(4) [OF inv, THEN iffD2] conjI)
    with new show False by simp
  qed
  then have "find (\<lambda>r. row_key key_idx r = Some k) d = None" by (rule find_None_key)
  with k have "find (\<lambda>r. row_key key_idx r = Some k') (d @ [r]) = last_row key_idx (rows @ [r]) k'" for k'
    by (cases "k' = k") (simp_all add: dedup_inv_parts(5) [OF inv] last_row_snoc find_append split: option.split)
  moreover have "(seen(k \<mapsto> length d)) k' = Some i \<longleftrightarrow>
      i < length (d @ [r]) \<and> row_key key_idx ((d @ [r]) ! i) = Some k'" for k' i
  proof (cases "k' = k")
    case True
    have "row_key key_idx (d ! i) \<noteq> Some k" if "i < length d" using fresh nth_mem [OF that] by (metis imageI)
    with True k show ?thesis by (auto simp: nth_append less_Suc_eq)
  next
    case False
    with k show ?thesis by (auto simp: dedup_inv_parts(4) [OF inv] nth_append less_Suc_eq)
  qed
  ultimately show ?thesis
    using dedup_inv_parts(1-3) [OF inv] k fresh by (auto simp: dedup_inv_def simp del: fun_upd_apply)
qed

lemma dedup_seen:
  assumes inv: "dedup_inv key_idx rows (d, seen)" and k: "row_key key_idx r = Some k" and old: "seen k = Some i"
  shows "dedup_inv key_idx (rows @ [r]) (d[i := r], seen)"
proof -
  from old have i: "i < length d" "row_key key_idx (d ! i) = Some k" by (simp_all add: dedup_inv_parts(4) [OF inv])
  then have keys: "map (row_key key_idx) (d[i := r]) = map (row_key key_idx) d"
    using k by (simp add: map_update list_update_same_conv)
  have at: "row_key key_idx (d[i := r] ! j) = row_key key_idx (d ! j)" if "j < length d" for j
    using keys that by (metis length_list_update nth_map)
  have "distinct (map (row_key key_idx) (d[i := r]))" using dedup_inv_parts(1) [OF inv] keys by simp
  from find_distinct_key [OF this] i k
  have same: "find (\<lambda>r. row_key key_idx r = Some k) (d[i := r]) = Some r"
    by (metis length_list_update nth_list_update_eq)
  have finds: "find (\<lambda>r. row_key key_idx r = Some k') (d[i := r]) = last_row key_idx (rows @ [r]) k'" for k'
  proof (cases "k' = k")
    case True
    with same k show ?thesis by (simp add: last_row_snoc)
  next
    case False
    with i k have "find (\<lambda>r. row_key key_idx r = Some k') (d[i := r]) = find (\<lambda>r. row_key key_idx r = Some k') d"
      by (intro find_update_other) simp_all
    with k False show ?thesis by (simp add: last_row_snoc dedup_inv_parts(5) [OF inv])
  qed
  have nulls: "None \<notin> row_key key_idx ` set (d[i := r])"
    using dedup_inv_parts(3) [OF inv] keys by (metis list.set_map)
  have sub: "set (d[i := r]) \<subseteq> set (rows @ [r])"
    using dedup_inv_parts(2) [OF inv] set_update_subset_insert [of d i r] by auto
  have seen: "seen k' = Some j \<longleftrightarrow> j < length (d[i := r]) \<and> row_key key_idx (d[i := r] ! j) = Some k'" for k' j
    using at by (auto simp: dedup_inv_parts(4) [OF inv])
  show ?thesis
    using dedup_inv_parts(1) [OF inv] keys finds nulls sub seen by (simp add: dedup_inv_def)
qed

lemma dedup_step_inv:
  assumes inv: "dedup_inv key_idx rows p"
  shows "dedup_inv key_idx (rows @ [r]) (dedup_step key_idx r p)"
proof (cases p)
  case (Pair d seen)
  show ?thesis
  proof (cases "row_key key_idx r")
    case None
    with inv Pair show ?thesis by (auto simp: dedup_step_def dedup_inv_def last_row_snoc)
  next
    case (Some k)
    with inv Pair dedup_new [of key_idx rows d seen r k] dedup_seen [of key_idx rows d seen r k] show ?thesis
      by (cases "seen k") (simp_all add: dedup_step_def)
  qed
qed

lemma dedup_fold_inv: "dedup_inv key_idx done_rows p \<Longrightarrow> dedup_inv key_idx (done_rows @ rows) (fold (dedup_step key_idx) rows p)"
proof (induction rows arbitrary: done_rows p)
  case (Cons r rows)
  from Cons.IH [OF dedup_step_inv [OF Cons.prems]] show ?case by simp
qed simp

lemma dedup_spec:
  "distinct (map (row_key key_idx) (dedup_by_key rows key_idx))"
  "set (dedup_by_key rows key_idx) \<subseteq> set rows"
  "None \<notin> row_key key_idx ` set (dedup_by_key rows key_idx)"
  "find (\<lambda>r. row_key key_idx r = Some k) (dedup_by_key rows key_idx) = last_row key_idx rows k"
proof -
  have "dedup_inv key_idx [] ([], Map.empty)" by (simp add: dedup_inv_def last_row_def)
  from dedup_fold_inv [OF this, of rows]
  have "dedup_inv key_idx rows (fold (dedup_step key_idx) rows ([], Map.empty))" by simp
  then show "distinct (map (row_key key_idx) (dedup_by_key rows key_idx))"
    "set (dedup_by_key rows key_idx) \<subseteq> set rows"
    "None \<notin> row_key key_idx ` set (dedup_by_key rows key_idx)"
    "find (\<lambda>r. row_key key_idx r = Some k) (dedup_by_key rows key_idx) = last_row key_idx rows k"
    by (auto simp: dedup_by_key_def dedup_inv_def case_prod_unfold)
qed

subsection \<open>The meaning of the merges\<close>

text \<open>A stored row gives each column its value, \<open>None\<close> for NULL. A merge sets the columns of the rows
  whose key equals a source row's (NULL equals nothing) and appends the source rows that match none.\<close>

type_synonym stored = "string \<Rightarrow> string option"

definition stored_row :: "string list \<Rightarrow> string \<Rightarrow> table_row \<Rightarrow> stored" where
  "stored_row columns tenant row =
     (\<lambda>c. case map_of (zip (columns @ [''tenant_id'']) (row @ [Some tenant])) c of Some v \<Rightarrow> v | None \<Rightarrow> None)"

definition overwrite :: "string list \<Rightarrow> stored \<Rightarrow> stored \<Rightarrow> stored" where
  "overwrite cols s t = (\<lambda>c. if c \<in> set cols then s c else t c)"

definition merge_effect :: "string \<Rightarrow> string list \<Rightarrow> stored list \<Rightarrow> stored list \<Rightarrow> stored list" where
  "merge_effect key cols src tbl =
     map (\<lambda>t. case find (\<lambda>s. s key \<noteq> None \<and> s key = t key) src of None \<Rightarrow> t | Some s \<Rightarrow> overwrite cols s t) tbl @
     filter (\<lambda>s. s key = None \<or> (\<forall>t \<in> set tbl. t key \<noteq> s key)) src"

definition delete_effect :: "string \<Rightarrow> string list \<Rightarrow> string \<Rightarrow> stored list \<Rightarrow> stored list" where
  "delete_effect key keys tenant tbl =
     filter (\<lambda>t. \<not> (t key \<in> Some ` set keys \<and> t ''tenant_id'' = Some tenant)) tbl"

text \<open>The rows of a key; what one merge and one delete do to them.\<close>

definition rows_at :: "string \<Rightarrow> stored list \<Rightarrow> string \<Rightarrow> stored list" where
  "rows_at key tbl k = filter (\<lambda>t. t key = Some k) tbl"

definition put_row :: "string list \<Rightarrow> stored \<Rightarrow> stored list \<Rightarrow> stored list" where
  "put_row cols s old = (if old = [] then [s] else map (overwrite cols s) old)"

definition put_found :: "string list \<Rightarrow> stored option \<Rightarrow> stored list \<Rightarrow> stored list" where
  "put_found cols found old = (case found of None \<Rightarrow> old | Some s \<Rightarrow> put_row cols s old)"

lemma rows_at_append: "rows_at key (xs @ ys) k = rows_at key xs k @ rows_at key ys k"
  by (simp add: rows_at_def)

lemma find_sat: "find P xs = Some x \<Longrightarrow> P x \<and> x \<in> set xs"
  by (induction xs) (auto split: if_splits)

lemma find_some_key: "find (\<lambda>s. s key = Some k) src = Some s \<Longrightarrow> s key = Some k"
  using find_sat by fast

lemma filter_distinct_key:
  "distinct (map (\<lambda>s. s key) src) \<Longrightarrow>
   filter (\<lambda>s. s key = Some k) src = (case find (\<lambda>s. s key = Some k) src of None \<Rightarrow> [] | Some s \<Rightarrow> [s])"
proof (induction src)
  case (Cons s src)
  show ?case
  proof (cases "s key = Some k")
    case True
    with Cons.prems have "filter (\<lambda>s. s key = Some k) src = []"
      by (simp add: filter_empty_conv) (metis image_eqI)
    with True show ?thesis by simp
  next
    case False
    with Cons show ?thesis by simp
  qed
qed simp

text \<open>Matched rows keep their key because the key is a column.\<close>

lemma rows_at_matched:
  assumes key: "key \<in> set cols"
  shows "rows_at key (map (\<lambda>t. case find (\<lambda>s. s key \<noteq> None \<and> s key = t key) src of
       None \<Rightarrow> t | Some s \<Rightarrow> overwrite cols s t) tbl) k =
     (case find (\<lambda>s. s key = Some k) src of
        None \<Rightarrow> rows_at key tbl k | Some s \<Rightarrow> map (overwrite cols s) (rows_at key tbl k))"
proof (induction tbl)
  case Nil
  then show ?case by (simp add: rows_at_def split: option.split)
next
  case (Cons t tbl)
  let ?f = "find (\<lambda>s. s key \<noteq> None \<and> s key = t key) src"
  show ?case
  proof (cases "t key = Some k")
    case True
    then have f: "?f = find (\<lambda>s. s key = Some k) src"
      by (intro arg_cong2 [where f = find] ext) auto
    show ?thesis
    proof (cases "find (\<lambda>s. s key = Some k) src")
      case None
      with f True Cons.IH show ?thesis by (simp add: rows_at_def)
    next
      case (Some s)
      have keyed: "overwrite cols s t key = Some k" using key find_some_key [OF Some] by (simp add: overwrite_def)
      have step: "(case ?f of None \<Rightarrow> t | Some s \<Rightarrow> overwrite cols s t) = overwrite cols s t"
        unfolding f Some by simp
      show ?thesis
        using Cons.IH True keyed unfolding list.map step rows_at_def Some by simp
    qed
  next
    case False
    have "(case ?f of None \<Rightarrow> t | Some s \<Rightarrow> overwrite cols s t) key = t key"
    proof (cases ?f)
      case (Some s)
      then have "s key = t key" using find_sat by fast
      with key Some show ?thesis by (simp add: overwrite_def)
    qed simp
    with False have "rows_at key (map (\<lambda>t. case find (\<lambda>s. s key \<noteq> None \<and> s key = t key) src of
         None \<Rightarrow> t | Some s \<Rightarrow> overwrite cols s t) (t # tbl)) k =
       rows_at key (map (\<lambda>t. case find (\<lambda>s. s key \<noteq> None \<and> s key = t key) src of
         None \<Rightarrow> t | Some s \<Rightarrow> overwrite cols s t) tbl) k"
      by (simp add: rows_at_def)
    moreover from False have "rows_at key (t # tbl) k = rows_at key tbl k" by (simp add: rows_at_def)
    ultimately show ?thesis using Cons.IH by (simp only:)
  qed
qed

lemma rows_at_merge:
  assumes key: "key \<in> set cols" and dist: "distinct (map (\<lambda>s. s key) src)"
  shows "rows_at key (merge_effect key cols src tbl) k =
     put_found cols (find (\<lambda>s. s key = Some k) src) (rows_at key tbl k)"
proof -
  let ?new = "filter (\<lambda>s. s key = None \<or> (\<forall>t \<in> set tbl. t key \<noteq> s key)) src"
  have "rows_at key ?new k = (if rows_at key tbl k = [] then filter (\<lambda>s. s key = Some k) src else [])"
    by (auto simp: rows_at_def filter_empty_conv intro!: filter_cong)
  then show ?thesis
    using rows_at_matched [OF key, of src tbl k] filter_distinct_key [OF dist, of k]
    by (simp add: merge_effect_def rows_at_append put_found_def put_row_def split: option.split)
qed

lemma rows_at_delete:
  "rows_at key (delete_effect key keys tenant tbl) k =
     (if k \<in> set keys then filter (\<lambda>t. t ''tenant_id'' \<noteq> Some tenant) (rows_at key tbl k) else rows_at key tbl k)"
  by (auto simp: rows_at_def delete_effect_def intro!: filter_cong)

end
