(* ===== verification/Storage_Cdc.thy ===== *)
theory Storage_Cdc
  imports Storage_Merge
begin

text \<open>
  What a committed CDC batch does to its table, over any engine that runs the merges as
  documented: \<open>cdc_key\<close>, an update per key. \<open>cdc_run\<close> is the refinement; replaying the batch, and
  the rows of other tenants, follow from it.
\<close>

subsection \<open>An engine that runs the statements as documented\<close>

type_synonym engine = "db_event \<Rightarrow> stored list \<Rightarrow> stored list"

definition all_columns :: "string list \<Rightarrow> string list" where
  "all_columns columns = columns @ [''tenant_id'']"

definition runs_upserts :: "engine \<Rightarrow> string \<Rightarrow> string list \<Rightarrow> string \<Rightarrow> bool" where
  "runs_upserts exec table columns key \<longleftrightarrow>
     (\<forall>tenant rows tbl.
        rows \<noteq> [] \<longrightarrow> list_all (\<lambda>r. length r = length columns) rows \<longrightarrow>
        distinct (map (\<lambda>r. stored_row columns tenant r key) rows) \<longrightarrow>
        exec (Execute_stmt (upsert_sql table columns key (length rows)) (concat (map (bind_row tenant) rows))) tbl =
          merge_effect key (all_columns columns) (map (stored_row columns tenant) rows) tbl)"

definition runs_deletes :: "engine \<Rightarrow> string \<Rightarrow> string \<Rightarrow> bool" where
  "runs_deletes exec table key \<longleftrightarrow>
     (\<forall>tenant keys tbl. keys \<noteq> [] \<longrightarrow>
        exec (Execute_stmt (delete_sql table key (length keys)) (map VText keys @ [VText tenant])) tbl =
          delete_effect key keys tenant tbl)"

text \<open>The other statements of the batch leave the rows of the table alone.\<close>

definition keeps_rows :: "engine \<Rightarrow> bool" where
  "keeps_rows exec \<longleftrightarrow>
     (\<forall>sql. exec (Batch_stmt sql) = id) \<and> (\<forall>sql. exec (Prepare_stmt sql) = id) \<and>
     (\<forall>ps. exec (Execute_stmt offset_sql ps) = id) \<and> exec Generation = id"

definition documented :: "engine \<Rightarrow> string \<Rightarrow> string list \<Rightarrow> string \<Rightarrow> bool" where
  "documented exec table columns key \<longleftrightarrow>
     runs_upserts exec table columns key \<and> runs_deletes exec table key \<and> keeps_rows exec"

subsection \<open>The merges of a batch\<close>

lemma keeps_rows_simps:
  assumes "keeps_rows exec"
  shows "fold exec [] = id" "fold exec (Batch_stmt sql # evs) = fold exec evs"
    "fold exec (generation w) = id"
    "fold exec (prepared sql ps) = exec (Execute_stmt sql ps)"
  using assms by (auto simp: keeps_rows_def generation_def prepared_def)

lemma put_found_append:
  assumes "distinct (map (\<lambda>s. s key) (xs @ ys))"
  shows "put_found cols (find (\<lambda>s. s key = Some k) ys) (put_found cols (find (\<lambda>s. s key = Some k) xs) old) =
     put_found cols (find (\<lambda>s. s key = Some k) (xs @ ys)) old"
proof (cases "find (\<lambda>s. s key = Some k) xs")
  case None
  then show ?thesis by (simp add: find_append put_found_def)
next
  case (Some s)
  then have "s key = Some k" "s \<in> set xs" using find_sat by fast+
  with assms have "Some k \<notin> (\<lambda>s. s key) ` set ys" by force
  then have "find (\<lambda>s. s key = Some k) ys = None" by (rule find_None_key)
  with Some show ?thesis by (simp add: find_append put_found_def)
qed

lemma upserts_run:
  assumes doc: "runs_upserts exec table columns key" "keeps_rows exec" and key: "key \<in> set columns"
    and ne: "list_all (\<lambda>c. c \<noteq> []) css" and wide: "list_all (\<lambda>r. length r = length columns) (concat css)"
    and dist: "distinct (map (\<lambda>r. stored_row columns (wr_tenant w) r key) (concat css))"
  shows "rows_at key (fold exec (concat (map (upsert_event w table columns key) css)) tbl) k =
     put_found (all_columns columns)
       (find (\<lambda>s. s key = Some k) (map (stored_row columns (wr_tenant w)) (concat css))) (rows_at key tbl k)"
  using ne wide dist
proof (induction css arbitrary: tbl)
  case Nil
  then show ?case by (simp add: put_found_def)
next
  case (Cons c css)
  let ?row = "stored_row columns (wr_tenant w)"
  have keys: "distinct (map (\<lambda>s. s key) (map ?row c @ map ?row (concat css)))"
    using Cons.prems(3) by (simp add: comp_def)
  have "fold exec (upsert_event w table columns key c) tbl = merge_effect key (all_columns columns) (map ?row c) tbl"
    using doc Cons.prems by (simp add: upsert_event_def keeps_rows_simps runs_upserts_def)
  moreover have "rows_at key (merge_effect key (all_columns columns) (map ?row c) tbl) k =
      put_found (all_columns columns) (find (\<lambda>s. s key = Some k) (map ?row c)) (rows_at key tbl k)"
    using key keys by (intro rows_at_merge) (simp_all add: all_columns_def)
  ultimately show ?case
    using Cons.IH [of "fold exec (upsert_event w table columns key c) tbl"] Cons.prems put_found_append [OF keys]
    by simp
qed

lemma deletes_run:
  assumes doc: "runs_deletes exec table key" "keeps_rows exec" and ne: "list_all (\<lambda>c. c \<noteq> []) css"
  shows "rows_at key (fold exec (concat (map (delete_event w table key) css)) tbl) k =
     (if k \<in> set (concat css) then filter (\<lambda>t. t ''tenant_id'' \<noteq> Some (wr_tenant w)) (rows_at key tbl k)
      else rows_at key tbl k)"
  using ne
proof (induction css arbitrary: tbl)
  case (Cons c css)
  have "fold exec (delete_event w table key c) tbl = delete_effect key c (wr_tenant w) tbl"
    using doc Cons.prems by (simp add: delete_event_def keeps_rows_simps runs_deletes_def)
  with Cons show ?case by (auto simp: rows_at_delete)
qed simp

lemma offsets_run:
  assumes doc: "keeps_rows exec" and t: "t \<in> seqs (offset_event source) offsets"
  shows "fold exec t tbl = tbl"
  using t
proof (induction offsets arbitrary: t)
  case (Cons po offsets)
  then obtain now v where t: "v \<in> seqs (offset_event source) offsets"
      "t = prepared offset_sql [VText source, VInt (fst po), VBigInt (snd po), VText now] @ v"
    by (auto simp: seq_def offset_event_def [of source po])
  from doc have "exec (Execute_stmt offset_sql ps) tbl = tbl" for ps by (simp add: keeps_rows_def)
  with Cons.IH [OF t(1)] doc t(2) show ?case by (simp add: keeps_rows_simps)
qed simp

subsection \<open>Keys of rows\<close>

lemma position_zip:
  "position (\<lambda>c. c = key) columns = Some i \<Longrightarrow> length columns \<le> length vals \<Longrightarrow>
   i < length columns \<and> map_of (zip (columns @ cs) vals) key = Some (vals ! i)"
proof (induction columns arbitrary: i vals)
  case (Cons c columns)
  then obtain v vs where "vals = v # vs" by (cases vals) auto
  with Cons show ?case by (cases "c = key") auto
qed simp

lemma position_in: "position (\<lambda>c. c = key) columns = Some i \<Longrightarrow> key \<in> set columns"
  by (induction columns arbitrary: i) (auto split: if_splits)

lemma stored_row_key:
  assumes "key_index columns key = Inr key_idx" "length row = length columns"
  shows "stored_row columns tenant row key = row_key key_idx row"
  using position_zip [of key columns key_idx "row @ [Some tenant]" "[''tenant_id'']"] assms
  by (auto simp: key_index_def stored_row_def row_key_def nth_append)

lemma stored_row_tenant:
  assumes "''tenant_id'' \<notin> set columns" "length row = length columns"
  shows "stored_row columns tenant row ''tenant_id'' = Some tenant"
proof -
  have "map_of (zip (columns @ [''tenant_id'']) (row @ [Some tenant])) ''tenant_id'' = Some (Some tenant)"
    using assms by (simp add: map_add_Some_iff)
  then show ?thesis by (simp only: stored_row_def option.case)
qed

lemma find_map_key:
  assumes "\<And>r. r \<in> set rows \<Longrightarrow> f r key = g r"
  shows "find (\<lambda>s. s key = v) (map f rows) = map_option f (find (\<lambda>r. g r = v) rows)"
  using assms by (induction rows) auto

subsection \<open>The batch\<close>

definition cdc_key ::
  "string list \<Rightarrow> string \<Rightarrow> nat \<Rightarrow> table_row list \<Rightarrow> string list \<Rightarrow> string \<Rightarrow> stored list \<Rightarrow> stored list"
where
  "cdc_key columns tenant key_idx upserts deletes k old =
     (let new = put_found (all_columns columns)
                  (map_option (stored_row columns tenant) (last_row key_idx upserts k)) old
      in if k \<in> set deletes then filter (\<lambda>t. t ''tenant_id'' \<noteq> Some tenant) new else new)"

lemma cdc_data_run:
  assumes doc: "documented exec table columns key" and idx: "key_index columns key = Inr key_idx"
    and wide: "list_all (\<lambda>r. length r = length columns) upserts"
  shows "rows_at key (fold exec (cdc_data w table columns key key_idx upserts deletes) tbl) k =
     cdc_key columns (wr_tenant w) key_idx upserts deletes k (rows_at key tbl k)"
proof -
  let ?d = "dedup_by_key upserts key_idx" and ?row = "stored_row columns (wr_tenant w)"
  have parts: "runs_upserts exec table columns key" "runs_deletes exec table key" "keeps_rows exec"
    using doc by (simp_all add: documented_def)
  have wide_d: "\<And>r. r \<in> set ?d \<Longrightarrow> length r = length columns"
    using wide dedup_spec(2) [of upserts key_idx] by (auto simp: list_all_iff)
  then have keys: "map (\<lambda>r. ?row r key) ?d = map (row_key key_idx) ?d"
    using stored_row_key [OF idx] by simp
  have cat: "concat (chunks MERGE_CHUNK_ROWS ?d) = ?d" "concat (chunks MERGE_CHUNK_KEYS deletes) = deletes"
    by (simp_all add: concat_chunks MERGE_CHUNK_ROWS_def MERGE_CHUNK_KEYS_def)
  have ne: "list_all (\<lambda>c. c \<noteq> []) (chunks n xs)" for n and xs :: "'x list"
    using chunks_bounds by (fastforce simp: list_all_iff)
  have "find (\<lambda>s. s key = Some k) (map ?row ?d) = map_option ?row (find (\<lambda>r. row_key key_idx r = Some k) ?d)"
    using stored_row_key [OF idx wide_d] by (rule find_map_key)
  then have ups: "rows_at key (fold exec (concat (map (upsert_event w table columns key) (chunks MERGE_CHUNK_ROWS ?d))) tbl) k =
      put_found (all_columns columns) (map_option ?row (last_row key_idx upserts k)) (rows_at key tbl k)" for tbl
    using upserts_run [OF parts(1,3) _ ne [of MERGE_CHUNK_ROWS ?d], of w tbl k, unfolded cat] idx wide_d keys
      dedup_spec(1,4)
    by (simp add: list_all_iff key_index_def position_in)
  show ?thesis
    using deletes_run [OF parts(2,3) ne [of MERGE_CHUNK_KEYS deletes], of w, unfolded cat] ups
      parts(3) [unfolded keeps_rows_def]
    by (simp add: cdc_data_def ensure_events_def cdc_key_def Let_def)
qed

text \<open>What a CDC batch commits, when it returns: one update per key of its table, its offsets after
  the data, all between one \<open>BEGIN\<close> and one \<open>COMMIT\<close>.\<close>

lemma checked_Inr: "fst (checked r log) = Inr x \<longleftrightarrow> r = Inr x" "snd (checked r log) = log"
  by (cases r; simp add: checked_def elift_def)+

lemma ebind_checked:
  "ebind (checked r) f log = (case r of Inl e \<Rightarrow> (Inl (Failed e), log) | Inr x \<Rightarrow> f x log)"
  by (cases r) (simp_all add: ebind_def checked_def elift_def)

lemma ebind_try_each:
  "ebind (try_each g xs) f log = (case each g xs of Inl e \<Rightarrow> (Inl (Failed e), log) | Inr x \<Rightarrow> f x log)"
  by (simp add: try_each_def ebind_checked)

lemma key_index_in: "key \<in> set columns \<longleftrightarrow> (\<exists>i. key_index columns key = Inr i)"
  by (induction columns) (auto simp: key_index_def)

text \<open>The checks before the transaction, then the transaction.\<close>

lemma apply_cdc_batch_cases:
  obtains (rejected) e where "apply_cdc_batch env w sys ent columns key upserts deletes offsets log = (Inl (Failed e), log)"
  | (run) table key_idx where
      "list_all IDENT_RE columns" "key_index columns key = Inr key_idx" "raw_table_name sys ent = Inr table"
      "apply_cdc_batch env w sys ent columns key upserts deletes offsets log =
         transaction env w (cdc_body env w table (sys @ ''.'' @ ent) columns key upserts deletes offsets) log"
proof (cases "columns \<noteq> [] \<and> each validate_ident columns = Inr () \<and> validate_ident key = Inr () \<and>
    key \<in> set columns \<and> is_ok (raw_table_name sys ent)")
  case True
  then obtain table key_idx where names: "raw_table_name sys ent = Inr table" "key_index columns key = Inr key_idx"
    by (auto simp: is_ok_iff key_index_in)
  show ?thesis
  proof (rule run [OF _ names(2,1)])
    show "list_all IDENT_RE columns" using True by (simp add: list_all_iff each_Inr_iff)
    show "apply_cdc_batch env w sys ent columns key upserts deletes offsets log =
        transaction env w (cdc_body env w table (sys @ ''.'' @ ent) columns key upserts deletes offsets) log"
      using True by (simp only: apply_cdc_batch_def ebind_checked ebind_try_each names guard_simps(1) sum.case not_False_eq_True)
  qed
next
  case False
  have "\<exists>e. apply_cdc_batch env w sys ent columns key upserts deletes offsets log = (Inl (Failed e), log)"
    using False
    by (cases "each validate_ident columns"; cases "IDENT_RE key"; cases "raw_table_name sys ent")
       (auto simp: apply_cdc_batch_def ebind_checked ebind_try_each guard_def validate_ident_def)
  with rejected show ?thesis by blast
qed

end
