(* ===== verification/Storage_Calls.thy ===== *)
theory Storage_Calls
  imports Storage_Merge Ingestion_Writer
begin

text \<open>
  The storage operation behind each call of the ingestion writer, and two contracts all of them
  keep: every statement has a parameter per placeholder, and nothing but the statements of the
  engine's own tables goes unstamped by the tenant.
\<close>

text \<open>The maintenance calls leave the writer's probed flag to their successor; here it is dropped.\<close>

definition no_count :: "'a db \<Rightarrow> nat db" where
  "no_count m = ebind m (\<lambda>_. eret 0)"

fun perform :: "db_env \<Rightarrow> writer \<Rightarrow> store_call \<Rightarrow> nat db" where
  "perform env w (Ingest_call sys ent columns rows) = writer_ingest_raw env w sys ent columns rows"
| "perform env w (Upsert_call sys ent columns key rows) = upsert_raw env w sys ent columns key rows"
| "perform env w (Delete_call sys ent key keys) = delete_raw env w sys ent key keys"
| "perform env w (Compact_call sys ent) = no_count (compact env w sys ent)"
| "perform env w (Expire_call days) = no_count (expire_snapshots env w days)"
| "perform env w (Orphans_call days) = no_count (delete_orphaned_files env w days)"
| "perform env w (Materialize_call sql params key spec) = materialize_snapshot env w sql params key spec"
| "perform env w (Export_call snapshot_id dest) = no_count (export_snapshot_parquet env snapshot_id dest)"
| "perform env w (Features_call rows) = write_features_and_refresh env w rows"
| "perform env w (Catalog_call rows) = write_catalog_rows env w rows"
| "perform env w (Suppression_call rows) = write_suppression_idempotent env w rows"
| "perform env w (Cdc_call b) =
     apply_cdc_batch env w (sb_system b) (sb_entity b) (sb_columns b) (sb_key b) (sb_upserts b) (sb_deletes b) (sb_offsets b)"
| "perform env w (Offsets_call source) = no_count (read_cdc_offsets env source)"

text \<open>What a caller owes: rows as wide as their columns, and a compiled statement with its parameters.\<close>

definition wide_rows :: "string list \<Rightarrow> table_row list \<Rightarrow> bool" where
  "wide_rows columns rows \<longleftrightarrow> list_all (\<lambda>r. length r = length columns) rows"

fun wf_call :: "store_call \<Rightarrow> bool" where
  "wf_call (Ingest_call sys ent columns rows) \<longleftrightarrow> wide_rows columns rows"
| "wf_call (Upsert_call sys ent columns key rows) \<longleftrightarrow> wide_rows columns rows"
| "wf_call (Materialize_call sql params key spec) \<longleftrightarrow> qmarks sql = length params"
| "wf_call (Export_call snapshot_id dest) \<longleftrightarrow> qmarks dest = 0"
| "wf_call (Cdc_call b) \<longleftrightarrow> wide_rows (sb_columns b) (sb_upserts b)"
| "wf_call _ \<longleftrightarrow> True"

subsection \<open>Statements and parameters\<close>

definition unstamped :: "string set" where
  "unstamped = {offset_sql, offsets_query, probe_sql, short_names_sql} \<union> range export_sql"

fun bound :: "string \<Rightarrow> db_event \<Rightarrow> bool" where
  "bound t (Execute_stmt sql ps) \<longleftrightarrow> qmarks sql = length ps \<and> (VText t \<in> set ps \<or> sql \<in> unstamped)"
| "bound t (Query_stmt sql ps) \<longleftrightarrow> qmarks sql = length ps \<and> (VText t \<in> set ps \<or> sql \<in> unstamped)"
| "bound t _ \<longleftrightarrow> True"

named_theorems bound_intros \<open>contracts of the storage operations\<close>

lemmas [bound_intros] = ensures_eret [where Q = "\<lambda>_. True", OF TrueI] ensures_efail

lemma ensures_then_checked: "ensures P m (\<lambda>_. True) \<Longrightarrow> ensures P (ebind m (\<lambda>r. checked (f r))) (\<lambda>_. True)"
  by (erule ensures_ebind) (simp add: checked_def ensures_elift)

lemma bound_execute_batch [bound_intros]: "ensures (bound t) (execute_batch env sql) (\<lambda>_. True)"
  unfolding execute_batch_def by (intro ensures_then_checked ensures_ask) simp

lemma bound_db_prepare [bound_intros]: "ensures (bound t) (db_prepare env sql) (\<lambda>_. True)"
  unfolding db_prepare_def by (intro ensures_then_checked ensures_ask) simp

lemma bound_db_execute [bound_intros]:
  "bound t (Execute_stmt sql ps) \<Longrightarrow> ensures (bound t) (db_execute env sql ps) (\<lambda>_. True)"
  unfolding db_execute_def by (intro ensures_then_checked ensures_ask)

lemma bound_db_query [bound_intros]:
  "bound t (Query_stmt sql ps) \<Longrightarrow> ensures (bound t) (db_query f sql ps) (\<lambda>_. True)"
  unfolding db_query_def by (intro ensures_then_checked ensures_ask)

lemma bound_prepare_execute [bound_intros]:
  "bound t (Execute_stmt sql ps) \<Longrightarrow> ensures (bound t) (prepare_execute env sql ps) (\<lambda>_. True)"
  unfolding prepare_execute_def by (intro ensures_seq bound_intros)

lemma bound_bump_write [bound_intros]: "ensures (bound t) (bump_write w) (\<lambda>_. True)"
  by (simp add: bump_write_def ensures_ask bound_intros)

lemma ensures_if: "(b \<Longrightarrow> ensures P m Q) \<Longrightarrow> (\<not> b \<Longrightarrow> ensures P n Q) \<Longrightarrow> ensures P (if b then m else n) Q"
  by simp

lemma bound_esum:
  "(\<And>x. x \<in> set xs \<Longrightarrow> ensures P (f x) (\<lambda>_. True)) \<Longrightarrow> ensures P (esum f xs) (\<lambda>_. True)"
  by (induction xs) (auto intro: ensures_eret ensures_seq)

lemma bound_checked: "(\<And>x. r = Inr x \<Longrightarrow> Q x) \<Longrightarrow> ensures P (checked r) Q"
  unfolding checked_def by (rule ensures_elift) simp

lemma bound_after_checked:
  "(\<And>x. r = Inr x \<Longrightarrow> ensures P (f x) R) \<Longrightarrow> ensures P (ebind (checked r) f) R"
  by (rule ensures_ebind [where Q = "\<lambda>x. r = Inr x"]) (auto intro: bound_checked)

lemma bound_after_each:
  "(list_all (\<lambda>x. f x = Inr ()) xs \<Longrightarrow> ensures P m R) \<Longrightarrow> ensures P (ebind (try_each f xs) (\<lambda>_. m)) R"
  unfolding try_each_def by (rule bound_after_checked) (auto simp: each_Inr_iff list_all_iff)

lemma ensures_transaction:
  assumes "ensures (bound t) body (\<lambda>_. True)"
  shows "ensures (bound t) (transaction env w body) (\<lambda>_. True)"
proof -
  have "ensures (bound t) (\<lambda>log. case body log of
       (Inr n, log) \<Rightarrow> ebind (execute_batch env ''COMMIT'') (\<lambda>_. ebind (bump_write w) (\<lambda>_. eret n)) log
     | (Inl (Failed e), log) \<Rightarrow> (Inl (Failed e), snd (execute_batch env ''ROLLBACK'' log))
     | (Inl Panicked, log) \<Rightarrow> (Inl Panicked, log)) (\<lambda>_. True)"
    unfolding ensures_def
  proof (intro allI conjI)
    fix log
    obtain r log1 where run: "body log = (r, log1)" by fastforce
    from ensures_log [OF assms run] obtain reqs where reqs: "log1 = log @ reqs" "list_all (bound t) reqs" by blast
    have commit: "\<exists>rs. snd (ebind (execute_batch env ''COMMIT'') (\<lambda>_. ebind (bump_write w) (\<lambda>_. eret n)) log1) = log1 @ rs \<and>
        list_all (bound t) rs" for n :: nat
      using ensures_seq [OF bound_execute_batch, of t "\<lambda>_. ebind (bump_write w) (\<lambda>_. eret n)" "\<lambda>_. True" env "''COMMIT''"]
        ensures_seq [OF bound_bump_write, of t "\<lambda>_. eret n" "\<lambda>_. True" w] bound_intros(1) [of "bound t" n]
      unfolding ensures_def by blast
    show "\<exists>reqs. snd (case body log of
       (Inr n, log) \<Rightarrow> ebind (execute_batch env ''COMMIT'') (\<lambda>_. ebind (bump_write w) (\<lambda>_. eret n)) log
     | (Inl (Failed e), log) \<Rightarrow> (Inl (Failed e), snd (execute_batch env ''ROLLBACK'' log))
     | (Inl Panicked, log) \<Rightarrow> (Inl Panicked, log)) = log @ reqs \<and> list_all (bound t) reqs"
    proof (cases r)
      case (Inl e)
      with run reqs show ?thesis by (cases e) (simp_all add: execute_batch_log)
    next
      case (Inr n)
      from commit [of n] run Inr reqs show ?thesis by force
    qed
  qed simp_all
  from ensures_seq [OF bound_execute_batch this] show ?thesis by (simp add: transaction_def)
qed

subsection \<open>Placeholders of the texts\<close>

lemma sum_list_const: "(\<And>x. x \<in> set xs \<Longrightarrow> f x = n) \<Longrightarrow> sum_list (map f xs) = n * length xs"
  by (induction xs) auto

lemma qmarks_join_idents:
  "(\<And>x. x \<in> set xs \<Longrightarrow> qmarks x = 0) \<Longrightarrow> qmarks (join '', '' xs) = 0"
  "(\<And>x. x \<in> set xs \<Longrightarrow> qmarks (f x) = 0) \<Longrightarrow> qmarks (join '', '' (map f xs)) = 0"
  by (simp_all add: qmarks_join)

lemma qmarks_upsert_sql [qm_simps]:
  assumes "qmarks table = 0" "IDENT_RE key" "list_all IDENT_RE columns"
  shows "qmarks (upsert_sql table columns key n) = n * (length columns + 1)"
proof -
  define cols where "cols = columns @ [''tenant_id'']"
  have all: "qmarks c = 0" if "c \<in> set cols" for c
    using that assms(3) by (cases "c \<in> set columns") (auto simp: cols_def list_all_iff qmarks_ident)
  have names: "qmarks (join '', '' cols) = 0"
    using all by (rule qmarks_join_idents(1))
  have sets: "qmarks (join '', '' (map (\<lambda>c. c @ '' = s.'' @ c) cols)) = 0"
    using all by (intro qmarks_join_idents(2)) simp
  have vals: "qmarks (join '', '' (map ((@) ''s.'') cols)) = 0"
    using all by (intro qmarks_join_idents(2)) simp
  have "length cols = length columns + 1" by (simp add: cols_def)
  with assms(1,2) names sets vals show ?thesis
    unfolding upsert_sql_def Let_def cols_def [symmetric] by (simp add: qmarks_ident)
qed

lemma qmarks_delete_sql [qm_simps]:
  "qmarks table = 0 \<Longrightarrow> IDENT_RE key \<Longrightarrow> qmarks (delete_sql table key n) = n + 1"
  by (simp add: delete_sql_def qmarks_join sum_list_replicate qm_simps)

lemma qmarks_insert_raw_prefix [qm_simps]:
  assumes "qmarks table = 0" "list_all IDENT_RE columns"
  shows "qmarks (insert_raw_prefix table columns) = 0"
proof -
  have "qmarks (join '', '' columns) = 0"
    using assms(2) by (intro qmarks_join_idents(1)) (simp add: list_all_iff qm_simps)
  with assms(1) show ?thesis by (simp add: insert_raw_prefix_def)
qed

lemma qmarks_raw_table_name: "raw_table_name sys ent = Inr table \<Longrightarrow> qmarks table = 0"
  by (auto simp: raw_table_name_Inr qm_simps)

lemma length_bind_rows:
  "list_all (\<lambda>r. length r = n) rows \<Longrightarrow> length (concat (map (bind_row t) rows)) = length rows * (n + 1)"
  by (induction rows) (simp_all add: bind_row_def)

lemma tenant_bind_rows: "rows \<noteq> [] \<Longrightarrow> VText t \<in> set (concat (map (bind_row t) rows))"
  by (cases rows) (simp_all add: bind_row_def)

lemma chunk_wide:
  "wide_rows columns rows \<Longrightarrow> c \<in> set (chunks n rows) \<Longrightarrow> c \<noteq> [] \<and> list_all (\<lambda>r. length r = length columns) c"
  using chunks_bounds [of c n rows] by (auto simp: wide_rows_def list_all_iff)

subsection \<open>The contracts\<close>

lemma bound_insert_chunked:
  assumes "qmarks insert_prefix = 0" "\<And>r. r \<in> set rows \<Longrightarrow> length (bind r) = cols \<and> VText t \<in> set (bind r)"
  shows "ensures (bound t) (insert_chunked env insert_prefix cols rows bind) (\<lambda>_. True)"
proof -
  have "ensures (bound t) (prepare_execute env (insert_prefix @ multi_rows (length c) cols) (concat (map bind c))) (\<lambda>_. True)"
    if c: "c \<in> set (chunks (chunk_rows cols) rows)" for c
  proof (intro bound_intros)
    from chunks_bounds [OF c] have "c \<noteq> []" and sub: "set c \<subseteq> set rows" by auto
    then obtain r cs where "c = r # cs" by (cases c) auto
    with sub assms have "VText t \<in> set (concat (map bind c))" by auto
    moreover have "length (concat (map bind c)) = length c * cols"
      using sub assms(2) by (simp add: length_concat comp_def sum_list_const subset_iff)
    ultimately show "bound t (Execute_stmt (insert_prefix @ multi_rows (length c) cols) (concat (map bind c)))"
      using assms(1) by simp
  qed
  then show ?thesis by (simp add: insert_chunked_def bound_intros bound_esum)
qed

lemma bound_ensure_raw [bound_intros]: "ensures (bound t) (ensure_raw env table columns) (\<lambda>_. True)"
  unfolding ensure_raw_def by (intro ensures_seq bound_intros)

lemma bound_merge_upserts:
  assumes "qmarks table = 0" "IDENT_RE key" "list_all IDENT_RE columns" "wide_rows columns rows"
  shows "ensures (bound (wr_tenant w)) (merge_upserts env w table columns key rows) (\<lambda>_. True)"
  unfolding merge_upserts_def
proof (intro bound_esum bound_intros)
  fix c assume c: "c \<in> set (chunks MERGE_CHUNK_ROWS rows)"
  from chunk_wide [OF assms(4) c] have c: "c \<noteq> []" "list_all (\<lambda>r. length r = length columns) c" by simp_all
  from length_bind_rows [OF c(2), of "wr_tenant w"] tenant_bind_rows [OF c(1)] assms(1-3)
  show "bound (wr_tenant w) (Execute_stmt (upsert_sql table columns key (length c))
      (concat (map (bind_row (wr_tenant w)) c)))"
    by (simp add: qm_simps del: set_concat length_concat)
qed

lemma bound_merge_deletes:
  assumes "qmarks table = 0" "IDENT_RE key"
  shows "ensures (bound (wr_tenant w)) (merge_deletes env w table key keys) (\<lambda>_. True)"
  unfolding merge_deletes_def
  using assms by (intro bound_esum bound_intros) (simp add: qm_simps)

lemma wide_dedup: "wide_rows columns rows \<Longrightarrow> wide_rows columns (dedup_by_key rows key_idx)"
  using dedup_spec(2) [of rows key_idx] by (auto simp: wide_rows_def list_all_iff)

lemma bound_writer_ingest_raw:
  assumes "wide_rows columns rows"
  shows "ensures (bound (wr_tenant w)) (writer_ingest_raw env w sys ent columns rows) (\<lambda>_. True)"
  unfolding writer_ingest_raw_def
proof (intro bound_after_checked bound_after_each)
  fix table assume cols: "list_all (\<lambda>x. validate_ident x = Inr ()) columns" and t: "raw_table_name sys ent = Inr table"
  from cols have "list_all IDENT_RE columns" by (simp add: list_all_iff)
  then have insert: "ensures (bound (wr_tenant w)) (insert_chunked env (insert_raw_prefix table columns)
      (length columns + 1) rows (bind_row (wr_tenant w))) (\<lambda>_. True)"
    using assms qmarks_raw_table_name [OF t]
    by (intro bound_insert_chunked) (auto simp: qm_simps bind_row_def wide_rows_def list_all_iff)
  show "ensures (bound (wr_tenant w)) (ebind (ensure_raw env table columns) (\<lambda>_.
     if rows = [] then eret 0
     else
       ebind (insert_chunked env (insert_raw_prefix table columns) (length columns + 1) rows
                (bind_row (wr_tenant w))) (\<lambda>n.
       ebind (bump_write w) (\<lambda>_. eret n)))) (\<lambda>_. True)"
    by (intro ensures_seq ensures_if insert bound_intros)
qed

lemma validated: "list_all (\<lambda>x. validate_ident x = Inr ()) xs \<longleftrightarrow> list_all IDENT_RE xs"
  by (simp add: list_all_iff)

lemma bound_upsert_raw:
  assumes "wide_rows columns rows"
  shows "ensures (bound (wr_tenant w)) (upsert_raw env w sys ent columns key rows) (\<lambda>_. True)"
  unfolding upsert_raw_def
  by (intro bound_after_checked bound_after_each ensures_seq ensures_if bound_intros
      bound_merge_upserts wide_dedup assms)
     (simp_all add: qmarks_raw_table_name validated)

lemma bound_delete_raw: "ensures (bound (wr_tenant w)) (delete_raw env w sys ent key keys) (\<lambda>_. True)"
  unfolding delete_raw_def
  by (intro bound_after_checked ensures_seq ensures_if bound_intros bound_merge_deletes)
     (simp_all add: qmarks_raw_table_name)

lemma qmarks_offset_sql: "qmarks offset_sql = 4"
  by (simp add: offset_sql_def)

lemma bound_apply_cdc_batch:
  assumes "wide_rows columns upserts"
  shows "ensures (bound (wr_tenant w)) (apply_cdc_batch env w sys ent columns key upserts deletes offsets) (\<lambda>_. True)"
  unfolding apply_cdc_batch_def
proof (intro bound_after_checked bound_after_each ensures_transaction)
  fix u table
  assume ids: "list_all (\<lambda>x. validate_ident x = Inr ()) columns" "validate_ident key = Inr u"
    and t: "raw_table_name sys ent = Inr table"
  have off: "ensures (bound (wr_tenant w)) (ebind (peek (de_now env)) (upsert_cdc_offset env source p off)) (\<lambda>_. True)"
    for source p off
    unfolding upsert_cdc_offset_def
    by (intro ensures_seq [OF ensures_peek] ensures_seq bound_intros) (simp add: qmarks_offset_sql unstamped_def)
  show "ensures (bound (wr_tenant w))
      (cdc_body env w table (sys @ ''.'' @ ent) columns key upserts deletes offsets) (\<lambda>_. True)"
    unfolding cdc_body_def
    by (intro bound_after_checked ensures_seq ensures_eeach bound_intros bound_merge_upserts bound_merge_deletes
        wide_dedup assms; clarsimp simp: off ids [unfolded validated] qmarks_raw_table_name [OF t] validate_ident_ok [symmetric])
      (use ids in auto)
qed

lemma bound_ensure_table [bound_intros]: "ensures (bound t) (ensure_table env table columns) (\<lambda>_. True)"
  unfolding ensure_table_def by (intro ensures_seq bound_intros)

lemma bound_write_suppression:
  "ensures (bound (wr_tenant w)) (write_suppression_idempotent env w rows) (\<lambda>_. True)"
  unfolding write_suppression_idempotent_def ensure_suppression_table_def
  by (intro ensures_if ensures_seq bound_esum bound_intros) (simp add: suppression_sql_def suppression_params_def)

lemma bound_write_feature_rows: "ensures (bound (wr_tenant w)) (write_feature_rows env w rows) (\<lambda>_. True)"
  unfolding write_feature_rows_def ensure_feature_store_table_def
  by (intro ensures_if bound_after_each ensures_seq bound_insert_chunked bound_intros)
     (simp_all add: feature_prefix_def bind_feature_def)

lemma bound_features: "ensures (bound (wr_tenant w)) (write_features_and_refresh env w rows) (\<lambda>_. True)"
proof -
  have "ensures (bound t) (feature_short_names env family) (\<lambda>_. True)" for t family
    unfolding feature_short_names_def ensure_feature_store_table_def
    by (intro bound_after_checked ensures_seq bound_intros) (simp add: short_names_sql_def unstamped_def)
  moreover have "ensures (bound t) (refresh_feature_wide_view env family shorts) (\<lambda>_. True)" for t family shorts
    unfolding refresh_feature_wide_view_def ensure_feature_store_table_def
    by (intro bound_after_checked bound_after_each ensures_if ensures_seq bound_intros)
  ultimately show ?thesis
    unfolding write_features_and_refresh_def features_body_def
    by (intro ensures_if ensures_transaction bound_intros ensures_seq [OF bound_write_feature_rows]
        bound_after_checked ensures_seq [OF ensures_eeach]) (auto intro!: ensures_seq split: prod.split)
qed

lemma qmarks_catalog_sql: "qmarks (catalog_sql dim) = 11 + dim"
  by (simp add: catalog_sql_def embedding_expr_def)

lemma bound_write_catalog_rows: "ensures (bound (wr_tenant w)) (write_catalog_rows env w rows) (\<lambda>_. True)"
proof (cases rows)
  case Nil
  then show ?thesis by (simp add: write_catalog_rows_def bound_intros)
next
  case (Cons r0 rs)
  show ?thesis
    unfolding write_catalog_rows_def Cons list.case Let_def ensure_semantic_catalog_table_def
    by (intro ensures_seq bound_after_each bound_esum bound_after_checked bound_intros)
       (auto simp: qmarks_catalog_sql catalog_params_def list_all_iff)
qed

lemma bound_materialize:
  assumes "qmarks sql = length params"
  shows "ensures (bound (wr_tenant w)) (materialize_snapshot env w sql params key spec) (\<lambda>_. True)"
  unfolding materialize_snapshot_def ensure_audience_snapshot_table_def
  using assms
  by (intro bound_after_checked ensures_seq bound_intros) (simp add: snapshot_sql_def snapshot_params_def qmarks_ident)

lemma bound_maintain: "ensures (bound t) (maintain env w sql) (\<lambda>_. True)"
proof -
  have probe: "ensures (bound t) (prepare_execute env probe_sql [VText ''1970-01-01T00:00:00Z'']) (\<lambda>_. True)"
    by (intro bound_intros) (simp add: probe_sql_def unstamped_def quoted_def WRITE_CATALOG_ALIAS_def)
  have "ensures (bound t) (probe_maintenance env w) (\<lambda>_. True)"
    using probe unfolding probe_maintenance_def ensures_def by (simp add: eret_def split: prod.split) (metis snd_conv)
  then show ?thesis
    unfolding maintain_def by (intro ensures_seq ensures_if bound_intros)
qed

lemma qmarks_escape: "qmarks (escape_for_sql_literal s) = qmarks s"
  by (induction s) (simp_all add: escape_for_sql_literal_def)

lemma perform_bound:
  assumes "wf_call c"
  shows "ensures (bound (wr_tenant w)) (perform env w c) (\<lambda>_. True)"
proof (cases c)
  case (Offsets_call source)
  show ?thesis
    unfolding Offsets_call perform.simps no_count_def read_cdc_offsets_def
    by (intro ensures_seq bound_intros) (simp add: offsets_query_def unstamped_def)
next
  case (Export_call snapshot_id dest)
  with assms show ?thesis
    by (simp add: no_count_def export_snapshot_parquet_def, intro ensures_seq bound_intros)
       (simp_all add: export_sql_def unstamped_def qmarks_escape)
next
  case (Compact_call sys ent)
  then show ?thesis
    by (simp add: no_count_def compact_def, intro ensures_seq bound_after_checked bound_intros)
qed (use assms in \<open>auto simp: no_count_def expire_snapshots_def delete_orphaned_files_def
    intro: bound_writer_ingest_raw bound_upsert_raw bound_delete_raw bound_apply_cdc_batch bound_write_suppression
      bound_features bound_write_catalog_rows bound_materialize ensures_seq bound_maintain bound_intros\<close>)

end
