(* ===== verification/Storage_Spec.thy ===== *)
theory Storage_Spec
  imports Storage_Cdc Storage_Calls
begin

text \<open>
  The properties of the storage writer: the deduplication, the limits of a statement, the CDC batch
  (its atomicity, its effect, a replay, other tenants' rows), when the generation advances, and the
  quoting of paths.
\<close>

subsection \<open>A small engine\<close>

text \<open>An engine for one table with one key column, which reads the parameters back into rows.\<close>

fun decode_rows :: "dval list \<Rightarrow> stored list" where
  "decode_rows (v # VText t # ps) =
     (\<lambda>c. if c = ''user_id'' then (case v of VText s \<Rightarrow> Some s | _ \<Rightarrow> None)
          else if c = ''tenant_id'' then Some t else None) # decode_rows ps"
| "decode_rows ps = []"

definition text_of :: "dval \<Rightarrow> string" where
  "text_of v = (case v of VText s \<Rightarrow> s | _ \<Rightarrow> '''')"

abbreviation "sample_table \<equiv> ''raw_crm_users''"

definition sample_engine :: engine where
  "sample_engine ev tbl =
     (case ev of
        Execute_stmt sql ps \<Rightarrow>
          if sql = offset_sql then tbl
          else if ps \<noteq> [] \<and> sql = delete_sql sample_table ''user_id'' (length ps - 1) then
            delete_effect ''user_id'' (map text_of (butlast ps)) (text_of (last ps)) tbl
          else merge_effect ''user_id'' [''user_id'', ''tenant_id''] (decode_rows ps) tbl
      | _ \<Rightarrow> tbl)"

lemma decode_bind:
  "list_all (\<lambda>r. length r = 1) rows \<Longrightarrow>
   decode_rows (concat (map (bind_row tenant) rows)) = map (stored_row [''user_id''] tenant) rows"
proof (induction rows)
  case (Cons r rows)
  then obtain v where r: "r = [v]" by (auto simp: length_Suc_conv)
  have "stored_row [''user_id''] tenant [v] = (\<lambda>c. if c = ''user_id'' then v else if c = ''tenant_id'' then Some tenant else None)"
    by (auto simp: stored_row_def fun_eq_iff)
  with Cons r show ?case by (cases v) (simp_all add: bind_row_def cell_value_def fun_eq_iff)
qed simp

lemma sql_differ:
  "upsert_sql sample_table [''user_id''] ''user_id'' (Suc n) \<noteq> offset_sql"
  "upsert_sql sample_table [''user_id''] ''user_id'' (Suc n) \<noteq> delete_sql sample_table ''user_id'' m"
  "delete_sql sample_table ''user_id'' m \<noteq> offset_sql"
proof -
  have head: "take 15 (upsert_sql sample_table [''user_id''] ''user_id'' (Suc n)) = ''MERGE INTO dl.r''"
    "take 15 (delete_sql sample_table ''user_id'' m) = ''MERGE INTO dl.r''"
    "take 15 offset_sql = ''MERGE INTO dl.c''"
    by (simp_all add: upsert_sql_def delete_sql_def offset_sql_def dl_def WRITE_CATALOG_ALIAS_def Let_def)
  then show "upsert_sql sample_table [''user_id''] ''user_id'' (Suc n) \<noteq> offset_sql"
    "delete_sql sample_table ''user_id'' m \<noteq> offset_sql" by auto
  show "upsert_sql sample_table [''user_id''] ''user_id'' (Suc n) \<noteq> delete_sql sample_table ''user_id'' m"
    by (cases n; cases m; simp add: upsert_sql_def delete_sql_def dl_def WRITE_CATALOG_ALIAS_def Let_def
      multi_rows_def row_holes_def holes_def numeral_2_eq_2)
qed

lemma sample_documented: "documented sample_engine sample_table [''user_id''] ''user_id''"
  unfolding documented_def
proof (intro conjI)
  show "keeps_rows sample_engine"
    by (auto simp: keeps_rows_def sample_engine_def fun_eq_iff)
  show "runs_deletes sample_engine sample_table ''user_id''"
    by (auto simp: runs_deletes_def sample_engine_def sql_differ comp_def text_of_def)
  show "runs_upserts sample_engine sample_table [''user_id''] ''user_id''"
    unfolding runs_upserts_def
  proof (intro allI impI)
    fix tenant :: string and rows :: "table_row list" and tbl
    assume "rows \<noteq> []" and wide: "list_all (\<lambda>r. length r = length [''user_id'']) rows"
    then obtain n where n: "length rows = Suc n" by (cases rows) auto
    show "sample_engine (Execute_stmt (upsert_sql sample_table [''user_id''] ''user_id'' (length rows))
        (concat (map (bind_row tenant) rows))) tbl =
      merge_effect ''user_id'' (all_columns [''user_id'']) (map (stored_row [''user_id''] tenant) rows) tbl"
      unfolding sample_engine_def n
      using wide by (simp add: sql_differ decode_bind all_columns_def)
  qed
qed

definition sample_env :: db_env where
  "sample_env = \<lparr>de_unit = (\<lambda>log. Inr ()), de_count = (\<lambda>log. Inr 1), de_names = (\<lambda>log. Inr []),
     de_pairs = (\<lambda>log. Inr []), de_json = (\<lambda>j. Inr ''null''), de_now = (\<lambda>log. ''2026-01-01T00:00:00Z'')\<rparr>"

definition sample_writer :: writer where
  "sample_writer = \<lparr>wr_tenant = ''acme'', wr_gen = True, wr_maintenance = False\<rparr>"

subsection \<open>Batches\<close>

text \<open>deduplicating a batch keeps, for every key, exactly its last row, and no row without a key.\<close>

theorem dedup_keeps_last:
  "distinct (map (row_key key_idx) (dedup_by_key rows key_idx)) \<and>
   None \<notin> row_key key_idx ` set (dedup_by_key rows key_idx) \<and>
   (\<forall>k. find (\<lambda>r. row_key key_idx r = Some k) (dedup_by_key rows key_idx) = last_row key_idx rows k)"
  using dedup_spec by blast

lemma chunk_rows_pos: "chunk_rows cols = 0 \<longleftrightarrow> MAX_PARAMS < cols"
  by (auto simp: chunk_rows_def CHUNK_ROWS_def MAX_PARAMS_def div_eq_0_iff min_def)

lemma esum_no_panic: "(\<And>x log. fst (f x log) \<noteq> Inl Panicked) \<Longrightarrow> fst (esum f xs log) \<noteq> Inl Panicked"
proof (induction xs arbitrary: log)
  case (Cons x xs)
  obtain r log1 where run: "f x log = (r, log1)" by fastforce
  with Cons.prems [of x log] Cons.IH [OF Cons.prems, of log1] show ?case
    by (cases r; cases "esum f xs log1"; cases "fst (esum f xs log1)") (auto simp: ebind_def eret_def)
qed (simp add: eret_def)

lemma prepare_execute_no_panic: "fst (prepare_execute env sql ps log) \<noteq> Inl Panicked"
  by (auto simp: prepare_execute_def db_prepare_def db_execute_def ebind_def ask_def checked_def elift_def map_err_def
      split: sum.splits)

text \<open>appending rows panics exactly for a non-empty batch that is wider than a statement's
  parameters, the one width \<open>chunks\<close> cannot cut.\<close>

theorem insert_panics_iff:
  "fst (insert_chunked env insert_prefix cols rows bind log) = Inl Panicked \<longleftrightarrow> rows \<noteq> [] \<and> MAX_PARAMS < cols"
proof (cases "rows = [] \<or> MAX_PARAMS < cols")
  case True
  then show ?thesis
    using chunk_rows_pos [of cols] by (cases "rows = []") (simp_all add: insert_chunked_def eret_def efail_def)
next
  case False
  then have "chunk_rows cols \<noteq> 0" by (simp add: chunk_rows_pos)
  with False esum_no_panic [OF prepare_execute_no_panic] show ?thesis by (simp add: insert_chunked_def)
qed

text \<open>C34: a successful append sends the rows in their order, in as many statements as chunks of the
  permitted size, each within the limit on parameters.\<close>

theorem insert_within_limits:
  assumes "0 < cols" "cols \<le> MAX_PARAMS"
    and "insert_chunked env insert_prefix cols rows bind log = (Inr n, log')"
  shows "\<exists>css. log' = log @ concat (map (insert_event insert_prefix cols bind) css) \<and> concat css = rows \<and>
     length css = (length rows + chunk_rows cols - 1) div chunk_rows cols \<and>
     list_all (\<lambda>c. length c \<le> CHUNK_ROWS \<and> length c * cols \<le> MAX_PARAMS) css"
proof (intro exI conjI)
  let ?css = "chunks (chunk_rows cols) rows"
  from assms(2) have pos: "chunk_rows cols \<noteq> 0" by (simp add: chunk_rows_pos)
  show "log' = log @ concat (map (insert_event insert_prefix cols bind) ?css)"
    using emits_ok [OF emits_insert_chunked assms(3)] by simp
  show "concat ?css = rows" "length ?css = (length rows + chunk_rows cols - 1) div chunk_rows cols"
    using pos by (simp_all add: concat_chunks length_chunks)
  have "length c \<le> CHUNK_ROWS \<and> length c * cols \<le> MAX_PARAMS" if "c \<in> set ?css" for c
  proof -
    from chunks_bounds [OF that] have c: "length c \<le> chunk_rows cols" by simp
    then have "length c * cols \<le> MAX_PARAMS div cols * cols"
      using assms(1) by (intro mult_right_mono) (simp_all add: chunk_rows_def)
    also have "\<dots> \<le> MAX_PARAMS" by (simp add: div_times_less_eq_dividend)
    finally show ?thesis using c by (simp add: chunk_rows_def)
  qed
  then show "list_all (\<lambda>c. length c \<le> CHUNK_ROWS \<and> length c * cols \<le> MAX_PARAMS) ?css" by (simp add: list_all_iff)
qed

lemma chunk_rows_2: "chunk_rows 2 = 500"
proof -
  have "max 2 (1 :: nat) = 2" by simp
  then show ?thesis unfolding chunk_rows_def CHUNK_ROWS_def MAX_PARAMS_def by (simp only:)
qed

lemma sample_insert:
  "insert_chunked sample_env p 2 [[Some ''u1'']] (bind_row ''acme'') [] =
     (Inr 1, insert_event p 2 (bind_row ''acme'') [[Some ''u1'']])"
  by (simp add: insert_chunked_def chunk_rows_2 chunks.simps(2) insert_event_def
      prepared_def prepare_execute_def db_prepare_def db_execute_def ebind_def ask_def checked_def elift_def
      eret_def sample_env_def)

theorem insert_within_limits_witness:
  "\<exists>css. insert_event ''INSERT '' 2 (bind_row ''acme'') [[Some ''u1'']] =
       [] @ concat (map (insert_event ''INSERT '' 2 (bind_row ''acme'')) css) \<and>
     concat css = [[Some ''u1'']] \<and>
     length css = (length [[Some ''u1'']] + chunk_rows 2 - 1) div chunk_rows 2 \<and>
     list_all (\<lambda>c. length c \<le> CHUNK_ROWS \<and> length c * 2 \<le> MAX_PARAMS) css"
  by (rule insert_within_limits [OF _ _ sample_insert]) (simp_all add: MAX_PARAMS_def)

text \<open>A full upsert chunk has no such limit: from 131 columns on it exceeds the parameters of a
  statement.\<close>

lemma upsert_chunk_exceeds:
  "qmarks table = 0 \<Longrightarrow> IDENT_RE key \<Longrightarrow> list_all IDENT_RE columns \<Longrightarrow>
   MAX_PARAMS < qmarks (upsert_sql table columns key MERGE_CHUNK_ROWS) \<longleftrightarrow> 131 \<le> length columns"
  by (auto simp: qm_simps MAX_PARAMS_def MERGE_CHUNK_ROWS_def)

subsection \<open>The CDC batch\<close>

lemma no_panic_ebind:
  assumes "fst (m log) \<noteq> Inl Panicked" "\<And>x log. fst (f x log) \<noteq> Inl Panicked"
  shows "fst (ebind m f log) \<noteq> Inl Panicked"
  using assms by (cases "m log"; cases "fst (m log)") (auto simp: ebind_def)

lemma no_panic_checked: "fst (checked r log) \<noteq> Inl Panicked"
  by (cases r) (simp_all add: checked_def elift_def)

lemma no_panic_execute_batch: "fst (execute_batch env sql log) \<noteq> Inl Panicked"
  unfolding execute_batch_def by (intro no_panic_ebind no_panic_checked) (simp add: ask_def)

lemma no_panic_eeach: "(\<And>x log. fst (f x log) \<noteq> Inl Panicked) \<Longrightarrow> fst (eeach f xs log) \<noteq> Inl Panicked"
proof (induction xs arbitrary: log)
  case (Cons x xs)
  show ?case unfolding eeach.simps by (rule no_panic_ebind) (use Cons in auto)
qed (simp add: eret_def)

lemma no_panic_cdc_body: "fst (cdc_body env w table source columns key upserts deletes offsets log) \<noteq> Inl Panicked"
proof -
  have off: "fst (upsert_cdc_offset env source p off now log) \<noteq> Inl Panicked" for p off now log
    unfolding upsert_cdc_offset_def
    by (intro no_panic_ebind prepare_execute_no_panic) (simp add: eret_def)
  have "fst (ebind (peek (de_now env)) (upsert_cdc_offset env source p off) log) \<noteq> Inl Panicked" for p off log
    by (intro no_panic_ebind off) (simp add: peek_def)
  then show ?thesis
    unfolding cdc_body_def ensure_raw_def merge_upserts_def merge_deletes_def
    by (intro no_panic_ebind no_panic_checked no_panic_execute_batch esum_no_panic prepare_execute_no_panic no_panic_eeach)
       (auto simp: eret_def split: prod.split)
qed

lemma no_panic_transaction: "(\<And>log. fst (body log) \<noteq> Inl Panicked) \<Longrightarrow> fst (transaction env w body log) \<noteq> Inl Panicked"
  unfolding transaction_def
proof (intro no_panic_ebind no_panic_execute_batch)
  fix log assume "\<And>log. fst (body log) \<noteq> Inl Panicked"
  then have ok: "fst (body log) \<noteq> Inl Panicked" .
  have commit: "fst (ebind (execute_batch env ''COMMIT'') (\<lambda>_. ebind (bump_write w) (\<lambda>_. eret n)) log) \<noteq> Inl Panicked" for n :: nat and log
    by (intro no_panic_ebind no_panic_execute_batch) (simp_all add: bump_write_run eret_def)
  show "fst (case body log of
       (Inr n, log) \<Rightarrow> ebind (execute_batch env ''COMMIT'') (\<lambda>_. ebind (bump_write w) (\<lambda>_. eret n)) log
     | (Inl (Failed e), log) \<Rightarrow> (Inl (Failed e), snd (execute_batch env ''ROLLBACK'' log))
     | (Inl Panicked, log) \<Rightarrow> (Inl Panicked, log)) \<noteq> Inl Panicked"
    using ok commit by (cases "body log"; cases "fst (body log)") (auto split: failure.split)
qed

text \<open>The full traces of a batch's transaction body.\<close>

definition cdc_traces ::
  "writer \<Rightarrow> string \<Rightarrow> string \<Rightarrow> string list \<Rightarrow> string \<Rightarrow> table_row list \<Rightarrow> string list \<Rightarrow>
     (int \<times> int) list \<Rightarrow> db_event list set"
where
  "cdc_traces w sys ent columns key upserts deletes offsets =
     {cdc_data w (''raw_'' @ sys @ ''_'' @ ent) columns key key_idx upserts deletes @ offs |key_idx offs.
        key_index columns key = Inr key_idx \<and> offs \<in> seqs (offset_event (sys @ ''.'' @ ent)) offsets}"

lemma emits_cdc_traces:
  assumes "key_index columns key = Inr key_idx" "raw_table_name sys ent = Inr table"
  shows "emits (cdc_body env w table (sys @ ''.'' @ ent) columns key upserts deletes offsets)
     (cdc_traces w sys ent columns key upserts deletes offsets)"
  using assms
  by (intro emits_mono [OF emits_cdc_body [OF assms(1)]]) (auto simp: seq_def cdc_traces_def raw_table_name_Inr)

text \<open>C29: a CDC batch is atomic with its offsets. A batch that returns has sent one \<open>BEGIN\<close>, its data,
  one offset per partition and one \<open>COMMIT\<close>, and then advances the generation. A batch that fails has
  sent nothing, or a failed \<open>BEGIN\<close>, or a beginning of its statements closed by a \<open>ROLLBACK\<close>, or all of
  them and the \<open>COMMIT\<close> that failed; it never advances the generation and never panics.\<close>

theorem cdc_batch_atomic:
  "\<exists>evs. snd (apply_cdc_batch env w sys ent columns key upserts deletes offsets log) = log @ evs \<and>
    (let T = cdc_traces w sys ent columns key upserts deletes offsets in
     case fst (apply_cdc_batch env w sys ent columns key upserts deletes offsets log) of
       Inr n \<Rightarrow> evs \<in> {BEGIN_EV # t @ COMMIT_EV # generation w |t. t \<in> T}
     | Inl Panicked \<Rightarrow> False
     | Inl (Failed e) \<Rightarrow>
         evs \<in> {[], [BEGIN_EV]} \<union> {BEGIN_EV # d @ [ROLLBACK_EV] |d r. d @ r \<in> T} \<union> {BEGIN_EV # t @ [COMMIT_EV] |t. t \<in> T})"
proof (cases rule: apply_cdc_batch_cases [of env w sys ent columns key upserts deletes offsets log])
  case (rejected e)
  then show ?thesis by simp
next
  case (run table key_idx)
  let ?body = "cdc_body env w table (sys @ ''.'' @ ent) columns key upserts deletes offsets"
  let ?T = "cdc_traces w sys ent columns key upserts deletes offsets"
  have calm: "fst (transaction env w ?body log) \<noteq> Inl Panicked"
    by (intro no_panic_transaction no_panic_cdc_body)
  from transaction_events [of ?body _ env w log, OF emits_cdc_traces [OF run(2,3)]]
  obtain evs where evs: "snd (transaction env w ?body log) = log @ evs"
    "case fst (transaction env w ?body log) of Inr n \<Rightarrow> evs \<in> committed_events w ?T | Inl e \<Rightarrow> evs \<in> failed_events ?T e"
    by blast
  show ?thesis
  proof (cases "fst (transaction env w ?body log)")
    case (Inl f)
    with calm obtain e where e: "f = Failed e" by (cases f) auto
    from evs(2) have "evs \<in> failed_events ?T (Failed e)" unfolding Inl e by simp
    with evs(1) Inl e show ?thesis
      unfolding run(4) by (intro exI [of _ evs]) (auto simp: failed_events_def)
  next
    case (Inr n)
    from evs(2) have "evs \<in> committed_events w ?T" unfolding Inr by simp
    with evs(1) Inr show ?thesis
      unfolding run(4) by (intro exI [of _ evs]) (simp add: committed_events_def)
  qed
qed

lemma cdc_trace_run:
  assumes "documented exec (''raw_'' @ sys @ ''_'' @ ent) columns key" "key_index columns key = Inr key_idx"
    and "wide_rows columns upserts" "t \<in> cdc_traces w sys ent columns key upserts deletes offsets"
  shows "rows_at key (fold exec (BEGIN_EV # t @ COMMIT_EV # generation w) tbl) k =
     cdc_key columns (wr_tenant w) key_idx upserts deletes k (rows_at key tbl k)"
proof -
  from assms(2,4) obtain offs where t: "t = cdc_data w (''raw_'' @ sys @ ''_'' @ ent) columns key key_idx upserts deletes @ offs"
    "offs \<in> seqs (offset_event (sys @ ''.'' @ ent)) offsets"
    by (auto simp: cdc_traces_def)
  from assms(1) have keeps: "keeps_rows exec" by (simp add: documented_def)
  have "fold exec (BEGIN_EV # t @ COMMIT_EV # generation w) tbl =
      fold exec (cdc_data w (''raw_'' @ sys @ ''_'' @ ent) columns key key_idx upserts deletes) tbl"
    using offsets_run [OF keeps t(2)] keeps [unfolded keeps_rows_def] by (simp add: t(1) generation_def)
  then show ?thesis using cdc_data_run [OF assms(1,2)] assms(3) by (simp add: wide_rows_def)
qed

lemma cdc_batch_run:
  assumes "documented exec (''raw_'' @ sys @ ''_'' @ ent) columns key" "key_index columns key = Inr key_idx"
    and "wide_rows columns upserts"
    and "apply_cdc_batch env w sys ent columns key upserts deletes offsets log = (Inr n, log')"
  shows "rows_at key (fold exec (drop (length log) log') tbl) k =
     cdc_key columns (wr_tenant w) key_idx upserts deletes k (rows_at key tbl k)"
proof (cases rule: apply_cdc_batch_cases [of env w sys ent columns key upserts deletes offsets log])
  case (rejected e)
  with assms(4) show ?thesis by simp
next
  case (run table key_idx')
  let ?body = "cdc_body env w table (sys @ ''.'' @ ent) columns key upserts deletes offsets"
  from transaction_events [of ?body _ env w log, OF emits_cdc_traces [OF run(2,3)]] assms(4) run(4)
  obtain t where "t \<in> cdc_traces w sys ent columns key upserts deletes offsets"
    "log' = log @ BEGIN_EV # t @ COMMIT_EV # generation w"
    by (auto simp: committed_events_def)
  with cdc_trace_run [OF assms(1-3)] show ?thesis by simp
qed

subsection \<open>A sample batch\<close>

lemma sample_calls [simp]:
  "execute_batch sample_env sql log = (Inr (), log @ [Batch_stmt sql])"
  "prepare_execute sample_env sql ps log = (Inr 1, log @ prepared sql ps)"
  by (simp_all add: prepare_execute_def prepared_def execute_batch_def db_prepare_def db_execute_def ebind_def ask_def
      checked_def elift_def sample_env_def)

lemma sample_idents: "IDENT_RE ''user_id'' = True" "IDENT_RE ''crm'' = True" "IDENT_RE ''users'' = True"
  by code_simp+

lemma sample_transaction:
  "body (log @ [BEGIN_EV]) = (Inr n, log') \<Longrightarrow>
   transaction sample_env w body log = (Inr n, log' @ COMMIT_EV # generation w)"
  by (simp add: transaction_def ebind_def bump_write_run eret_def)

definition sample_batch :: "table_row list \<Rightarrow> string list \<Rightarrow> nat db" where
  "sample_batch upserts deletes =
     apply_cdc_batch sample_env sample_writer ''crm'' ''users'' [''user_id''] ''user_id'' upserts deletes [(0, 5)]"

lemma sample_loop: "\<exists>n log'. esum (\<lambda>c. prepare_execute sample_env (f c) (g c)) xs log = (Inr n, log')"
proof (induction xs arbitrary: log)
  case (Cons x xs)
  from Cons.IH [of "log @ prepared (f x) (g x)"] show ?case by (auto simp: ebind_def eret_def)
qed (simp add: eret_def)

lemma sample_merges:
  "\<exists>n log'. merge_upserts sample_env w table columns key rows log = (Inr n, log')"
  "\<exists>n log'. merge_deletes sample_env w table key keys log = (Inr n, log')"
  unfolding merge_upserts_def merge_deletes_def by (rule sample_loop)+

lemma sample_batch_ok: "\<exists>n log'. sample_batch upserts deletes log = (Inr n, log')"
proof -
  have idx: "key_index [''user_id''] ''user_id'' = Inr 0" by (simp add: key_index_def)
  have names: "raw_table_name ''crm'' ''users'' = Inr sample_table"
    by (simp add: raw_table_name_Inr sample_idents)
  have "\<exists>n log'. cdc_body sample_env sample_writer sample_table (''crm'' @ ''.'' @ ''users'') [''user_id''] ''user_id''
      upserts deletes [(0, 5)] log = (Inr n, log')" for log
  proof -
    obtain n1 log1 where 1: "merge_upserts sample_env sample_writer sample_table [''user_id''] ''user_id''
        (dedup_by_key upserts 0) ((log @ ensure_events sample_table [''user_id'']) @ [Batch_stmt create_offsets_sql]) = (Inr n1, log1)"
      using sample_merges(1) by blast
    obtain n2 log2 where 2: "merge_deletes sample_env sample_writer sample_table ''user_id'' deletes log1 = (Inr n2, log2)"
      using sample_merges(2) by blast
    from 1 2 show ?thesis
      by (simp add: cdc_body_def ensure_raw_def ensure_events_def ebind_def idx checked_def elift_def eret_def
          peek_def upsert_cdc_offset_def)
  qed
  then obtain n log1 where body: "cdc_body sample_env sample_writer sample_table (''crm'' @ ''.'' @ ''users'') [''user_id''] ''user_id''
      upserts deletes [(0, 5)] (log @ [BEGIN_EV]) = (Inr n, log1)" by blast
  have "transaction sample_env sample_writer (cdc_body sample_env sample_writer sample_table (''crm'' @ ''.'' @ ''users'')
      [''user_id''] ''user_id'' upserts deletes [(0, 5)]) log = (Inr n, log1 @ COMMIT_EV # generation sample_writer)"
    by (rule sample_transaction) (rule body)
  then show ?thesis
    unfolding sample_batch_def apply_cdc_batch_def ebind_checked ebind_try_each names
    by (simp add: sample_idents validate_ident_def)
qed

lemma sample_facts:
  "documented sample_engine (''raw_'' @ ''crm'' @ ''_'' @ ''users'') [''user_id''] ''user_id''"
  "key_index [''user_id''] ''user_id'' = Inr 0" "wide_rows [''user_id''] [[Some ''u1'']]"
  using sample_documented by (simp_all add: key_index_def wide_rows_def)

subsection \<open>What a batch does to its table\<close>

text \<open>C28: over an engine that runs its merges as documented, a committed CDC batch updates its table
  key by key: the rows of a key take the columns of the last upsert of that key, or that row is
  appended when there is none, and then, if the key is deleted, the tenant's rows of it go. The
  chunking and the deduplication leave no other trace.\<close>

theorem cdc_batch_updates_by_key:
  assumes "documented exec (''raw_'' @ sys @ ''_'' @ ent) columns key" "key_index columns key = Inr key_idx"
    and "wide_rows columns upserts"
    and "apply_cdc_batch env w sys ent columns key upserts deletes offsets log = (Inr n, log')"
  shows "rows_at key (fold exec (drop (length log) log') tbl) k =
     cdc_key columns (wr_tenant w) key_idx upserts deletes k (rows_at key tbl k)"
  by (rule cdc_batch_run [OF assms])

theorem cdc_batch_updates_by_key_witness:
  "\<exists>n log'. sample_batch [[Some ''u1'']] [] [] = (Inr n, log') \<and>
     rows_at ''user_id'' (fold sample_engine (drop (length ([] :: db_log)) log') []) ''u1'' =
       cdc_key [''user_id''] (wr_tenant sample_writer) 0 [[Some ''u1'']] [] ''u1'' (rows_at ''user_id'' [] ''u1'')"
proof -
  obtain n log' where run: "sample_batch [[Some ''u1'']] [] [] = (Inr n, log')" using sample_batch_ok by blast
  with cdc_batch_updates_by_key [OF sample_facts run [unfolded sample_batch_def]] show ?thesis by blast
qed

lemma put_found_twice:
  "put_found cols found (put_found cols found old) = put_found cols found old"
  by (cases found) (auto simp: put_found_def put_row_def overwrite_def fun_eq_iff)

lemma put_found_tenant:
  assumes "''tenant_id'' \<in> set cols" "found = Some s" "s ''tenant_id'' = Some tenant"
  shows "filter (\<lambda>t. t ''tenant_id'' \<noteq> Some tenant) (put_found cols found old) = []"
  using assms by (auto simp: put_found_def put_row_def overwrite_def filter_empty_conv)

lemma last_row_in: "last_row key_idx rows k = Some r \<Longrightarrow> r \<in> set rows"
  unfolding last_row_def using find_sat by fastforce

lemma cdc_key_twice:
  assumes "''tenant_id'' \<notin> set columns" "wide_rows columns upserts"
  shows "cdc_key columns tenant key_idx upserts deletes k (cdc_key columns tenant key_idx upserts deletes k old) =
     cdc_key columns tenant key_idx upserts deletes k old"
proof (cases "last_row key_idx upserts k")
  case None
  then show ?thesis by (simp add: cdc_key_def put_found_def)
next
  case (Some r)
  from last_row_in [OF Some] assms have "stored_row columns tenant r ''tenant_id'' = Some tenant"
    by (intro stored_row_tenant) (auto simp: wide_rows_def list_all_iff)
  then have gone: "filter (\<lambda>t. t ''tenant_id'' \<noteq> Some tenant)
      (put_found (all_columns columns) (Some (stored_row columns tenant r)) old) = []" for old
    by (intro put_found_tenant [where s = "stored_row columns tenant r"]) (simp_all add: all_columns_def)
  show ?thesis
    by (cases "k \<in> set deletes") (simp_all add: cdc_key_def Some Let_def gone put_found_twice)
qed

text \<open>C30: applying a CDC batch a second time, as a source that delivers at least once does after a
  restart, leaves every key of the table as the first application left it.\<close>

theorem cdc_replay_idempotent:
  assumes "documented exec (''raw_'' @ sys @ ''_'' @ ent) columns key" "key_index columns key = Inr key_idx"
    and "wide_rows columns upserts" "''tenant_id'' \<notin> set columns"
    and "apply_cdc_batch env w sys ent columns key upserts deletes offsets log = (Inr n, log1)"
    and "apply_cdc_batch env' w sys ent columns key upserts deletes offsets log1 = (Inr m, log2)"
  shows "rows_at key (fold exec (drop (length log1) log2) (fold exec (drop (length log) log1) tbl)) k =
     rows_at key (fold exec (drop (length log) log1) tbl) k"
  by (simp only: cdc_batch_run [OF assms(1-3,5)] cdc_batch_run [OF assms(1-3,6)] cdc_key_twice [OF assms(4,3)])

theorem cdc_replay_idempotent_witness:
  "\<exists>n m log1 log2. sample_batch [[Some ''u1'']] [''u2''] [] = (Inr n, log1) \<and>
     sample_batch [[Some ''u1'']] [''u2''] log1 = (Inr m, log2) \<and>
     rows_at ''user_id'' (fold sample_engine (drop (length log1) log2)
        (fold sample_engine (drop (length ([] :: db_log)) log1) [])) ''u1'' =
     rows_at ''user_id'' (fold sample_engine (drop (length ([] :: db_log)) log1) []) ''u1''"
proof -
  obtain n log1 where run1: "sample_batch [[Some ''u1'']] [''u2''] [] = (Inr n, log1)" using sample_batch_ok by blast
  obtain m log2 where run2: "sample_batch [[Some ''u1'']] [''u2''] log1 = (Inr m, log2)" using sample_batch_ok by blast
  have "''tenant_id'' \<notin> set [''user_id'']" by simp
  from cdc_replay_idempotent [OF sample_facts this run1 [unfolded sample_batch_def] run2 [unfolded sample_batch_def]] run1 run2
  show ?thesis by blast
qed

text \<open>the upsert of a CDC batch is matched by key alone. Whatever rows the key has, another
  tenant's included, they end up as the batch's row, stamped with the writer's tenant.\<close>

theorem cdc_upsert_takes_over:
  assumes "documented exec (''raw_'' @ sys @ ''_'' @ ent) columns key" "key_index columns key = Inr key_idx"
    and "wide_rows columns upserts" "''tenant_id'' \<notin> set columns"
    and "apply_cdc_batch env w sys ent columns key upserts deletes offsets log = (Inr n, log')"
    and "k \<in> Some -` row_key key_idx ` set upserts" "k \<notin> set deletes"
    and "t \<in> set (rows_at key (fold exec (drop (length log) log') tbl) k)"
  shows "t ''tenant_id'' = Some (wr_tenant w)"
proof -
  have "last_row key_idx upserts k \<noteq> None"
    using assms(6) by (auto simp: last_row_def find_None_iff)
  then obtain r where r: "last_row key_idx upserts k = Some r" by blast
  from last_row_in [OF r] assms(3,4) have "stored_row columns (wr_tenant w) r ''tenant_id'' = Some (wr_tenant w)"
    by (intro stored_row_tenant) (auto simp: wide_rows_def list_all_iff)
  from put_found_tenant [where s = "stored_row columns (wr_tenant w) r", OF _ refl this, of "all_columns columns"] assms(7,8) show ?thesis
    by (auto simp: cdc_batch_run [OF assms(1-3,5)] cdc_key_def r all_columns_def filter_empty_conv)
qed

theorem cdc_upsert_takes_over_witness:
  "\<exists>n log'. sample_batch [[Some ''u1'']] [] [] = (Inr n, log') \<and>
     (let t0 = (\<lambda>c. if c = ''user_id'' then Some ''u1'' else if c = ''tenant_id'' then Some ''globex'' else None);
          after = rows_at ''user_id'' (fold sample_engine (drop (length ([] :: db_log)) log') [t0]) ''u1''
      in after \<noteq> [] \<and> hd after ''tenant_id'' = Some ''acme'')"
proof -
  obtain n log' where run: "sample_batch [[Some ''u1'']] [] [] = (Inr n, log')" using sample_batch_ok by blast
  let ?t0 = "\<lambda>c. if c = ''user_id'' then Some ''u1'' else if c = ''tenant_id'' then Some ''globex'' else None"
  let ?after = "rows_at ''user_id'' (fold sample_engine (drop (length ([] :: db_log)) log') [?t0]) ''u1''"
  have cols: "''tenant_id'' \<notin> set [''user_id'']" by simp
  have key: "''u1'' \<in> Some -` row_key 0 ` set [[Some ''u1'']]" "''u1'' \<notin> set ([] :: string list)"
    by (simp_all add: row_key_def)
  have "?after = cdc_key [''user_id''] (wr_tenant sample_writer) 0 [[Some ''u1'']] [] ''u1'' (rows_at ''user_id'' [?t0] ''u1'')"
    by (rule cdc_batch_run [OF sample_facts run [unfolded sample_batch_def]])
  then have ne: "?after \<noteq> []" by (simp add: cdc_key_def put_found_def put_row_def rows_at_def split: option.split)
  then have "hd ?after \<in> set ?after" by (rule hd_in_set)
  from cdc_upsert_takes_over [OF sample_facts cols run [unfolded sample_batch_def] key this]
  have "hd ?after ''tenant_id'' = Some ''acme''" by (simp add: sample_writer_def)
  with ne run show ?thesis unfolding Let_def by blast
qed

text \<open>a key that a CDC batch both deletes and upserts is gone after the batch, whichever of the two
  the source sent last: the batch applies its upserts before its deletes.\<close>

theorem cdc_delete_wins:
  assumes "documented exec (''raw_'' @ sys @ ''_'' @ ent) columns key" "key_index columns key = Inr key_idx"
    and "wide_rows columns upserts" "''tenant_id'' \<notin> set columns"
    and "apply_cdc_batch env w sys ent columns key upserts deletes offsets log = (Inr n, log')"
    and "k \<in> Some -` row_key key_idx ` set upserts" "k \<in> set deletes"
  shows "rows_at key (fold exec (drop (length log) log') tbl) k = []"
proof -
  have "last_row key_idx upserts k \<noteq> None"
    using assms(6) by (auto simp: last_row_def find_None_iff)
  then obtain r where r: "last_row key_idx upserts k = Some r" by blast
  from last_row_in [OF r] assms(3,4) have "stored_row columns (wr_tenant w) r ''tenant_id'' = Some (wr_tenant w)"
    by (intro stored_row_tenant) (auto simp: wide_rows_def list_all_iff)
  from put_found_tenant [where s = "stored_row columns (wr_tenant w) r", OF _ refl this, of "all_columns columns"] assms(7) show ?thesis
    by (simp add: cdc_batch_run [OF assms(1-3,5)] cdc_key_def r all_columns_def)
qed

theorem cdc_delete_wins_witness:
  "\<exists>n log'. sample_batch [[Some ''u1'']] [''u1''] [] = (Inr n, log') \<and>
     rows_at ''user_id'' (fold sample_engine (drop (length ([] :: db_log)) log') []) ''u1'' = []"
proof -
  obtain n log' where run: "sample_batch [[Some ''u1'']] [''u1''] [] = (Inr n, log')" using sample_batch_ok by blast
  have cols: "''tenant_id'' \<notin> set [''user_id'']" by simp
  have key: "''u1'' \<in> Some -` row_key 0 ` set [[Some ''u1'']]" "''u1'' \<in> set [''u1'']"
    by (simp_all add: row_key_def)
  from cdc_delete_wins [OF sample_facts cols run [unfolded sample_batch_def] key] run show ?thesis by blast
qed

subsection \<open>Every statement\<close>



subsection \<open>Quoting\<close>

text \<open>Reading a SQL string literal: a doubled quote is a quote, a single one ends it.\<close>

fun read_literal :: "string \<Rightarrow> (string \<times> string) option" where
  "read_literal [] = None"
| "read_literal (c # s) =
     (if c \<noteq> CHR 0x27 then map_option (apfst ((#) c)) (read_literal s)
      else case s of
        [] \<Rightarrow> Some ([], [])
      | d # s' \<Rightarrow> if d = CHR 0x27 then map_option (apfst ((#) c)) (read_literal s') else Some ([], s))"

text \<open>a path quoted into an \<open>ATTACH\<close> or a \<open>COPY\<close> is read back by SQL as that path, and the text
  after it as the rest: no path closes its literal.\<close>

theorem escaped_literal_reads_back:
  assumes "rest = [] \<or> hd rest \<noteq> CHR 0x27"
  shows "read_literal (escape_for_sql_literal s @ CHR 0x27 # rest) = Some (s, rest)"
proof (induction s)
  case Nil
  from assms show ?case by (cases rest) (auto simp: escape_for_sql_literal_def)
next
  case (Cons c s)
  then show ?case by (cases "c = CHR 0x27") (simp_all add: escape_for_sql_literal_def)
qed

theorem escaped_literal_reads_back_witness:
  "read_literal (escape_for_sql_literal [CHR ''a'', CHR 0x27, CHR '';''] @ CHR 0x27 # '' AS dl'') =
     Some ([CHR ''a'', CHR 0x27, CHR '';''], '' AS dl'')"
  by (rule escaped_literal_reads_back) simp

end
