(* ===== verification/Ingestion_Pipeline.thy ===== *)
theory Ingestion_Pipeline
  imports Ingestion_Writer_Spec Storage_Spec
begin

text \<open>
  The writer thread over its storage: the calls of \<open>Ingestion_Writer\<close> performed on the connection by
  the operations of \<open>Storage_Raw\<close> and \<open>Storage_Tables\<close>. The state of the connection is the log of what
  was asked of it; the thread's view of the storage, a function of the calls made so far, is computed
  from it instead of being left open. What holds of a single call then holds of a whole run: every
  statement belongs to a call, carries the tenant of the command behind it, and no call panics.
\<close>

subsection \<open>Performing the calls\<close>

text \<open>The maintenance procedures remember that they are available in a cell of the writer: \<open>maintain\<close>
  returns it, and fails only after the probe has set it.\<close>

definition probed :: "writer \<Rightarrow> (failure, writer) result \<Rightarrow> writer" where
  "probed w r = (case r of Inr w' \<Rightarrow> w' | Inl e \<Rightarrow> w\<lparr>wr_maintenance := True\<rparr>)"

fun writer_after :: "db_env \<Rightarrow> writer \<Rightarrow> store_call \<Rightarrow> db_log \<Rightarrow> writer" where
  "writer_after env w (Expire_call days) db = probed w (fst (expire_snapshots env w days db))"
| "writer_after env w (Orphans_call days) db = probed w (fst (delete_orphaned_files env w days db))"
| "writer_after env w c db = w"

text \<open>One call, stamped with its tenant: its result, and the writer and the connection it leaves.\<close>

definition perform_call ::
  "db_env \<Rightarrow> string \<times> store_call \<Rightarrow> writer \<times> db_log \<Rightarrow> (failure, nat) result \<times> writer \<times> db_log"
where
  "perform_call env tc wd =
     (let (t, c) = tc; w = with_tenant t (fst wd); (r, db) = perform env w c (snd wd)
      in (r, writer_after env w c (snd wd), db))"

fun perform_calls :: "db_env \<Rightarrow> store_log \<Rightarrow> writer \<times> db_log \<Rightarrow> writer \<times> db_log" where
  "perform_calls env [] wd = wd"
| "perform_calls env (tc # calls) wd = perform_calls env calls (snd (perform_call env tc wd))"

text \<open>Each call with its result and what it asked of the connection.\<close>

fun segments ::
  "db_env \<Rightarrow> store_log \<Rightarrow> writer \<times> db_log \<Rightarrow> ((string \<times> store_call) \<times> (failure, nat) result \<times> db_log) list"
where
  "segments env [] wd = []"
| "segments env (tc # calls) wd =
     (let (r, wd') = perform_call env tc wd
      in (tc, r, drop (length (snd wd)) (snd wd')) # segments env calls wd')"

text \<open>What the thread sees: the answer of the last call, given all of them. A panic would end the thread
  instead of answering; \<open>pipeline_statements_bind\<close> shows that none happens.\<close>

definition last_result :: "db_env \<Rightarrow> writer \<Rightarrow> store_log \<Rightarrow> (failure, nat) result" where
  "last_result env w calls = fst (perform_call env (last calls) (perform_calls env (butlast calls) (w, [])))"

definition answered :: "(failure, nat) result \<Rightarrow> (core_error, nat) result" where
  "answered r = (case r of Inr n \<Rightarrow> Inr n | Inl (Failed e) \<Rightarrow> Inl e | Inl Panicked \<Rightarrow> Inl (Ingestion (Msg ''panicked'' [])))"

definition offsets_answer :: "db_env \<Rightarrow> writer \<Rightarrow> store_log \<Rightarrow> (core_error, (int \<times> int) list) result" where
  "offsets_answer env w calls =
     (case snd (last calls) of
        Offsets_call source \<Rightarrow>
          (case fst (read_cdc_offsets env source (snd (perform_calls env (butlast calls) (w, [])))) of
             Inl (Failed e) \<Rightarrow> Inl e
           | Inl Panicked \<Rightarrow> Inl (Ingestion (Msg ''panicked'' []))
           | Inr pairs \<Rightarrow> Inr pairs)
      | _ \<Rightarrow> Inr [])"

definition storage_env ::
  "db_env \<Rightarrow> writer \<Rightarrow> ((string \<times> string) set \<Rightarrow> (string \<times> string) list) \<Rightarrow> store_env"
where
  "storage_env env w order =
     \<lparr>se_count = (\<lambda>calls. answered (last_result env w calls)), se_offsets = offsets_answer env w, se_order = order\<rparr>"

lemma perform_calls_snoc: "perform_calls env (calls @ [tc]) wd = snd (perform_call env tc (perform_calls env calls wd))"
  by (induction calls arbitrary: wd) simp_all

lemma last_result_snoc [simp]:
  "last_result env w (calls @ [tc]) = fst (perform_call env tc (perform_calls env calls (w, [])))"
  by (simp add: last_result_def)

lemma wr_tenant_after [simp]: "wr_tenant (writer_after env w c db) = wr_tenant w"
  by (cases c) (auto simp: probed_def expire_snapshots_def delete_orphaned_files_def maintain_def probe_maintenance_def
      ebind_def eret_def split: sum.splits prod.splits if_splits)

subsection \<open>No call panics\<close>

text \<open>The one operation that can panic is a chunked insert of rows wider than the parameters of a
  statement; \<open>sound_rows\<close> excludes it.\<close>

definition calm :: "'a db \<Rightarrow> bool" where
  "calm m \<longleftrightarrow> (\<forall>log. fst (m log) \<noteq> Inl Panicked)"

named_theorems calm_intros \<open>operations that do not panic\<close>

lemma calm_ebind [calm_intros]: "calm m \<Longrightarrow> (\<And>x. calm (f x)) \<Longrightarrow> calm (ebind m f)"
  by (simp add: calm_def no_panic_ebind)

lemma calm_basic [calm_intros]:
  "calm (eret x)" "calm (checked r)" "calm (execute_batch env sql)" "calm (try_each g xs)" "calm (ask ev answer)"
  "calm (peek h)" "calm (prepare_execute env sql ps)"
  by (simp_all add: calm_def eret_def no_panic_checked no_panic_execute_batch try_each_def ask_def peek_def
      prepare_execute_no_panic)

lemma calm_db [calm_intros]: "calm (db_prepare env sql)" "calm (db_execute env sql ps)" "calm (db_query f sql ps)"
  unfolding db_prepare_def db_execute_def db_query_def by (intro calm_intros)+

lemma calm_bump_write [calm_intros]: "calm (bump_write w)"
  by (simp add: bump_write_def calm_intros)

lemma calm_esum [calm_intros]: "(\<And>x. calm (f x)) \<Longrightarrow> calm (esum f xs)"
  by (simp add: calm_def esum_no_panic)

lemma calm_eeach [calm_intros]: "(\<And>x. calm (f x)) \<Longrightarrow> calm (eeach f xs)"
  by (simp add: calm_def no_panic_eeach)

lemma calm_if [calm_intros]: "(b \<Longrightarrow> calm m) \<Longrightarrow> (\<not> b \<Longrightarrow> calm n) \<Longrightarrow> calm (if b then m else n)"
  by simp

lemma calm_transaction [calm_intros]: "calm body \<Longrightarrow> calm (transaction env w body)"
  by (simp add: calm_def no_panic_transaction)

lemma calm_insert_chunked [calm_intros]: "cols \<le> MAX_PARAMS \<Longrightarrow> calm (insert_chunked env insert_prefix cols rows bind)"
  by (simp add: calm_def insert_panics_iff)

text \<open>What the callers of the writer owe: rows as wide as their columns and within the limit, and a
  statement with its parameters.\<close>

definition sound_rows :: "string list \<Rightarrow> cell_row list \<Rightarrow> bool" where
  "sound_rows columns rows \<longleftrightarrow> length columns < MAX_PARAMS \<and> wide_rows columns rows"

fun sound_call :: "store_call \<Rightarrow> bool" where
  "sound_call (Ingest_call sys ent columns rows) \<longleftrightarrow> sound_rows columns rows"
| "sound_call c \<longleftrightarrow> wf_call c"

lemma sound_call_wf: "sound_call c \<Longrightarrow> wf_call c"
  by (cases c) (simp_all add: sound_rows_def)

lemma calm_features: "calm (write_features_and_refresh env w rows)"
proof -
  have "calm (refresh_feature_wide_view env family shorts)" "calm (feature_short_names env family)" for family shorts
    unfolding refresh_feature_wide_view_def feature_short_names_def ensure_feature_store_table_def ensure_table_def
    by (intro calm_intros)+
  then show ?thesis
    unfolding write_features_and_refresh_def features_body_def write_feature_rows_def ensure_feature_store_table_def
      ensure_table_def
    by (intro calm_intros) (auto intro!: calm_intros simp: MAX_PARAMS_def split: prod.split)
qed

lemma calm_catalog: "calm (write_catalog_rows env w rows)"
  unfolding write_catalog_rows_def ensure_semantic_catalog_table_def ensure_table_def Let_def
  by (cases rows) (simp, intro calm_intros, simp only: list.case, intro calm_intros)

lemma calm_maintain: "calm (maintain env w sql)"
proof -
  have "calm (probe_maintenance env w)"
    by (auto simp: calm_def probe_maintenance_def eret_def split: prod.split)
  then show ?thesis unfolding maintain_def by (intro calm_intros)
qed

lemma calm_upsert: "calm (upsert_raw env w sys ent columns key rows)"
  unfolding upsert_raw_def ensure_raw_def merge_upserts_def by (intro calm_intros)

lemma calm_delete: "calm (delete_raw env w sys ent key keys)"
  unfolding delete_raw_def merge_deletes_def by (intro calm_intros)

lemma calm_cdc: "calm (apply_cdc_batch env w sys ent columns key upserts deletes offsets)"
  unfolding apply_cdc_batch_def
  by (intro calm_intros) (simp add: calm_def no_panic_cdc_body)

lemma calm_perform: "sound_call c \<Longrightarrow> calm (perform env w c)"
proof (cases c)
  case (Ingest_call sys ent columns rows)
  moreover assume "sound_call c"
  ultimately show ?thesis
    by (simp add: writer_ingest_raw_def ensure_raw_def sound_rows_def calm_intros)
next
  case (Features_call rows)
  then show ?thesis by (simp add: calm_features)
next
  case (Catalog_call rows)
  then show ?thesis by (simp add: calm_catalog)
next
  case (Suppression_call rows)
  then show ?thesis
    by (simp add: write_suppression_idempotent_def ensure_suppression_table_def ensure_table_def calm_intros)
qed (simp_all add: no_count_def compact_def expire_snapshots_def delete_orphaned_files_def materialize_snapshot_def
    ensure_audience_snapshot_table_def ensure_table_def export_snapshot_parquet_def read_cdc_offsets_def
    calm_upsert calm_delete calm_cdc calm_maintain calm_intros)

subsection \<open>Segments\<close>

lemma perform_log: "sound_call c \<Longrightarrow> \<exists>evs. snd (perform env w c db) = db @ evs \<and> list_all (bound (wr_tenant w)) evs"
  using perform_bound [OF sound_call_wf] unfolding ensures_def by blast

lemma perform_call_log:
  assumes "sound_call c"
  shows "\<exists>evs. snd (snd (perform_call env (t, c) wd)) = snd wd @ evs \<and> list_all (bound t) evs"
  using perform_log [OF assms, of env "with_tenant t (fst wd)" "snd wd"]
  by (simp add: perform_call_def case_prod_unfold Let_def with_tenant_def)

text \<open>A stamped call: by a known tenant, and sound.\<close>

definition sound_entry :: "string set \<Rightarrow> string \<times> store_call \<Rightarrow> bool" where
  "sound_entry T tc \<longleftrightarrow> fst tc \<in> T \<and> sound_call (snd tc)"

fun sound_segment :: "string set \<Rightarrow> (string \<times> store_call) \<times> (failure, nat) result \<times> db_log \<Rightarrow> bool" where
  "sound_segment T (tc, r, evs) \<longleftrightarrow> sound_entry T tc \<and> list_all (bound (fst tc)) evs \<and> r \<noteq> Inl Panicked"

lemma segments_sound:
  assumes "list_all (sound_entry T) calls"
  shows "list_all (sound_segment T) (segments env calls wd)"
    and "snd (perform_calls env calls wd) = snd wd @ concat (map (snd \<circ> snd) (segments env calls wd))"
    and "map fst (segments env calls wd) = calls"
  using assms
proof (induction calls arbitrary: wd)
  case (Cons tc calls)
  obtain t c where tc: "tc = (t, c)" by (cases tc)
  { case 1
    with perform_call_log [of c env t wd] calm_perform [of c env] Cons.IH(1) show ?case
      by (auto simp: tc sound_entry_def perform_call_def case_prod_unfold Let_def calm_def)
  next
    case 2
    with perform_call_log [of c env t wd] Cons.IH(2) show ?case
      by (auto simp: tc sound_entry_def case_prod_unfold Let_def)
  next
    case 3
    with Cons.IH(3) show ?case by (simp add: case_prod_unfold Let_def)
  }
qed simp_all

subsection \<open>What the thread makes\<close>

fun sound_command :: "command \<Rightarrow> bool" where
  "sound_command (IngestRaw sys ent columns rows t) \<longleftrightarrow> sound_rows columns rows"
| "sound_command (UpsertRaw sys ent columns key rows t) \<longleftrightarrow> wide_rows columns rows"
| "sound_command (Materialize sql params key spec t) \<longleftrightarrow> qmarks sql = length params"
| "sound_command (ExportParquet snapshot_id dest) \<longleftrightarrow> qmarks dest = 0"
| "sound_command (ApplyCdcBatch b t) \<longleftrightarrow> wide_rows (sb_columns b) (sb_upserts b)"
| "sound_command c \<longleftrightarrow> True"

definition good_command :: "string set \<Rightarrow> command \<Rightarrow> bool" where
  "good_command T c \<longleftrightarrow> sound_command c \<and> set_option (command_tenant c) \<subseteq> T"

definition sound_batch :: "string set \<Rightarrow> pending_batch \<Rightarrow> bool" where
  "sound_batch T b \<longleftrightarrow> pb_tenant b \<in> T \<and> sound_rows (pb_columns b) (pb_rows b)"

definition sound_state :: "string set \<Rightarrow> writer_state \<Rightarrow> bool" where
  "sound_state T s \<longleftrightarrow> bt_inv (ws_pending s) \<and> ws_tenant s \<in> T \<and>
     (\<forall>k b. bt_get (ws_pending s) k = Some b \<longrightarrow> sound_batch T b) \<and> list_all (sound_entry T) (ws_log s)"

lemma sound_stateD:
  assumes "sound_state T s"
  shows "bt_inv (ws_pending s)" "ws_tenant s \<in> T" "bt_get (ws_pending s) k = Some b \<Longrightarrow> sound_batch T b"
    "list_all (sound_entry T) (ws_log s)"
  using assms by (simp_all add: sound_state_def del: split_paired_All)

lemma sound_set_tenant: "sound_state T s \<Longrightarrow> t \<in> T \<Longrightarrow> sound_state T (set_tenant t s)"
  by (simp add: sound_state_def)

lemma sound_store: "sound_state T s \<Longrightarrow> sound_call c \<Longrightarrow> sound_state T (snd (store env c s))"
  by (simp add: sound_state_def sound_entry_def)

lemma sound_store_known: "sound_state T s \<Longrightarrow> sound_call c \<Longrightarrow> sound_state T (snd (store_known env sys ent c s))"
  by (simp add: sound_state_def sound_entry_def)

lemma sound_pending:
  "sound_state T s \<Longrightarrow> bt_inv p \<Longrightarrow> (\<And>k b. bt_get p k = Some b \<Longrightarrow> sound_batch T b) \<Longrightarrow> sound_state T (s\<lparr>ws_pending := p\<rparr>)"
  by (simp add: sound_state_def)

lemma sound_remove: "sound_state T s \<Longrightarrow> sound_state T (s\<lparr>ws_pending := bt_remove k (ws_pending s)\<rparr>)"
  by (rule sound_pending) (auto simp: sound_state_def bt.inv_remove bt.lookup_remove split: if_splits)

lemma sound_flush_batch: "sound_state T s \<Longrightarrow> sound_batch T b \<Longrightarrow> sound_state T (snd (flush_batch env k b s))"
  by (cases k) (simp add: flush_batch_def Let_def sound_batch_def sound_store_known sound_set_tenant)

lemma sound_flush_key: "sound_state T s \<Longrightarrow> sound_state T (flush_key env k s)"
  using sound_stateD(3) [of T s k]
  by (auto simp: flush_key_def intro: sound_flush_batch sound_remove split: option.split)

lemma sound_flush_some: "sound_state T s \<Longrightarrow> sound_state T (flush_some env P s)"
proof -
  have "sound_state T s \<Longrightarrow> sound_state T (fold (flush_key env) ks s)" for ks
    by (induction ks arbitrary: s) (simp_all add: sound_flush_key)
  then show "sound_state T s \<Longrightarrow> sound_state T (flush_some env P s)" by (simp add: flush_some_def)
qed

lemma sound_last_error:
  assumes "sound_state T (snd ls)" "sound_call c"
  shows "sound_state T (snd (last_error env c ls))"
proof -
  have "snd (last_error env c ls) = snd (store env c (snd ls))"
    by (simp add: last_error_def store_def Let_def split: sum.split)
  with sound_store [OF assms] show ?thesis by simp
qed

lemma sound_compact: "sound_state T s \<Longrightarrow> sound_state T (snd (compact_all env days s))"
proof -
  have f: "sound_state T (snd (fold (\<lambda>(sys, ent). last_error env (Compact_call sys ent)) ts ls))"
    if "sound_state T (snd ls)" for ts ls
    using that
  proof (induction ts arbitrary: ls)
    case (Cons t ts)
    obtain sys ent where t: "t = (sys, ent)" by (cases t)
    have "sound_state T (snd (last_error env (Compact_call sys ent) ls))"
      by (rule sound_last_error [OF Cons.prems]) simp
    from Cons.IH [OF this] show ?case by (simp add: t)
  qed simp
  assume "sound_state T s"
  then have "sound_state T (flush_pending env s)"
    by (simp add: flush_pending_def sound_flush_some)
  then show ?thesis
    unfolding compact_all_def Let_def by (intro sound_last_error f) simp_all
qed

lemma sound_rows_append: "sound_rows columns rows \<Longrightarrow> sound_rows columns rows' \<Longrightarrow> sound_rows columns (rows @ rows')"
  by (simp add: sound_rows_def wide_rows_def)

lemma sound_ingest:
  assumes "sound_state T s" "sound_rows columns rows" "tenant \<in> T"
  shows "sound_state T (snd (ingest_raw env cfg stamp sys ent columns rows tenant s))"
proof -
  let ?key = "(tenant, sys, ent)"
  let ?s = "schema_flush env ?key columns (set_tenant tenant s)"
  let ?b = "buffer_rows ?key tenant columns rows stamp ?s"
  have start: "sound_state T (set_tenant tenant s)" by (rule sound_set_tenant [OF assms(1,3)])
  then have flushed: "sound_state T ?s"
    by (auto simp: schema_flush_def sound_flush_key split: option.split)
  have same: "pb_columns b = columns" if "bt_get (ws_pending ?s) ?key = Some b" for b
    using that flush_key_pending [OF sound_stateD(1) [OF start], of env ?key ?key]
    by (auto simp: schema_flush_def split: option.splits if_splits)
  have b: "sound_batch T ?b"
    using assms(2,3) sound_stateD(3) [OF flushed, of ?key] same
    by (auto simp: buffer_rows_def Let_def sound_batch_def sound_rows_append split: option.split)
  have "sound_state T (?s\<lparr>ws_pending := bt_insert ?key ?b (ws_pending ?s)\<rparr>)"
    using sound_stateD [OF flushed] b
    by (intro sound_pending [OF flushed]) (auto simp: bt.inv_insert bt.lookup_insert split: if_splits)
  moreover from sound_flush_batch [OF sound_remove [OF this, of ?key] b]
  have "sound_state T (snd (flush_batch env ?key ?b (?s\<lparr>ws_pending := bt_remove ?key (bt_insert ?key ?b (ws_pending ?s))\<rparr>)))"
    by simp
  moreover have "sound_state T (snd (store_known env sys ent (Ingest_call sys ent columns rows) (set_tenant tenant s)))"
    by (rule sound_store_known [OF start]) (simp add: assms(2))
  ultimately show ?thesis by (simp add: ingest_raw_def Let_def)
qed

lemma sound_handle:
  assumes "sound_state T s" "good_command T cmd"
  shows "sound_state T (snd (handle_command env cfg stamp cmd s))"
proof (cases cmd)
  case (IngestRaw sys ent columns rows tenant)
  with assms show ?thesis by (simp add: good_command_def sound_ingest)
next
  case (ReadCdcOffset source)
  with assms show ?thesis by (simp add: Let_def sound_state_def sound_entry_def)
qed (use assms in \<open>simp_all add: good_command_def sound_store sound_store_known sound_set_tenant sound_compact
    flush_pending_def sound_flush_some\<close>)

interpretation sound: served_invariant "sound_state T" "good_command T" env cfg
  by unfold_locales (rule sound_flush_some sound_handle; assumption)+

lemma sound_start: "t \<in> T \<Longrightarrow> sound_state T (writer_start t)"
  by (simp add: sound_state_def writer_start_def bt.inv_empty bt.lookup_empty)

text \<open>The tenants a run can stamp: the one the writer starts with and those of the commands.\<close>

definition tenants_of :: "command list \<Rightarrow> string \<Rightarrow> string set" where
  "tenants_of cmds t = insert t (\<Union>c \<in> set cmds. set_option (command_tenant c))"

lemma run_sound:
  assumes "list_all sound_command (served ws)"
  shows "sound_state (tenants_of (served ws) t) (run_writer env cfg ws t)"
proof (rule sound.inv_served [OF sound_start])
  show "list_all (good_command (tenants_of (served ws) t)) (served ws)"
    using assms by (auto simp: list_all_iff good_command_def tenants_of_def)
qed (simp add: tenants_of_def)

subsection \<open>The statements of a run\<close>

text \<open>Whatever the storage answers, the statements a run of the writer thread sends are those of its
  calls, one after the other; the statements of a call have a parameter per placeholder and carry its
  stamp, bookkeeping apart; the stamp is the tenant of one of the commands served, or the one the
  thread started with; and no call panics.\<close>

theorem pipeline_statements_bind:
  assumes "list_all sound_command (served ws)"
  shows "let calls = ws_log (run_writer (storage_env dbe w order) cfg ws t); segs = segments dbe calls (w, [])
    in map fst segs = calls \<and> snd (perform_calls dbe calls (w, [])) = concat (map (snd \<circ> snd) segs) \<and>
       list_all (\<lambda>((t', c), r, evs). t' \<in> tenants_of (served ws) t \<and> list_all (bound t') evs \<and> r \<noteq> Inl Panicked) segs"
proof -
  let ?calls = "ws_log (run_writer (storage_env dbe w order) cfg ws t)"
  have "list_all (sound_entry (tenants_of (served ws) t)) ?calls"
    using run_sound [OF assms] by (rule sound_stateD(4))
  from segments_sound [OF this, of dbe "(w, [])"] show ?thesis
    unfolding Let_def by (auto simp: list_all_iff sound_entry_def)
qed

text \<open>The values a statement is executed with, and those the inserts of a (tenant, system, entity) are.\<close>

fun executed_params :: "db_event \<Rightarrow> dval list" where
  "executed_params (Execute_stmt sql ps) = ps"
| "executed_params ev = []"

fun inserted :: "batch_key \<Rightarrow> (string \<times> store_call) \<times> (failure, nat) result \<times> db_log \<Rightarrow> dval list" where
  "inserted k ((t, Ingest_call sys ent columns rows), r, evs) =
     (if k = (t, sys, ent) then concat (map executed_params evs) else [])"
| "inserted k ((t, c), r, evs) = []"

lemma executed_insert_events:
  "concat (map executed_params (concat (map (insert_event insert_prefix cols bind) css))) = concat (map bind (concat css))"
  by (induction css) (simp_all add: insert_event_def prepared_def)

lemma checked_Inr_iff: "checked r log = (Inr x, log') \<longleftrightarrow> r = Inr x \<and> log' = log"
  by (cases r) (auto simp: checked_def elift_def)

lemma ingest_executes:
  assumes run: "writer_ingest_raw env w sys ent columns rows db = (Inr n, db')" and "sound_rows columns rows"
  shows "concat (map executed_params (drop (length db) db')) = concat (map (bind_row (wr_tenant w)) rows)"
proof -
  from run obtain table u db1 where ensure: "ensure_raw env table columns db = (Inr u, db1)"
    and rest: "(if rows = [] then eret 0 else
       ebind (insert_chunked env (insert_raw_prefix table columns) (length columns + 1) rows (bind_row (wr_tenant w))) (\<lambda>n.
       ebind (bump_write w) (\<lambda>_. eret n))) db1 = (Inr n, db')"
    by (auto simp: writer_ingest_raw_def ebind_Inr_iff checked_Inr_iff try_each_def)
  from emits_ok [OF emits_ensure_raw ensure] have db1: "db1 = db @ ensure_events table columns" by simp
  show ?thesis
  proof (cases "rows = []")
    case True
    with rest have "db' = db1" by (simp add: eret_def)
    with True show ?thesis by (simp add: db1 ensure_events_def)
  next
    case False
    with rest obtain m db2 where "insert_chunked env (insert_raw_prefix table columns) (length columns + 1) rows
        (bind_row (wr_tenant w)) db1 = (Inr m, db2)" and db': "db' = db2 @ generation w"
      by (auto simp: ebind_Inr_iff bump_write_run eret_def)
    from emits_ok [OF emits_insert_chunked this(1)]
    have db2: "db2 = db1 @ concat (map (insert_event (insert_raw_prefix table columns) (length columns + 1)
        (bind_row (wr_tenant w))) (chunks (chunk_rows (length columns + 1)) rows))" by simp
    have "concat (chunks (chunk_rows (length columns + 1)) rows) = rows"
      using assms(2) by (intro concat_chunks) (simp add: chunk_rows_pos sound_rows_def)
    then show ?thesis
      unfolding db' db2 db1
      by (simp add: executed_insert_events ensure_events_def generation_def)
  qed
qed

lemma perform_call_inserts:
  assumes "perform_call env (t, Ingest_call sys ent columns rows) wd = (Inr n, wd')" "sound_rows columns rows"
  shows "concat (map executed_params (drop (length (snd wd)) (snd wd'))) = concat (map (bind_row t) rows)"
  using ingest_executes [of env "with_tenant t (fst wd)" sys ent columns rows "snd wd" n "snd wd'"] assms
  by (auto simp: perform_call_def case_prod_unfold Let_def with_tenant_def prod_eq_iff)

abbreviation returned :: "(string \<times> store_call) \<times> (failure, nat) result \<times> db_log \<Rightarrow> bool" where
  "returned seg \<equiv> is_ok (fst (snd seg))"

lemma segments_insert:
  assumes "list_all (sound_entry T) calls" "list_all returned (segments env calls wd)"
  shows "concat (map (inserted k) (segments env calls wd)) = concat (map (\<lambda>row. bind_row (fst k) (snd row)) (flushed k calls))"
  using assms
proof (induction calls arbitrary: wd)
  case Nil
  then show ?case by (simp add: flushed_def)
next
  case (Cons tc calls)
  obtain t c where tc: "tc = (t, c)" by (cases tc)
  obtain r wd' where run: "perform_call env tc wd = (r, wd')" by (cases "perform_call env tc wd")
  with Cons.prems obtain n where r: "r = Inr n" by (auto simp: is_ok_iff)
  have "inserted k (tc, r, drop (length (snd wd)) (snd wd')) = concat (map (\<lambda>row. bind_row (fst k) (snd row)) (call_rows k tc))"
  proof (cases c)
    case (Ingest_call sys ent columns rows)
    with Cons.prems perform_call_inserts [of env t sys ent columns rows wd n wd'] run r show ?thesis
      by (auto simp: tc sound_entry_def tag_def comp_def)
  qed (simp_all add: tc)
  moreover have "flushed k (tc # calls) = call_rows k tc @ flushed k calls" by (simp add: flushed_def)
  ultimately show ?case using Cons.IH [of wd'] Cons.prems run by simp
qed

text \<open>C19: The rows of the callers reach the database. When the thread has left and every one of its calls
  returned, the values its inserts were executed with for a (tenant, system, entity) are exactly those
  of the rows received for it, in the order they were received, each row followed by its tenant,
  however the rows were buffered, split over batches and cut into statements.\<close>

theorem pipeline_inserts_received:
  assumes "list_all sound_command (served ws)" "exits ws"
    and "list_all returned (segments dbe (ws_log (run_writer (storage_env dbe w order) cfg ws t)) (w, []))"
  shows "concat (map (inserted k) (segments dbe (ws_log (run_writer (storage_env dbe w order) cfg ws t)) (w, []))) =
    concat (map (\<lambda>row. bind_row (fst k) (snd row)) (received k (served ws)))"
proof -
  let ?s = "run_writer (storage_env dbe w order) cfg ws t"
  note run = writer_run [where env = "storage_env dbe w order" and cfg = cfg and ws = ws and t = t and k = k]
  from run assms(2) have "ws_pending ?s = []" by blast
  then have "buffered k ?s = []" by (simp add: buffered_def)
  with run have "flushed k (ws_log ?s) = received k (served ws)" by (simp add: content_def)
  with segments_insert [OF sound_stateD(4) [OF run_sound [OF assms(1)]] assms(3)] show ?thesis by simp
qed

subsection \<open>A run\<close>

definition sample_wakes :: "wake list" where
  "sample_wakes = [Received 0 0 (one_row ''a'' ''1''), Received 0 0 Shutdown]"

abbreviation sample_storage :: store_env where
  "sample_storage \<equiv> storage_env sample_env sample_writer (\<lambda>S. [])"

lemma sample_served: "served sample_wakes = [one_row ''a'' ''1'', Shutdown]" "exits sample_wakes"
  by (simp_all add: sample_wakes_def one_row_def)

lemma sample_sound: "list_all sound_command (served sample_wakes)"
  unfolding sample_served by (simp add: one_row_def sound_rows_def wide_rows_def MAX_PARAMS_def)

lemma sample_writer_calls:
  "ws_log (run_writer sample_storage small_batches sample_wakes ''x'') =
     [(''a'', Ingest_call ''crm'' ''users'' [''user_id''] [[Some ''1'']])]"
  by (simp add: sample_wakes_def one_row_def ingest_start flush_held_twice small_batches_def Let_def)
    (simp add: writer_start_def)

lemma sample_call_returns:
  "list_all returned (segments sample_env [(''a'', Ingest_call ''crm'' ''users'' [''user_id''] [[Some ''1'']])] (sample_writer, []))"
proof -
  have ids: "IDENT_RE ''crm''" "IDENT_RE ''users''" "IDENT_RE ''user_id''" by code_simp+
  have ok: "prepare_execute sample_env sql ps log = (Inr 1, log @ prepared sql ps)"
    "execute_batch sample_env sql log = (Inr (), log @ [Batch_stmt sql])" for sql ps log
    by (simp_all add: prepare_execute_def db_prepare_def db_execute_def execute_batch_def ebind_def ask_def checked_def elift_def
        sample_env_def prepared_def)
  have one: "chunks (chunk_rows (Suc (Suc 0))) [r] = [[r]]" for r :: table_row
    using chunk_rows_pos [of 2] by (simp add: chunks.simps(2) MAX_PARAMS_def numeral_2_eq_2)
  show ?thesis
    using ids chunk_rows_pos [of 2] one
    by (simp add: perform_call_def writer_ingest_raw_def ensure_raw_def ebind_def checked_def elift_def try_each_def
        raw_table_name_def validate_ident_def guard_def ok insert_chunked_def bump_write_run eret_def MAX_PARAMS_def
        numeral_2_eq_2 Let_def)
qed

theorem pipeline_statements_bind_witness:
  "let calls = ws_log (run_writer sample_storage small_batches sample_wakes ''x''); segs = segments sample_env calls (sample_writer, [])
   in calls = [(''a'', Ingest_call ''crm'' ''users'' [''user_id''] [[Some ''1'']])] \<and> map fst segs = calls \<and>
      list_all (\<lambda>((t', c), r, evs). t' \<in> {''x'', ''a''} \<and> list_all (bound t') evs \<and> r \<noteq> Inl Panicked) segs"
proof -
  have "tenants_of (served sample_wakes) ''x'' = {''x'', ''a''}"
    unfolding sample_served by (auto simp: tenants_of_def one_row_def)
  with pipeline_statements_bind [OF sample_sound, of sample_env sample_writer "\<lambda>S. []" small_batches "''x''"]
  show ?thesis unfolding Let_def sample_writer_calls by simp
qed

theorem pipeline_inserts_received_witness:
  "concat (map (inserted (''a'', ''crm'', ''users''))
     (segments sample_env (ws_log (run_writer sample_storage small_batches sample_wakes ''x'')) (sample_writer, []))) =
   [VText ''1'', VText ''a'']"
proof -
  have "list_all returned (segments sample_env (ws_log (run_writer sample_storage small_batches sample_wakes ''x'')) (sample_writer, []))"
    unfolding sample_writer_calls by (rule sample_call_returns)
  from pipeline_inserts_received [OF sample_sound sample_served(2) this, of "(''a'', ''crm'', ''users'')"]
  show ?thesis unfolding sample_served by (simp add: one_row_def tag_def bind_row_def cell_value_def)
qed

end
