(* ===== verification/Ingress_Auth.thy ===== *)
theory Ingress_Auth
  imports Core_Config Query_Ast
begin

text \<open>
  \<open>crates/ingress/src/auth.rs\<close>, the error wrapper and \<open>AppState::resolve_tenant\<close> of
  \<open>lib.rs\<close>, and the token tables \<open>Engine::build\<close> fills. SHA-256 (the crate \<open>sha2\<close>) is the
  parameter \<open>sha\<close>; \<open>HeaderValue::to_str\<close> (the crate \<open>http\<close>) the parameter \<open>to_str\<close>. The
  constant-time comparison is equality.
\<close>

subsection \<open>Errors and their responses\<close>

datatype api_error =
    Core core_error
  | Query query_error
  | NotFound
  | Unauthorized
  | UnsupportedFormat

text \<open>The status code and the body.\<close>

fun into_response :: "api_error \<Rightarrow> nat \<times> msg" where
  "into_response (Core (InvalidInput m)) = (400, m)"
| "into_response (Core WriterAlreadyHeld) = (409, Msg ''writer already held'' [])"
| "into_response (Core CatalogueUnavailable) = (503, Msg ''semantic catalogue unavailable'' [])"
| "into_response (Core e) = (500, display_error e)"
| "into_response (Query (InvalidDsl m)) = (400, m)"
| "into_response (Query TooLarge) = (413, Msg ''query too large for sync'' [])"
| "into_response (Query (Guardrail rule limit)) =
     (422, Msg ''guardrail {rule} exceeded (limit {limit})'' [AStr rule, AStr limit])"
| "into_response (Query SurvivorUnbounded) = (422, Msg ''JIT derive over unbounded survivor set'' [])"
| "into_response (Query (QExecution e)) = (500, Msg ''execution failure'' [])"
| "into_response NotFound = (404, Msg ''not found'' [])"
| "into_response Unauthorized = (401, Msg ''unauthorized'' [])"
| "into_response UnsupportedFormat = (415, Msg ''unsupported format'' [])"

lemma into_response_is_error: "400 \<le> fst (into_response e) \<and> fst (into_response e) < 600"
  by (cases e rule: into_response.cases) simp_all

subsection \<open>Resolving the tenant\<close>

type_synonym hash = "string"

record auth_state =
  au_auth_token_hash :: "hash option"
  au_tenants :: "(string \<times> hash) list"
  au_default_tenant :: string

definition hash_token :: "(string \<Rightarrow> hash) \<Rightarrow> string \<Rightarrow> hash" where
  "hash_token sha token = sha token"

text \<open>The tables of \<open>Engine::build\<close>.\<close>

definition build_auth :: "(string \<Rightarrow> hash) \<Rightarrow> engine_config \<Rightarrow> auth_state" where
  "build_auth sha config =
     \<lparr>au_auth_token_hash = map_option (hash_token sha) (ec_auth_token config),
      au_tenants = map (\<lambda>t. (tc_id t, hash_token sha (tc_token t))) (ec_tenants config),
      au_default_tenant = ec_tenant_id config\<rparr>"

fun tenant_loop :: "hash \<Rightarrow> (string \<times> hash) list \<Rightarrow> string option" where
  "tenant_loop h [] = None"
| "tenant_loop h ((t, expected) # rest) = (if expected = h then Some t else tenant_loop h rest)"

definition resolve_tenant :: "(string \<Rightarrow> hash) \<Rightarrow> auth_state \<Rightarrow> string option \<Rightarrow> string option" where
  "resolve_tenant sha st provided =
     (case provided of
        None \<Rightarrow> None
      | Some p \<Rightarrow>
          (let h = sha p in
           case tenant_loop h (au_tenants st) of
             Some t \<Rightarrow> Some t
           | None \<Rightarrow>
               (case au_auth_token_hash st of
                  Some expected \<Rightarrow> if expected = h then Some (au_default_tenant st) else None
                | None \<Rightarrow> None)))"

subsection \<open>The middleware\<close>

record http_request =
  rq_path :: string
  rq_authorization :: "string option"

text \<open>\<open>Inr None\<close> runs the request with no tenant, \<open>Inr (Some t)\<close> with the extension \<open>Tenant(t)\<close>.\<close>

definition require_auth ::
  "(string \<Rightarrow> hash) \<Rightarrow> (string \<Rightarrow> string option) \<Rightarrow> auth_state \<Rightarrow> http_request \<Rightarrow> (api_error, string option) result"
where
  "require_auth sha to_str st req =
     (if rq_path req \<in> {''/healthz'', ''/readyz''} then Inr None
      else if au_auth_token_hash st = None \<and> au_tenants st = [] then Inr (Some (au_default_tenant st))
      else
        rbind (ok_or Unauthorized
          (Option.bind (Option.bind (rq_authorization req) to_str) (strip_prefix ''Bearer ''))) (\<lambda>provided.
        rbind (ok_or Unauthorized (resolve_tenant sha st (Some provided))) (\<lambda>tenant.
        Inr (Some tenant))))"

lemma tenant_loop_find: "tenant_loop h ts = map_option fst (List.find (\<lambda>p. snd p = h) ts)"
  by (induction h ts rule: tenant_loop.induct) auto

lemma find_map: "List.find P (map f xs) = map_option f (List.find (P \<circ> f) xs)"
  by (induction xs) auto

text \<open>The tokens an engine was configured with, each with the tenant it stands for.\<close>

definition credentials :: "engine_config \<Rightarrow> (string \<times> string) list" where
  "credentials config = map (\<lambda>t. (tc_id t, tc_token t)) (ec_tenants config) @
     (case ec_auth_token config of None \<Rightarrow> [] | Some tok \<Rightarrow> [(ec_tenant_id config, tok)])"

definition owner_of :: "(string \<Rightarrow> hash) \<Rightarrow> engine_config \<Rightarrow> string \<Rightarrow> string option" where
  "owner_of sha config p = map_option fst (List.find (\<lambda>c. sha (snd c) = sha p) (credentials config))"

lemma resolve_tenant_build: "resolve_tenant sha (build_auth sha config) (Some p) = owner_of sha config p"
  by (auto simp: resolve_tenant_def build_auth_def owner_of_def credentials_def hash_token_def tenant_loop_find
      find_append find_map comp_def Let_def split: option.splits)

lemma owner_of_credential: "owner_of sha config p = Some t \<Longrightarrow> \<exists>tok. (t, tok) \<in> set (credentials config) \<and> sha tok = sha p"
  by (auto simp: owner_of_def find_Some_iff) (metis nth_mem snd_conv)

definition bearer :: "(string \<Rightarrow> string option) \<Rightarrow> http_request \<Rightarrow> string option" where
  "bearer to_str req =
     Option.bind (Option.bind (rq_authorization req) to_str) (strip_prefix ''Bearer '')"

lemma require_auth_bearer:
  "require_auth sha to_str st req =
     (if rq_path req \<in> {''/healthz'', ''/readyz''} then Inr None
      else if au_auth_token_hash st = None \<and> au_tenants st = [] then Inr (Some (au_default_tenant st))
      else rbind (ok_or Unauthorized (Option.bind (bearer to_str req) (\<lambda>p. resolve_tenant sha st (Some p)))) (\<lambda>t. Inr (Some t)))"
  unfolding require_auth_def bearer_def [symmetric] by (cases "bearer to_str req") simp_all

lemma build_auth_unconfigured:
  "au_auth_token_hash (build_auth sha config) = None \<and> au_tenants (build_auth sha config) = [] \<longleftrightarrow> credentials config = []"
  by (auto simp: build_auth_def credentials_def split: option.split)

text \<open>Who a request runs as, over the configured tokens: the two probes run without a tenant;
  with no token configured everyone is the default tenant; otherwise a bearer token runs the
  request as the tenant of the first configured token with the same hash, the engine's own token
  being the last of them, and everything else is refused with 401.\<close>

theorem require_auth_build:
  "require_auth sha to_str (build_auth sha config) req =
     (if rq_path req \<in> {''/healthz'', ''/readyz''} then Inr None
      else if credentials config = [] then Inr (Some (ec_tenant_id config))
      else rbind (ok_or Unauthorized (Option.bind (bearer to_str req) (owner_of sha config))) (\<lambda>t. Inr (Some t)))"
  by (simp only: require_auth_bearer build_auth_unconfigured resolve_tenant_build) (simp add: build_auth_def)

text \<open>A request runs as a tenant only if it presents a token that hashes to that of one of the
  tenant's configured tokens.\<close>

theorem auth_needs_credential:
  assumes "require_auth sha to_str (build_auth sha config) req = Inr (Some t)" and "credentials config \<noteq> []"
  shows "\<exists>p tok. bearer to_str req = Some p \<and> (t, tok) \<in> set (credentials config) \<and> sha tok = sha p"
proof -
  from assms obtain p where "bearer to_str req = Some p" "owner_of sha config p = Some t"
    by (auto simp: require_auth_bearer build_auth_unconfigured resolve_tenant_build rbind_Inr_iff bind_eq_Some_conv
        split: if_splits)
  with owner_of_credential show ?thesis by blast
qed

text \<open>Called by itself the resolver rejects every token of an engine with no token configured,
  where its documentation promises the default tenant; only the middleware provides that.\<close>

theorem resolve_tenant_unconfigured:
  assumes "credentials config = []"
  shows "resolve_tenant sha (build_auth sha config) provided = None"
  using assms by (cases provided) (simp_all add: resolve_tenant_build owner_of_def, simp add: resolve_tenant_def)

definition two_tenants :: engine_config where
  "two_tenants = (engine_config_default None)\<lparr>ec_auth_token := Some ''root'',
     ec_tenants := [\<lparr>tc_id = ''acme'', tc_token = ''s3cret''\<rparr>]\<rparr>"

lemma two_tenants_credentials: "credentials two_tenants = [(''acme'', ''s3cret''), (''default'', ''root'')]"
  by (simp add: credentials_def two_tenants_def engine_config_default_def)

theorem auth_needs_credential_witness:
  "\<exists>p tok. bearer Some \<lparr>rq_path = ''/query'', rq_authorization = Some ''Bearer s3cret''\<rparr> = Some p \<and>
     (''acme'', tok) \<in> set (credentials two_tenants) \<and> id tok = id p"
  by (rule auth_needs_credential)
    (simp_all add: two_tenants_credentials require_auth_def resolve_tenant_build owner_of_def,
     simp add: two_tenants_def build_auth_def)

theorem resolve_tenant_unconfigured_witness:
  "resolve_tenant id (build_auth id (engine_config_default None)) (Some ''any'') = None"
  by (rule resolve_tenant_unconfigured) (simp add: credentials_def engine_config_default_def)

end
