(* ===== verification/Ingress_Jobs.thy ===== *)
theory Ingress_Jobs
  imports Ingress_Auth Query_Parse Keyed_Maps
begin

text \<open>
  \<open>crates/ingress/src/jobs.rs\<close>: the registry of materialisation jobs (a \<open>DashMap\<close> with lazy
  expiry), the two handlers, and the job life cycle as a step relation: a request is accepted,
  waits for a permit (a caller who disconnects meanwhile drops the handler, and with it the job),
  runs under its supervisor, which records what the inner task came to; polls of any tenant interleave with all of it. A uuid is never minted twice. Instants are
  nanoseconds.
\<close>

subsection \<open>The registry\<close>

datatype job_status = Running | Done string | Failed msg

record job_registry =
  jr_map :: "(string, job_status \<times> string \<times> nat) dashmap"
  jr_ttl :: nat

definition JOB_TTL :: nat where
  "JOB_TTL = 60 * 60 * 1000000000"

definition with_ttl :: "nat \<Rightarrow> job_registry" where
  "with_ttl ttl = \<lparr>jr_map = dm_empty, jr_ttl = ttl\<rparr>"

definition registry_default :: job_registry where
  "registry_default = with_ttl JOB_TTL"

definition set_status :: "job_status \<Rightarrow> nat \<Rightarrow> string \<Rightarrow> string \<Rightarrow> job_registry \<Rightarrow> job_registry" where
  "set_status st now jid tenant reg = reg\<lparr>jr_map := dm_insert jid (st, tenant, now) (jr_map reg)\<rparr>"

definition insert_running :: "nat \<Rightarrow> string \<Rightarrow> string \<Rightarrow> job_registry \<Rightarrow> job_registry" where
  "insert_running now jid tenant reg = set_status Running now jid tenant reg"

definition set_done :: "nat \<Rightarrow> string \<Rightarrow> string \<Rightarrow> string \<Rightarrow> job_registry \<Rightarrow> job_registry" where
  "set_done now jid tenant snapshot reg = set_status (Done snapshot) now jid tenant reg"

definition set_failed :: "nat \<Rightarrow> string \<Rightarrow> string \<Rightarrow> msg \<Rightarrow> job_registry \<Rightarrow> job_registry" where
  "set_failed now jid tenant err reg = set_status (Failed err) now jid tenant reg"

definition get_owned :: "nat \<Rightarrow> string \<Rightarrow> string \<Rightarrow> job_registry \<Rightarrow> job_status option \<times> job_registry" where
  "get_owned now jid tenant reg =
     (if (case dm_get (jr_map reg) jid of None \<Rightarrow> False | Some (st, t, at) \<Rightarrow> now - at > jr_ttl reg)
      then (None, reg\<lparr>jr_map := dm_remove jid (jr_map reg)\<rparr>)
      else
        (case dm_get (jr_map reg) jid of
           None \<Rightarrow> None
         | Some (st, t, at) \<Rightarrow> if t = tenant then Some st else None, reg))"

subsection \<open>Handlers\<close>

record jobs_request =
  jq_dsl :: json
  jq_campaign_id :: string

record job_response =
  jp_status :: string
  jp_done :: bool
  jp_snapshot_id :: "string option"
  jp_error :: "msg option"

fun response_of :: "job_status \<Rightarrow> job_response" where
  "response_of Running = \<lparr>jp_status = ''running'', jp_done = False, jp_snapshot_id = None, jp_error = None\<rparr>"
| "response_of (Done snapshot) =
     \<lparr>jp_status = ''done'', jp_done = True, jp_snapshot_id = Some snapshot, jp_error = None\<rparr>"
| "response_of (Failed err) =
     \<lparr>jp_status = ''failed'', jp_done = True, jp_snapshot_id = None, jp_error = Some err\<rparr>"

definition get_job ::
  "nat \<Rightarrow> string \<Rightarrow> string \<Rightarrow> job_registry \<Rightarrow> (api_error, job_response) result \<times> job_registry"
where
  "get_job now tenant jid reg =
     (let (status, reg) = get_owned now jid tenant reg
      in (rbind (ok_or NotFound status) (\<lambda>st. Inr (response_of st)), reg))"

text \<open>\<open>post_jobs\<close> up to the wait for a permit: the job id and the parsed segment.\<close>

definition post_jobs ::
  "(json \<Rightarrow> (msg, segment_query) result) \<Rightarrow> (string \<Rightarrow> bool) \<Rightarrow> string \<Rightarrow> nat \<Rightarrow> string \<Rightarrow> jobs_request
     \<Rightarrow> job_registry \<Rightarrow> (api_error, string \<times> segment_query) result \<times> job_registry"
where
  "post_jobs from_value rfc3339 uuid now tenant req reg =
     (case rbind (map_err Core (validate_ident (jq_campaign_id req))) (\<lambda>_.
           map_err Query (parse from_value rfc3339 (jq_dsl req))) of
        Inl e \<Rightarrow> (Inl e, reg)
      | Inr q \<Rightarrow> (let jid = ''j_'' @ uuid in (Inr (jid, q), insert_running now jid tenant reg)))"

fun display_query_error :: "query_error \<Rightarrow> msg" where
  "display_query_error (InvalidDsl m) = Msg ''invalid DSL: {0}'' [AMsg m]"
| "display_query_error (Guardrail rule limit) =
     Msg ''guardrail {rule} exceeded (limit {limit})'' [AStr rule, AStr limit]"
| "display_query_error TooLarge = Msg ''query too large for sync execution'' []"
| "display_query_error SurvivorUnbounded =
     Msg ''JIT derive over unbounded survivor set; narrow first or precompute'' []"
| "display_query_error (QExecution e) = Msg ''execution failure'' []"

text \<open>What the supervisor sees of the inner task: its result, or a panic.\<close>

datatype task_outcome = Returned "(query_error, string) result" | Panicked msg

fun record_outcome :: "nat \<Rightarrow> string \<Rightarrow> string \<Rightarrow> task_outcome \<Rightarrow> job_registry \<Rightarrow> job_registry" where
  "record_outcome now jid tenant (Returned (Inr snapshot)) reg = set_done now jid tenant snapshot reg"
| "record_outcome now jid tenant (Returned (Inl e)) reg = set_failed now jid tenant (display_query_error e) reg"
| "record_outcome now jid tenant (Panicked panic) reg =
     set_failed now jid tenant (Msg ''materialise task failed: {join}'' [AMsg panic]) reg"

subsection \<open>The life cycle\<close>

text \<open>\<open>jw_minted\<close> remembers every id and the tenant it was minted for; no code reads it.\<close>

record job_world =
  jw_registry :: job_registry
  jw_free :: nat
  jw_waiting :: "(string \<times> string) set"
  jw_running :: "(string \<times> string) set"
  jw_minted :: "string \<rightharpoonup> string"

definition job_start :: "nat \<Rightarrow> job_world" where
  "job_start slots =
     \<lparr>jw_registry = registry_default, jw_free = slots, jw_waiting = {}, jw_running = {}, jw_minted = Map.empty\<rparr>"

inductive job_step ::
  "(json \<Rightarrow> (msg, segment_query) result) \<Rightarrow> (string \<Rightarrow> bool) \<Rightarrow> job_world \<Rightarrow> job_world \<Rightarrow> bool"
  for from_value rfc3339
where
  posted: "post_jobs from_value rfc3339 uuid now tenant req (jw_registry w) = (Inr (jid, q), reg) \<Longrightarrow>
     jw_minted w jid = None \<Longrightarrow>
     job_step from_value rfc3339 w
       (w\<lparr>jw_registry := reg, jw_waiting := insert (jid, tenant) (jw_waiting w), jw_minted := (jw_minted w)(jid \<mapsto> tenant)\<rparr>)"
| refused: "post_jobs from_value rfc3339 uuid now tenant req (jw_registry w) = (Inl e, reg) \<Longrightarrow>
     job_step from_value rfc3339 w (w\<lparr>jw_registry := reg\<rparr>)"
| permitted: "(jid, tenant) \<in> jw_waiting w \<Longrightarrow> jw_free w > 0 \<Longrightarrow>
     job_step from_value rfc3339 w
       (w\<lparr>jw_free := jw_free w - 1, jw_waiting := jw_waiting w - {(jid, tenant)},
          jw_running := insert (jid, tenant) (jw_running w)\<rparr>)"
| abandoned: "(jid, tenant) \<in> jw_waiting w \<Longrightarrow>
     job_step from_value rfc3339 w (w\<lparr>jw_waiting := jw_waiting w - {(jid, tenant)}\<rparr>)"
| finished: "(jid, tenant) \<in> jw_running w \<Longrightarrow>
     job_step from_value rfc3339 w
       (w\<lparr>jw_registry := record_outcome now jid tenant outcome (jw_registry w), jw_free := jw_free w + 1,
          jw_running := jw_running w - {(jid, tenant)}\<rparr>)"
| polled: "get_job now tenant jid (jw_registry w) = (r, reg) \<Longrightarrow>
     job_step from_value rfc3339 w (w\<lparr>jw_registry := reg\<rparr>)"

inductive job_steps ::
  "(json \<Rightarrow> (msg, segment_query) result) \<Rightarrow> (string \<Rightarrow> bool) \<Rightarrow> job_world \<Rightarrow> job_world \<Rightarrow> bool"
  for from_value rfc3339
where
  none: "job_steps from_value rfc3339 w w"
| more: "job_steps from_value rfc3339 w w' \<Longrightarrow> job_step from_value rfc3339 w' w'' \<Longrightarrow> job_steps from_value rfc3339 w w''"

inductive_cases job_stepE: "job_step from_value rfc3339 w w'"

subsection \<open>The invariant\<close>

definition entry_of :: "job_registry \<Rightarrow> string \<Rightarrow> (job_status \<times> string \<times> nat) option" where
  "entry_of reg jid = dm_get (jr_map reg) jid"

definition active :: "job_world \<Rightarrow> (string \<times> string) set" where
  "active w = jw_waiting w \<union> jw_running w"

text \<open>Every entry and every active job has the tenant its id was minted for, an active job reads as
  running when it is read at all, and permits are neither lost nor invented.\<close>

definition job_inv :: "nat \<Rightarrow> job_world \<Rightarrow> bool" where
  "job_inv slots w \<longleftrightarrow>
     (\<forall>i st t at. entry_of (jw_registry w) i = Some (st, t, at) \<longrightarrow> jw_minted w i = Some t) \<and>
     (\<forall>i t. (i, t) \<in> active w \<longrightarrow> jw_minted w i = Some t) \<and>
     (\<forall>i t st t' at. (i, t) \<in> active w \<longrightarrow> entry_of (jw_registry w) i = Some (st, t', at) \<longrightarrow> st = Running) \<and>
     jw_waiting w \<inter> jw_running w = {} \<and> finite (jw_running w) \<and> jw_free w + card (jw_running w) = slots"

lemma entry_set_status:
  "entry_of (set_status st now jid tenant reg) i = (if i = jid then Some (st, tenant, now) else entry_of reg i)"
  by (simp add: entry_of_def set_status_def dm.lookup_insert)

lemma entry_post:
  "post_jobs from_value rfc3339 uuid now tenant req reg = (Inr (jid, q), reg') \<Longrightarrow>
   entry_of reg' i = (if i = jid then Some (Running, tenant, now) else entry_of reg i)"
  by (auto simp: post_jobs_def insert_running_def entry_set_status Let_def split: sum.splits)

lemma post_refused: "post_jobs from_value rfc3339 uuid now tenant req reg = (Inl e, reg') \<Longrightarrow> reg' = reg"
  by (auto simp: post_jobs_def Let_def split: sum.splits)

lemma entry_get_job:
  "get_job now tenant jid reg = (r, reg') \<Longrightarrow> entry_of reg' i = entry_of reg i \<or> entry_of reg' i = None"
  by (auto simp: get_job_def get_owned_def entry_of_def Let_def dm.lookup_remove split: if_splits)

lemma entry_outcome:
  "\<exists>st. entry_of (record_outcome now jid tenant outcome reg) i =
     (if i = jid then Some (st, tenant, now) else entry_of reg i) \<and> st \<noteq> Running"
  by (cases "(now, jid, tenant, outcome, reg)" rule: record_outcome.cases)
    (auto simp: set_done_def set_failed_def entry_set_status)

lemma job_invI:
  assumes "\<And>i st t at. entry_of (jw_registry w) i = Some (st, t, at) \<Longrightarrow> jw_minted w i = Some t"
    and "\<And>i t. (i, t) \<in> active w \<Longrightarrow> jw_minted w i = Some t"
    and "\<And>i t st t' at. (i, t) \<in> active w \<Longrightarrow> entry_of (jw_registry w) i = Some (st, t', at) \<Longrightarrow> st = Running"
    and "jw_waiting w \<inter> jw_running w = {}" "finite (jw_running w)" "jw_free w + card (jw_running w) = slots"
  shows "job_inv slots w"
  unfolding job_inv_def using assms by blast

lemma job_invD:
  assumes "job_inv slots w"
  shows "entry_of (jw_registry w) i = Some (st, t, at) \<Longrightarrow> jw_minted w i = Some t"
    and "(i, t) \<in> active w \<Longrightarrow> jw_minted w i = Some t"
    and "(i, t) \<in> active w \<Longrightarrow> entry_of (jw_registry w) i = Some (st, t', at) \<Longrightarrow> st = Running"
    and "jw_waiting w \<inter> jw_running w = {}" and "finite (jw_running w)" and "jw_free w + card (jw_running w) = slots"
  using assms unfolding job_inv_def by blast+

text \<open>The registry may lose entries and nothing else.\<close>

lemma job_inv_registry:
  assumes "job_inv slots w" "\<And>i e. entry_of reg i = Some e \<Longrightarrow> entry_of (jw_registry w) i = Some e"
  shows "job_inv slots (w\<lparr>jw_registry := reg\<rparr>)"
proof (rule job_invI)
  have a: "active (w\<lparr>jw_registry := reg\<rparr>) = active w" by (simp add: active_def)
  show "jw_minted (w\<lparr>jw_registry := reg\<rparr>) i = Some t" if "entry_of (jw_registry (w\<lparr>jw_registry := reg\<rparr>)) i = Some (st, t, at)"
    for i st t at using job_invD(1) [OF assms(1)] assms(2) that by simp
  show "jw_minted (w\<lparr>jw_registry := reg\<rparr>) i = Some t" if "(i, t) \<in> active (w\<lparr>jw_registry := reg\<rparr>)" for i t
    using job_invD(2) [OF assms(1)] that by (simp add: a)
  show "st = Running" if "(i, t) \<in> active (w\<lparr>jw_registry := reg\<rparr>)"
    "entry_of (jw_registry (w\<lparr>jw_registry := reg\<rparr>)) i = Some (st, t', at)" for i t st t' at
    using job_invD(3) [OF assms(1), of i t st t' at] assms(2) that by (simp add: a)
qed (use job_invD(4-6) [OF assms(1)] in simp_all)

lemma job_inv_start: "job_inv slots (job_start slots)"
  by (simp add: job_inv_def active_def job_start_def registry_default_def with_ttl_def entry_of_def dm.lookup_empty)

lemma job_inv_posted:
  assumes "post_jobs from_value rfc3339 uuid now tenant req (jw_registry w) = (Inr (jid, q), reg)"
    and fresh: "jw_minted w jid = None" and inv: "job_inv slots w"
  shows "job_inv slots (w\<lparr>jw_registry := reg, jw_waiting := insert (jid, tenant) (jw_waiting w),
    jw_minted := (jw_minted w)(jid \<mapsto> tenant)\<rparr>)"
    (is "job_inv slots ?w")
proof -
  note e = entry_post [OF assms(1)]
  have old: "i \<noteq> jid" if "(i, t) \<in> active w" for i t
    using job_invD(2) [OF inv that] fresh by auto
  have act: "active ?w = insert (jid, tenant) (active w)" by (simp add: active_def)
  show ?thesis
  proof (rule job_invI)
    show "jw_minted ?w i = Some t" if "entry_of (jw_registry ?w) i = Some (st, t, at)" for i st t at
      using that job_invD(1) [OF inv] by (simp add: e split: if_splits)
    show "jw_minted ?w i = Some t" if "(i, t) \<in> active ?w" for i t
      using that job_invD(2) [OF inv] old by (auto simp: act)
    show "st = Running" if "(i, t) \<in> active ?w" "entry_of (jw_registry ?w) i = Some (st, t', at)" for i t st t' at
      using that job_invD(3) [OF inv, of i t st t' at] by (auto simp: act e split: if_splits)
    show "jw_waiting ?w \<inter> jw_running ?w = {}"
      using job_invD(4) [OF inv] old [of jid tenant] by (auto simp: active_def)
  qed (use job_invD(5,6) [OF inv] in simp_all)
qed

lemma job_inv_permitted:
  assumes wait: "(jid, tenant) \<in> jw_waiting w" "jw_free w > 0" and inv: "job_inv slots w"
  shows "job_inv slots (w\<lparr>jw_free := jw_free w - 1, jw_waiting := jw_waiting w - {(jid, tenant)},
    jw_running := insert (jid, tenant) (jw_running w)\<rparr>)"
    (is "job_inv slots ?w")
proof -
  have act: "active ?w = active w" using wait by (auto simp: active_def)
  have "card (jw_running ?w) = Suc (card (jw_running w))"
    using job_invD(4,5) [OF inv] wait(1) by (simp, intro card_insert_disjoint) auto
  then have slots: "jw_free ?w + card (jw_running ?w) = slots"
    using job_invD(6) [OF inv] wait(2) by simp
  show ?thesis
  proof (rule job_invI)
    show "jw_minted ?w i = Some t" if "entry_of (jw_registry ?w) i = Some (st, t, at)" for i st t at
      using that job_invD(1) [OF inv] by simp
    show "jw_minted ?w i = Some t" if "(i, t) \<in> active ?w" for i t
      using that job_invD(2) [OF inv] unfolding act by simp
    show "st = Running" if "(i, t) \<in> active ?w" "entry_of (jw_registry ?w) i = Some (st, t', at)" for i t st t' at
      using that job_invD(3) [OF inv, of i t st t' at] unfolding act by simp
    show "jw_waiting ?w \<inter> jw_running ?w = {}" using job_invD(4) [OF inv] by auto
  qed (use job_invD(5) [OF inv] slots in simp_all)
qed

lemma job_inv_finished:
  assumes run: "(jid, tenant) \<in> jw_running w" and inv: "job_inv slots w"
  shows "job_inv slots (w\<lparr>jw_registry := record_outcome now jid tenant outcome (jw_registry w), jw_free := jw_free w + 1,
    jw_running := jw_running w - {(jid, tenant)}\<rparr>)"
    (is "job_inv slots ?w")
proof -
  note e = entry_outcome [of now jid tenant outcome "jw_registry w"]
  have m: "jw_minted w jid = Some tenant" using job_invD(2) [OF inv] run by (simp add: active_def)
  have act: "(i, t) \<in> active w \<and> i \<noteq> jid" if "(i, t) \<in> active ?w" for i t
  proof -
    from that have i: "(i, t) \<in> active w" "(i, t) \<noteq> (jid, tenant)"
      using job_invD(4) [OF inv] run by (auto simp: active_def)
    with job_invD(2) [OF inv i(1)] m show ?thesis by auto
  qed
  have "card (jw_running w) = Suc (card (jw_running ?w))"
    using card.remove [OF job_invD(5) [OF inv] run] by simp
  then have slots: "jw_free ?w + card (jw_running ?w) = slots"
    using job_invD(6) [OF inv] by simp
  show ?thesis
  proof (rule job_invI)
    show "jw_minted ?w i = Some t" if "entry_of (jw_registry ?w) i = Some (st, t, at)" for i st t at
      using that e [of i] m job_invD(1) [OF inv, of i st t at] by (auto split: if_splits)
    show "jw_minted ?w i = Some t" if "(i, t) \<in> active ?w" for i t
      using job_invD(2) [OF inv] act [OF that] by simp
    show "st = Running" if "(i, t) \<in> active ?w" "entry_of (jw_registry ?w) i = Some (st, t', at)" for i t st t' at
      using that(2) act [OF that(1)] e [of i] job_invD(3) [OF inv, of i t st t' at] by auto
    show "jw_waiting ?w \<inter> jw_running ?w = {}" using job_invD(4) [OF inv] by auto
  qed (use job_invD(5) [OF inv] slots in simp_all)
qed

lemma job_inv_step: "job_step from_value rfc3339 w w' \<Longrightarrow> job_inv slots w \<Longrightarrow> job_inv slots w'"
proof (induction rule: job_step.induct)
  case (posted uuid now tenant req w jid q reg)
  then show ?case by (rule job_inv_posted)
next
  case (refused uuid now tenant req w e reg)
  then show ?case using post_refused [OF refused(1)] by (intro job_inv_registry) simp_all
next
  case (permitted jid tenant w)
  then show ?case by (rule job_inv_permitted)
next
  case (abandoned jid tenant w)
  then show ?case by (auto simp: job_inv_def active_def)
next
  case (finished jid tenant w now outcome)
  then show ?case by (rule job_inv_finished)
next
  case (polled now tenant jid w r reg)
  have "entry_of reg i = Some e \<Longrightarrow> entry_of (jw_registry w) i = Some e" for i e
    using entry_get_job [OF polled(1), of i] by auto
  with polled(2) show ?case by (rule job_inv_registry)
qed

lemma job_inv_steps: "job_steps from_value rfc3339 w w' \<Longrightarrow> job_inv slots w \<Longrightarrow> job_inv slots w'"
  by (induction rule: job_steps.induct) (blast intro: job_inv_step)+

lemma reachable_inv: "job_steps from_value rfc3339 (job_start slots) w \<Longrightarrow> job_inv slots w"
  using job_inv_steps job_inv_start by blast

subsection \<open>Properties\<close>

lemma ttl_step: "job_step from_value rfc3339 w w' \<Longrightarrow> jr_ttl (jw_registry w') = jr_ttl (jw_registry w)"
proof (induction rule: job_step.induct)
  case (finished jid tenant w now outcome)
  show ?case
    by (cases "(now, jid, tenant, outcome, jw_registry w)" rule: record_outcome.cases)
      (simp_all add: set_done_def set_failed_def set_status_def)
qed (auto simp: post_jobs_def insert_running_def set_status_def get_job_def get_owned_def Let_def
    split: sum.splits if_splits)

lemma ttl_steps: "job_steps from_value rfc3339 w w' \<Longrightarrow> jr_ttl (jw_registry w') = jr_ttl (jw_registry w)"
  by (induction rule: job_steps.induct) (simp_all add: ttl_step)

lemma get_job_Inr_iff:
  "fst (get_job now tenant jid reg) = Inr resp \<longleftrightarrow>
   (\<exists>st at. entry_of reg jid = Some (st, tenant, at) \<and> now - at \<le> jr_ttl reg \<and> resp = response_of st)"
  by (auto simp: get_job_def get_owned_def entry_of_def Let_def split: option.splits if_splits)

text \<open>C18: Whatever requests, runs and polls came before, a poll is answered only to the tenant the
  job's id was minted for, from an entry no older than an hour.\<close>

theorem jobs_answer_owner:
  assumes "job_steps from_value rfc3339 (job_start slots) w"
    and "fst (get_job now tenant jid (jw_registry w)) = Inr resp"
  shows "jw_minted w jid = Some tenant \<and>
    (\<exists>st at. entry_of (jw_registry w) jid = Some (st, tenant, at) \<and> now - at \<le> JOB_TTL \<and> resp = response_of st)"
proof -
  have "jr_ttl (jw_registry w) = JOB_TTL"
    using ttl_steps [OF assms(1)] by (simp add: job_start_def registry_default_def with_ttl_def)
  with assms(2) obtain st at where "entry_of (jw_registry w) jid = Some (st, tenant, at)" "now - at \<le> JOB_TTL"
    "resp = response_of st" by (auto simp: get_job_Inr_iff)
  with job_invD(1) [OF reachable_inv [OF assms(1)]] show ?thesis by blast
qed

text \<open>At any time at most as many jobs run as there are slots, and no permit is lost.\<close>

theorem jobs_within_slots:
  assumes "job_steps from_value rfc3339 (job_start slots) w"
  shows "card (jw_running w) \<le> slots \<and> jw_free w + card (jw_running w) = slots"
  using job_invD(6) [OF reachable_inv [OF assms]] by simp

text \<open>A job that has been reported done or failed, from then on.\<close>

definition settled :: "string \<Rightarrow> job_status \<times> string \<times> nat \<Rightarrow> job_world \<Rightarrow> bool" where
  "settled jid e w \<longleftrightarrow> jw_minted w jid \<noteq> None \<and> (\<forall>t. (jid, t) \<notin> active w) \<and>
     (entry_of (jw_registry w) jid = None \<or> entry_of (jw_registry w) jid = Some e)"

lemma settled_step: "job_step from_value rfc3339 w w' \<Longrightarrow> settled jid e w \<Longrightarrow> settled jid e w'"
proof (induction rule: job_step.induct)
  case (posted uuid now tenant req w jid' q reg)
  have "jid' \<noteq> jid" using posted(2,3) by (auto simp: settled_def)
  then show ?case
    using posted(3) entry_post [OF posted(1), of jid] by (auto simp: settled_def active_def)
next
  case (refused uuid now tenant req w err reg)
  then show ?case using post_refused [OF refused(1)] by (simp add: settled_def active_def)
next
  case (permitted jid' tenant w)
  then show ?case by (auto simp: settled_def active_def)
next
  case (abandoned jid' tenant w)
  then show ?case by (auto simp: settled_def active_def)
next
  case (finished jid' tenant w now outcome)
  then have "jid' \<noteq> jid" by (auto simp: settled_def active_def)
  then show ?case
    using finished(2) entry_outcome [of now jid' tenant outcome "jw_registry w" jid]
    by (auto simp: settled_def active_def)
next
  case (polled now tenant jid' w r reg)
  then show ?case using entry_get_job [OF polled(1), of jid] by (auto simp: settled_def active_def)
qed

lemma settled_steps: "job_steps from_value rfc3339 w w' \<Longrightarrow> settled jid e w \<Longrightarrow> settled jid e w'"
  by (induction rule: job_steps.induct) (blast intro: settled_step)+

text \<open>A verdict is final: once an entry says done or failed it is never overwritten, neither by
  another job nor by running again; it can only expire.\<close>

theorem jobs_verdict_final:
  assumes "job_steps from_value rfc3339 (job_start slots) w" and "job_steps from_value rfc3339 w w'"
    and "entry_of (jw_registry w) jid = Some (st, t, at)" and "st \<noteq> Running"
  shows "entry_of (jw_registry w') jid = None \<or> entry_of (jw_registry w') jid = Some (st, t, at)"
proof -
  note inv = job_invD [OF reachable_inv [OF assms(1)]]
  have "jw_minted w jid = Some t" using inv(1) [OF assms(3)] .
  moreover have "(jid, t') \<notin> active w" for t' using inv(3) [OF _ assms(3)] assms(4) by blast
  ultimately have "settled jid (st, t, at) w" using assms(3) by (simp add: settled_def)
  from settled_steps [OF assms(2) this] show ?thesis by (simp add: settled_def)
qed

text \<open>What the supervisor makes of an outcome.\<close>

fun verdict :: "task_outcome \<Rightarrow> job_status" where
  "verdict (Returned (Inr snapshot)) = Done snapshot"
| "verdict (Returned (Inl e)) = Failed (display_query_error e)"
| "verdict (Panicked p) = Failed (Msg ''materialise task failed: {join}'' [AMsg p])"

lemma entry_verdict: "entry_of (record_outcome now jid tenant outcome reg) jid = Some (verdict outcome, tenant, now)"
  by (cases outcome rule: verdict.cases) (simp_all add: set_done_def set_failed_def entry_set_status)

lemma ttl_outcome: "jr_ttl (record_outcome now jid tenant outcome reg) = jr_ttl reg"
  by (cases outcome rule: verdict.cases) (simp_all add: set_done_def set_failed_def set_status_def)

text \<open>No running job is orphaned: however the inner task ends, a panic included, its owner can read the
  verdict for the time an entry lives, even when the entry had expired while the job ran.\<close>

theorem job_verdict_readable:
  assumes "later - now \<le> jr_ttl reg"
  shows "get_job later tenant jid (record_outcome now jid tenant outcome reg) =
    (Inr (response_of (verdict outcome)), record_outcome now jid tenant outcome reg) \<and>
    verdict outcome \<noteq> Running"
proof -
  have "dm_get (jr_map (record_outcome now jid tenant outcome reg)) jid = Some (verdict outcome, tenant, now)"
    using entry_verdict [of now jid tenant outcome reg] by (simp only: entry_of_def)
  with assms show ?thesis
    by (cases outcome rule: verdict.cases) (simp_all add: get_job_def get_owned_def ttl_outcome Let_def del: record_outcome.simps)
qed

text \<open>A job whose caller disconnects while it waits for a permit is orphaned all the same: no task
  will ever run it, and its owner reads \<open>running\<close> until the entry expires.\<close>

theorem abandoned_job_reads_running:
  assumes "post_jobs from_value rfc3339 uuid now tenant req (jw_registry w) = (Inr (jid, q), reg)"
    and "jw_minted w jid = None" and "job_inv slots w" and "later - now \<le> jr_ttl reg"
  shows "\<exists>w'. job_steps from_value rfc3339 w w' \<and> (\<forall>t. (jid, t) \<notin> active w') \<and>
    fst (get_job later tenant jid (jw_registry w')) = Inr (response_of Running)"
proof -
  let ?w1 = "w\<lparr>jw_registry := reg, jw_waiting := insert (jid, tenant) (jw_waiting w),
    jw_minted := (jw_minted w)(jid \<mapsto> tenant)\<rparr>"
  let ?w2 = "?w1\<lparr>jw_waiting := jw_waiting ?w1 - {(jid, tenant)}\<rparr>"
  have "job_step from_value rfc3339 w ?w1" by (rule job_step.posted [OF assms(1,2)])
  moreover have "job_step from_value rfc3339 ?w1 ?w2" by (rule job_step.abandoned) simp
  ultimately have "job_steps from_value rfc3339 w ?w2"
    by (blast intro: job_steps.none job_steps.more)
  moreover have "(jid, t) \<notin> active ?w2" for t
    using job_invD(2) [OF assms(3), of jid] assms(2) by (auto simp: active_def)
  moreover have "fst (get_job later tenant jid (jw_registry ?w2)) = Inr (response_of Running)"
    using assms(4) entry_post [OF assms(1), of jid] by (simp add: get_job_Inr_iff del: response_of.simps)
  ultimately show ?thesis by blast
qed

text \<open>The \<open>done\<close> flag of a reply is not the mirror of the status \<open>"done"\<close> that its
  documentation calls it: a failed job sets it too.\<close>

theorem done_flag_means_ended:
  "(jp_done (response_of st) \<longleftrightarrow> st \<noteq> Running) \<and>
   (jp_done (response_of (Failed e)) \<and> jp_status (response_of (Failed e)) \<noteq> ''done'')"
  by (cases st) simp_all

subsection \<open>A run\<close>

definition whole_table :: "json \<Rightarrow> (msg, segment_query) result" where
  "whole_table v = Inr (SegmentQuery \<lparr>ds_system = ''crm'', ds_entity = ''users''\<rparr> ''user_id'' [] None)"

definition export_request :: jobs_request where
  "export_request = \<lparr>jq_dsl = JNull, jq_campaign_id = ''spring''\<rparr>"

definition posted_world :: job_world where
  "posted_world = (job_start 2)\<lparr>jw_registry := insert_running 10 ''j_1'' ''acme'' registry_default,
     jw_waiting := {(''j_1'', ''acme'')}, jw_minted := [''j_1'' \<mapsto> ''acme'']\<rparr>"

lemma export_names: "IDENT_RE ''spring''" "IDENT_RE ''crm''" "IDENT_RE ''users''" "IDENT_RE ''user_id''"
  by code_simp+

lemma post_export:
  "post_jobs whole_table (\<lambda>s. True) ''1'' 10 ''acme'' export_request reg =
     (Inr (''j_1'', SegmentQuery \<lparr>ds_system = ''crm'', ds_entity = ''users''\<rparr> ''user_id'' [] None),
      insert_running 10 ''j_1'' ''acme'' reg)"
  using export_names
  by (simp add: post_jobs_def whole_table_def export_request_def parse_def validate_ident_field_def validate_ident_def
      validate_positions_def Let_def)

lemma posted_reachable: "job_steps whole_table (\<lambda>s. True) (job_start 2) posted_world"
proof -
  have "job_step whole_table (\<lambda>s. True) (job_start 2) posted_world"
    using job_step.posted [OF post_export, where w = "job_start 2", simplified, folded posted_world_def]
    by (simp add: posted_world_def job_start_def)
  with job_steps.none show ?thesis by (rule job_steps.more)
qed

definition verdict_world :: job_world where
  "verdict_world = posted_world\<lparr>jw_registry := record_outcome 20 ''j_1'' ''acme'' (Panicked (Msg ''oom'' []))
     (jw_registry posted_world), jw_waiting := {}\<rparr>"

lemma verdict_reachable: "job_steps whole_table (\<lambda>s. True) (job_start 2) verdict_world"
proof -
  let ?running = "posted_world\<lparr>jw_free := 1, jw_waiting := {}, jw_running := {(''j_1'', ''acme'')}\<rparr>"
  have "job_step whole_table (\<lambda>s. True) posted_world ?running"
    using job_step.permitted [of "''j_1''" "''acme''" posted_world whole_table "\<lambda>s. True"]
    by (simp add: posted_world_def job_start_def)
  moreover have "job_step whole_table (\<lambda>s. True) ?running verdict_world"
    using job_step.finished [of "''j_1''" "''acme''" ?running whole_table "\<lambda>s. True" 20 "Panicked (Msg ''oom'' [])"]
    by (simp add: verdict_world_def posted_world_def job_start_def numeral_2_eq_2)
  ultimately show ?thesis using posted_reachable by (blast intro: job_steps.more)
qed

theorem abandoned_job_reads_running_witness:
  "\<exists>w'. job_steps whole_table (\<lambda>s. True) (job_start 2) w' \<and> (\<forall>t. (''j_1'', t) \<notin> active w') \<and>
    fst (get_job 11 ''acme'' ''j_1'' (jw_registry w')) = Inr (response_of Running)"
proof (rule abandoned_job_reads_running [OF _ _ job_inv_start])
  show "post_jobs whole_table (\<lambda>s. True) ''1'' 10 ''acme'' export_request (jw_registry (job_start 2)) =
      (Inr (''j_1'', SegmentQuery \<lparr>ds_system = ''crm'', ds_entity = ''users''\<rparr> ''user_id'' [] None),
       insert_running 10 ''j_1'' ''acme'' (jw_registry (job_start 2)))" by (rule post_export)
qed (simp_all add: job_start_def registry_default_def with_ttl_def insert_running_def set_status_def JOB_TTL_def)

theorem jobs_answer_owner_witness:
  "jw_minted posted_world ''j_1'' = Some ''acme'' \<and>
    (\<exists>st at. entry_of (jw_registry posted_world) ''j_1'' = Some (st, ''acme'', at) \<and> 11 - at \<le> JOB_TTL \<and>
       response_of Running = response_of st)"
  by (rule jobs_answer_owner [OF posted_reachable])
    (simp add: get_job_Inr_iff posted_world_def entry_of_def insert_running_def set_status_def dm.lookup_insert
      registry_default_def with_ttl_def JOB_TTL_def)

theorem jobs_within_slots_witness:
  "card (jw_running verdict_world) \<le> 2 \<and> jw_free verdict_world + card (jw_running verdict_world) = 2"
  by (rule jobs_within_slots [OF verdict_reachable])

theorem jobs_verdict_final_witness:
  "entry_of (jw_registry verdict_world) ''j_1'' = None \<or>
   entry_of (jw_registry verdict_world) ''j_1'' =
     Some (Failed (Msg ''materialise task failed: {join}'' [AMsg (Msg ''oom'' [])]), ''acme'', 20)"
  by (rule jobs_verdict_final [OF verdict_reachable job_steps.none])
    (simp_all add: verdict_world_def entry_of_def set_failed_def set_status_def dm.lookup_insert)

theorem job_verdict_readable_witness:
  "get_job 30 ''acme'' ''j_1'' (record_outcome 20 ''j_1'' ''acme'' (Returned (Inr ''snap_7'')) registry_default) =
    (Inr (response_of (verdict (Returned (Inr ''snap_7'')))),
     record_outcome 20 ''j_1'' ''acme'' (Returned (Inr ''snap_7'')) registry_default) \<and>
   verdict (Returned (Inr ''snap_7'')) \<noteq> Running"
  by (rule job_verdict_readable) (simp add: registry_default_def with_ttl_def JOB_TTL_def)

end
