(* ===== verification/Ingress_Presign.thy ===== *)
theory Ingress_Presign
  imports Core_Decimal "HOL-Library.Word"
begin

unbundle bit_operations_syntax

text \<open>
  \<open>crates/ingress/src/presign.rs\<close>: export tokens. HMAC-SHA256 (the crates \<open>hmac\<close> and \<open>sha2\<close>)
  is the parameter \<open>mac\<close>, from a key and a message to the tag, \<open>None\<close> for a key the
  initialiser rejects; the clock is the parameter \<open>now\<close>, in seconds. The constant-time
  comparison is equality.
\<close>

type_synonym bytes = "8 word list"
type_synonym mac_fun = "bytes \<Rightarrow> string \<Rightarrow> bytes option"

definition EXPORT_TTL_SECS :: nat where
  "EXPORT_TTL_SECS = 15 * 60"

definition TAG_LEN :: nat where
  "TAG_LEN = 32"

datatype presign_error = PresignError

subsection \<open>Hexadecimal\<close>

definition hex_digit :: "nat \<Rightarrow> char" where
  "hex_digit d = ''0123456789abcdef'' ! d"

text \<open>\<open>format!("{b:02x}")\<close> for each byte.\<close>

definition hex_byte :: "8 word \<Rightarrow> string" where
  "hex_byte b = [hex_digit (unat b div 16), hex_digit (unat b mod 16)]"

definition hex_encode :: "bytes \<Rightarrow> string" where
  "hex_encode bs = concat (map hex_byte bs)"

definition hex_nibble :: "char \<Rightarrow> 8 word option" where
  "hex_nibble ch =
     (let c = of_char ch :: nat in
      if 48 \<le> c \<and> c \<le> 57 then Some (word_of_nat (c - 48))
      else if 97 \<le> c \<and> c \<le> 102 then Some (word_of_nat (c - 97 + 10))
      else if 65 \<le> c \<and> c \<le> 70 then Some (word_of_nat (c - 65 + 10))
      else None)"

fun hex_pairs :: "string \<Rightarrow> bytes option" where
  "hex_pairs [] = Some []"
| "hex_pairs [c] = None"
| "hex_pairs (h # l # s) =
     (case hex_nibble h of
        None \<Rightarrow> None
      | Some hi \<Rightarrow>
          (case hex_nibble l of
             None \<Rightarrow> None
           | Some lo \<Rightarrow> map_option (Cons (push_bit 4 hi OR lo)) (hex_pairs s)))"

definition hex_decode :: "string \<Rightarrow> bytes option" where
  "hex_decode s = (if length s mod 2 \<noteq> 0 then None else hex_pairs s)"

subsection \<open>Tokens\<close>

definition token_message :: "string \<Rightarrow> nat \<Rightarrow> string" where
  "token_message snapshot_id expiry = snapshot_id @ ''.'' @ show_nat expiry"

definition sign :: "mac_fun \<Rightarrow> nat \<Rightarrow> bytes \<Rightarrow> string \<Rightarrow> nat \<Rightarrow> (presign_error, string) result" where
  "sign mac now key snapshot_id ttl_secs =
     (let expiry = min (now + ttl_secs) u64_max in
      case mac key (token_message snapshot_id expiry) of
        None \<Rightarrow> Inl PresignError
      | Some tag \<Rightarrow> Inr (show_nat expiry @ ''.'' @ hex_encode tag))"

definition verify :: "mac_fun \<Rightarrow> nat \<Rightarrow> bytes \<Rightarrow> string \<Rightarrow> string \<Rightarrow> bool" where
  "verify mac now key snapshot_id token =
     (case split_once (CHR ''.'') token of
        None \<Rightarrow> False
      | Some (expiry_str, tag_hex) \<Rightarrow>
          (case parse_u64 expiry_str of
             None \<Rightarrow> False
           | Some expiry \<Rightarrow>
               if now \<ge> expiry then False
               else
                 (case hex_decode tag_hex of
                    None \<Rightarrow> False
                  | Some tag \<Rightarrow>
                      if length tag \<noteq> TAG_LEN then False
                      else
                        (case mac key (token_message snapshot_id expiry) of
                           None \<Rightarrow> False
                         | Some expected \<Rightarrow> tag = expected))))"

subsection \<open>Round trips\<close>

lemma hex_nibble_digit [simp]: "d < 16 \<Longrightarrow> hex_nibble (hex_digit d) = Some (word_of_nat d)"
  by (drule less_sixteen) (auto simp: hex_nibble_def hex_digit_def Let_def)

lemma join_nibbles:
  assumes "l < 16"
  shows "push_bit 4 (word_of_nat h) OR word_of_nat l = (word_of_nat (h * 16 + l) :: 8 word)"
proof -
  have "push_bit 4 (of_nat h) OR of_nat l = (of_nat (push_bit 4 h OR l) :: 8 word)"
    by (simp add: of_nat_or_eq of_nat_push_bit)
  moreover have "push_bit 4 h AND take_bit 4 l = 0"
    by (simp add: bit_eq_iff bit_simps)
  then have "push_bit 4 h OR l = push_bit 4 h + l"
    using assms by (simp add: disjunctive_add_eq_or take_bit_nat_eq_self)
  ultimately show ?thesis by (simp add: push_bit_eq_mult)
qed

lemma hex_byte_round: "hex_pairs (hex_byte b @ s) = map_option (Cons b) (hex_pairs s)"
proof -
  have "unat b < 256" using unsigned_less [of b, where 'a = nat] by simp
  then have "unat b div 16 < 16" by simp
  then show ?thesis by (simp add: hex_byte_def join_nibbles option.map_ident)
qed

lemma hex_decode_encode: "hex_decode (hex_encode bs) = Some bs"
proof -
  have "length (hex_encode bs) = 2 * length bs"
    by (induction bs) (simp_all add: hex_encode_def hex_byte_def)
  moreover have "hex_pairs (hex_encode bs) = Some bs"
    by (induction bs) (simp_all add: hex_encode_def hex_byte_round)
  ultimately show ?thesis by (simp add: hex_decode_def)
qed

lemma split_token [simp]: "split_once (CHR ''.'') (show_nat n @ CHR ''.'' # r) = Some (show_nat n, r)"
  using plus_not_digit by (simp add: split_once_Some_iff)

lemma token_message_inj:
  assumes "token_message s n = token_message s' n'"
  shows "s = s'"
proof -
  from assms have "rev (token_message s n) = rev (token_message s' n')" by simp
  then have "rev (show_nat n) @ CHR ''.'' # rev s = rev (show_nat n') @ CHR ''.'' # rev s'"
    unfolding token_message_def rev_append by simp
  then have "split_once (CHR ''.'') (rev (show_nat n) @ CHR ''.'' # rev s) = Some (rev (show_nat n'), rev s')"
    using plus_not_digit(2) [of n'] by (simp add: split_once_Some_iff)
  moreover have "split_once (CHR ''.'') (rev (show_nat n) @ CHR ''.'' # rev s) = Some (rev (show_nat n), rev s)"
    using plus_not_digit(2) [of n] by (simp add: split_once_Some_iff)
  ultimately show ?thesis by simp
qed

text \<open>What the verifier accepts, spelled out.\<close>

definition accepts :: "mac_fun \<Rightarrow> nat \<Rightarrow> bytes \<Rightarrow> string \<Rightarrow> string \<Rightarrow> string \<Rightarrow> nat \<Rightarrow> bytes \<Rightarrow> bool" where
  "accepts mac now key snap e h n tag \<longleftrightarrow> parse_u64 e = Some n \<and> now < n \<and>
     hex_decode h = Some tag \<and> length tag = TAG_LEN \<and> mac key (token_message snap n) = Some tag"

lemma verify_iff:
  "verify mac now key snap token \<longleftrightarrow>
   (\<exists>e h n tag. split_once (CHR ''.'') token = Some (e, h) \<and> accepts mac now key snap e h n tag)"
proof (cases "split_once (CHR ''.'') token")
  case None
  then show ?thesis by (simp add: verify_def)
next
  case (Some eh)
  obtain e h where eh: "eh = (e, h)" by (cases eh)
  have "verify mac now key snap token \<longleftrightarrow> (\<exists>n tag. accepts mac now key snap e h n tag)"
    by (cases "parse_u64 e"; cases "hex_decode h")
      (auto simp: verify_def accepts_def Some eh split: option.split)
  with Some eh show ?thesis by simp
qed

subsection \<open>Properties\<close>

text \<open>A MAC of the right shape, to instantiate the parameter with.\<close>

definition one_tag :: mac_fun where
  "one_tag k m = Some (replicate 32 7)"

lemma one_tag_value [simp]: "one_tag k m = Some (replicate 32 7)"
  by (simp add: one_tag_def)

text \<open>C22: A token minted for a snapshot verifies for that snapshot exactly until its expiry, the
  minting time plus the lifetime (saturating at the largest \<open>u64\<close>), and from then on never.\<close>

theorem sign_then_verify:
  assumes "mac key (token_message snap (min (now + ttl) u64_max)) = Some tag" and "length tag = TAG_LEN"
  shows "\<exists>token. sign mac now key snap ttl = Inr token \<and>
    (\<forall>later. verify mac later key snap token \<longleftrightarrow> later < min (now + ttl) u64_max)"
  using assms by (auto simp: sign_def verify_def Let_def hex_decode_encode min_def)

theorem sign_then_verify_witness:
  "\<exists>token. sign one_tag 1000 [] ''snap'' EXPORT_TTL_SECS = Inr token \<and>
    (\<forall>later. verify one_tag later [] ''snap'' token \<longleftrightarrow> later < min (1000 + EXPORT_TTL_SECS) u64_max)"
  by (rule sign_then_verify [where tag = "replicate 32 7"]) (simp_all add: TAG_LEN_def)

text \<open>A token is bound to its snapshot: one token that verifies for two snapshots, at any two
  times, is a collision of the MAC under that key.\<close>

theorem token_bound_to_snapshot:
  assumes "verify mac now key snap token" and "verify mac now' key snap' token" and "snap \<noteq> snap'"
  shows "\<exists>m m'. m \<noteq> m' \<and> mac key m = mac key m' \<and> mac key m \<noteq> None"
proof -
  from assms(1,2) obtain e h n tag n2 tag2 where s: "split_once (CHR ''.'') token = Some (e, h)"
    and a: "accepts mac now key snap e h n tag" and b: "accepts mac now' key snap' e h n2 tag2"
    by (auto simp: verify_iff)
  from a b have "mac key (token_message snap n) = mac key (token_message snap' n)"
    and "mac key (token_message snap n) \<noteq> None" by (simp_all add: accepts_def)
  moreover have "token_message snap n \<noteq> token_message snap' n"
    using token_message_inj assms(3) by blast
  ultimately show ?thesis by blast
qed

theorem token_bound_to_snapshot_witness:
  "\<exists>m m'. m \<noteq> m' \<and> one_tag [] m = one_tag [] m' \<and> one_tag [] m \<noteq> None"
proof -
  have v: "verify one_tag 1 [] s (show_nat 9 @ CHR ''.'' # hex_encode (replicate 32 7))" for s
    by (simp add: verify_def hex_decode_encode TAG_LEN_def)
  show ?thesis
    by (rule token_bound_to_snapshot [OF v [of "''a''"] v [of "''b''"]]) simp
qed

text \<open>Verification is not exact on the token text: a valid token with a plus sign in front is
  accepted as well.\<close>

theorem verify_accepts_plus_sign:
  assumes "verify mac now key snap token" and "hd token \<noteq> CHR ''+''"
  shows "verify mac now key snap (CHR ''+'' # token)"
proof -
  from assms(1) obtain e h n tag where s: "split_once (CHR ''.'') token = Some (e, h)"
    and a: "accepts mac now key snap e h n tag" by (auto simp: verify_iff)
  from s assms(2) have "hd e \<noteq> CHR ''+'' \<or> e = []" by (cases e) (auto simp: split_once_Some_iff)
  with a have "accepts mac now key snap (CHR ''+'' # e) h n tag"
    by (auto simp: accepts_def parse_u64_def split: list.splits if_splits)
  moreover have "split_once (CHR ''.'') (CHR ''+'' # token) = Some (CHR ''+'' # e, h)" by (simp add: s)
  ultimately show ?thesis unfolding verify_iff by blast
qed

theorem verify_accepts_plus_sign_witness:
  "verify one_tag 1 [] ''snap'' (CHR ''+'' # show_nat 9 @ CHR ''.'' # hex_encode (replicate 32 7))"
proof (rule verify_accepts_plus_sign)
  show "verify one_tag 1 [] ''snap'' (show_nat 9 @ CHR ''.'' # hex_encode (replicate 32 7))"
    by (simp add: verify_def hex_decode_encode TAG_LEN_def)
  show "hd (show_nat 9 @ CHR ''.'' # hex_encode (replicate 32 7)) \<noteq> CHR ''+''"
    by (simp add: show_nat.simps digit_char_def)
qed

end
