(* ===== verification/Ingress_Handlers.thy ===== *)
theory Ingress_Handlers
  imports Ingress_Auth Ingress_Presign Ingestion_Writer Query_Engine
begin

text \<open>
  \<open>crates/ingress/src/{lib,suppression,catalog,producers,audience}.rs\<close>: the request handlers as
  state passing over the log of what they ask of the other parts: requests of the query engine,
  commands to the writer thread, and the calls of the freshness registry, the profiler, the
  retriever, the embedder, a producer and the file system. Each answer is the environment's
  choice, a function of the whole log. \<open>sha\<close>, \<open>mac\<close>, the UUID and RFC 3339 parsers and the JSON
  decoder of the DSL are parameters.
\<close>

subsection \<open>Events and the environment\<close>

datatype ingress_event =
    Engine_event request
  | Writer_event command
  | Freshness_event string string source_type int
  | Profile_event string string
  | Retrieve_event string nat string
  | Entry_event string string string string
  | Embed_event string
  | Producer_event string string
  | Read_file_event string
  | Remove_file_event string

type_synonym event_log = "ingress_event list"

datatype profile_outcome = Profile_timeout | Profile_failed core_error | Profile_rows "catalog_row list"

record ingress_env =
  ig_engine :: "event_log \<Rightarrow> env"
  ig_count :: "event_log \<Rightarrow> (core_error, nat) result"
  ig_profile :: "event_log \<Rightarrow> profile_outcome"
  ig_retrieve :: "event_log \<Rightarrow> (core_error, catalog_hit list) result"
  ig_entry :: "event_log \<Rightarrow> (core_error, catalog_row option) result"
  ig_embed :: "event_log \<Rightarrow> (msg, nat list) result"
  ig_producer :: "string \<Rightarrow> (event_log \<Rightarrow> (core_error, feature_row list) result) option"
  ig_file :: "event_log \<Rightarrow> (msg, bytes) result"
  ig_now :: "event_log \<Rightarrow> int"
  ig_unix_secs :: "event_log \<Rightarrow> nat"
  ig_utc_now :: "event_log \<Rightarrow> string"
  ig_uuid :: "event_log \<Rightarrow> string"
  ig_temp_dir :: string

record parsers =
  ps_sha :: "string \<Rightarrow> hash"
  ps_mac :: mac_fun
  ps_uuid :: "string \<Rightarrow> bool"
  ps_rfc3339 :: "string \<Rightarrow> bool"
  ps_segment :: "json \<Rightarrow> (msg, segment_query) result"

record app_state =
  st_engine :: query_engine
  st_signing_key :: bytes
  st_sql_approval_hash :: "hash option"

type_synonym 'a api = "(ingress_event, api_error, 'a) logged"

text \<open>A call of the query engine, its requests recorded in order.\<close>

definition engine_call :: "ingress_env \<Rightarrow> (env \<Rightarrow> 'a eng) \<Rightarrow> 'a api" where
  "engine_call env m log =
     (let (r, reqs) = m (ig_engine env log) [] in (map_err Query r, log @ map Engine_event reqs))"

definition send :: "ingress_env \<Rightarrow> command \<Rightarrow> nat api" where
  "send env cmd = ebind (ask (Writer_event cmd) (ig_count env)) (\<lambda>r. elift (map_err Core r))"

definition bad_request :: "msg \<Rightarrow> api_error" where
  "bad_request m = Core (InvalidInput m)"

definition demand :: "bool \<Rightarrow> msg \<Rightarrow> unit api" where
  "demand b m = elift (guard b (bad_request m))"

definition check_ident :: "string \<Rightarrow> unit api" where
  "check_ident s = elift (map_err Core (validate_ident s))"

subsection \<open>Onboarding\<close>

definition MAX_ONBOARD_ROWS :: nat where "MAX_ONBOARD_ROWS = 200000"
definition MAX_COLUMNS :: nat where "MAX_COLUMNS = 1024"
definition MAX_SQL_BYTES :: nat where "MAX_SQL_BYTES = 8192"
definition MAX_CELL_BYTES :: nat where "MAX_CELL_BYTES = 4096"

record onboard_request =
  ob_system :: string
  ob_entity :: string
  ob_columns :: "string list"
  ob_rows :: "cell_row list"
  ob_source_type :: "string option"

record onboard_response =
  or_rows_inserted :: nat
  or_profiled :: bool
  or_columns :: "string list"

definition parse_source_type :: "string option \<Rightarrow> (api_error, source_type) result" where
  "parse_source_type s =
     (case s of
        None \<Rightarrow> Inr Batch
      | Some other \<Rightarrow>
          if other = ''batch'' then Inr Batch
          else if other = ''cdc'' then Inr Cdc
          else Inl (bad_request (Msg ''unknown sourceType {other:?}'' [AStr other])))"

definition check_row :: "nat \<Rightarrow> nat \<times> cell_row \<Rightarrow> unit api" where
  "check_row expected r =
     (let (i, row) = r in
      ebind (demand (\<not> length row \<noteq> expected)
        (Msg ''row {i} has {} cells, expected {expected}'' [ANat i, ANat (length row), ANat expected])) (\<lambda>_.
      eeach (\<lambda>cell. demand (\<not> length cell > MAX_CELL_BYTES)
        (Msg ''row {i} cell exceeds {MAX_CELL_BYTES} bytes'' [ANat i, ANat MAX_CELL_BYTES]))
        (List.map_filter (\<lambda>c. c) row)))"

definition check_onboard :: "onboard_request \<Rightarrow> unit api" where
  "check_onboard req =
     ebind (check_ident (ob_system req)) (\<lambda>_.
     ebind (check_ident (ob_entity req)) (\<lambda>_.
     ebind (demand (\<not> ob_columns req = []) (Msg ''columns must not be empty'' [])) (\<lambda>_.
     ebind (demand (\<not> length (ob_columns req) > MAX_COLUMNS)
       (Msg ''columns exceed cap of {MAX_COLUMNS}'' [ANat MAX_COLUMNS])) (\<lambda>_.
     ebind (eeach check_ident (ob_columns req)) (\<lambda>_.
     ebind (demand (\<not> length (ob_rows req) > MAX_ONBOARD_ROWS)
       (Msg ''rows exceed cap of {MAX_ONBOARD_ROWS}'' [ANat MAX_ONBOARD_ROWS])) (\<lambda>_.
     eeach (check_row (length (ob_columns req))) (enumerate 0 (ob_rows req))))))))"

text \<open>The profiling step: every failure degrades to "not profiled".\<close>

definition profile_step ::
  "ingress_env \<Rightarrow> onboard_request \<Rightarrow> string \<Rightarrow> int \<Rightarrow> (bool \<times> string list) api"
where
  "profile_step env req tenant epoch =
     ebind (ask (Profile_event (ob_system req) (ob_entity req)) (ig_profile env)) (\<lambda>out.
     case out of
       Profile_rows rows \<Rightarrow>
         (let rows = map (\<lambda>r. r\<lparr>ca_source_epoch := epoch\<rparr>) rows;
              cols = List.map_filter ca_column_name rows
          in ebind (ask (Writer_event (WriteCatalog rows tenant)) (ig_count env)) (\<lambda>r.
             eret (if is_ok r then (True, cols) else (False, []))))
     | _ \<Rightarrow> eret (False, []))"

definition onboard :: "ingress_env \<Rightarrow> string \<Rightarrow> onboard_request \<Rightarrow> onboard_response api" where
  "onboard env tenant req =
     ebind (check_onboard req) (\<lambda>_.
     ebind (send env (IngestRaw (ob_system req) (ob_entity req) (ob_columns req) (ob_rows req) tenant)) (\<lambda>n.
     ebind (elift (parse_source_type (ob_source_type req))) (\<lambda>source_type.
     ebind (peek (ig_now env)) (\<lambda>ingest_epoch.
     ebind (check_ident (ob_system req)) (\<lambda>_.
     ebind (check_ident (ob_entity req)) (\<lambda>_.
     ebind (ask (Freshness_event (ob_system req) (ob_entity req) source_type ingest_epoch) (\<lambda>_. ())) (\<lambda>_.
     ebind (profile_step env req tenant ingest_epoch) (\<lambda>(profiled, columns).
     eret \<lparr>or_rows_inserted = n, or_profiled = profiled, or_columns = columns\<rparr>))))))))"

subsection \<open>Querying\<close>

record query_request =
  qu_dsl :: "json option"
  qu_sql :: "string option"
  qu_approval_token :: "string option"

definition sql_approved :: "parsers \<Rightarrow> app_state \<Rightarrow> query_request \<Rightarrow> bool" where
  "sql_approved ps st req =
     (case (st_sql_approval_hash st, qu_approval_token req) of
        (Some expected, Some provided) \<Rightarrow> expected = ps_sha ps provided
      | _ \<Rightarrow> False)"

text \<open>The UTF-8 bytes of the dash in a message.\<close>

definition em_dash :: string where
  "em_dash = [CHR 0xE2, CHR 0x80, CHR 0x94]"

definition query_handler ::
  "parsers \<Rightarrow> ingress_env \<Rightarrow> app_state \<Rightarrow> string \<Rightarrow> query_request \<Rightarrow> sync_result api"
where
  "query_handler ps env st tenant req =
     (case (qu_dsl req, qu_sql req) of
        (Some dsl, _) \<Rightarrow>
          engine_call env (\<lambda>e. run_query (ps_segment ps) (ps_rfc3339 ps) e (st_engine st) dsl tenant)
      | (None, Some sql) \<Rightarrow>
          ebind (demand (\<not> length sql > MAX_SQL_BYTES)
            (Msg ''sql exceeds {MAX_SQL_BYTES} bytes'' [ANat MAX_SQL_BYTES])) (\<lambda>_.
          if \<not> sql_approved ps st req then efail Unauthorized
          else engine_call env (\<lambda>e. run_sql_approved e (st_engine st) sql tenant))
      | (None, None) \<Rightarrow>
          efail (bad_request (Msg (''provide a 'dsl' (or 'sql' with an approval token '' @ em_dash @ '' not enabled in M1)'') [])))"

subsection \<open>Writing outcomes back\<close>

definition MAX_FIELD_BYTES :: nat where "MAX_FIELD_BYTES = 256"

record suppression_request =
  su_suppression_id :: "string option"
  su_campaign_id :: string
  su_user_id :: string
  su_channel :: string
  su_action :: string
  su_occurred_ts :: string

definition post_suppression :: "parsers \<Rightarrow> ingress_env \<Rightarrow> string \<Rightarrow> suppression_request \<Rightarrow> string api" where
  "post_suppression ps env tenant req =
     ebind (check_ident (su_campaign_id req)) (\<lambda>_.
     ebind (check_ident (su_user_id req)) (\<lambda>_.
     ebind (elift (map_err Core (channel_parse (su_channel req)))) (\<lambda>channel.
     ebind (elift (map_err Core (action_parse (su_action req)))) (\<lambda>action.
     ebind (demand (ps_rfc3339 ps (su_occurred_ts req)) (Msg ''occurredTs must be ISO-8601 UTC'' [])) (\<lambda>_.
     ebind (eeach (\<lambda>s. demand (\<not> length s > MAX_FIELD_BYTES)
         (Msg ''field exceeds {MAX_FIELD_BYTES} bytes'' [ANat MAX_FIELD_BYTES]))
       [su_campaign_id req, su_user_id req, su_occurred_ts req]) (\<lambda>_.
     ebind (elift (ok_or (bad_request
         (Msg ''suppressionId is required (client-supplied dedupe key for idempotent retry)'' []))
       (su_suppression_id req))) (\<lambda>suppression_id.
     ebind (demand (ps_uuid ps suppression_id)
       (Msg ''suppressionId must be a UUID (required for idempotent retry)'' [])) (\<lambda>_.
     ebind (peek (ig_utc_now env)) (\<lambda>received_ts.
     ebind (send env (WriteSuppression
         [\<lparr>sr_suppression_id = suppression_id, sr_campaign_id = su_campaign_id req, sr_user_id = su_user_id req,
           sr_channel = channel, sr_action = action, sr_occurred_ts = su_occurred_ts req,
           sr_received_ts = received_ts\<rparr>] tenant)) (\<lambda>_.
     eret suppression_id))))))))))"

subsection \<open>The catalogue\<close>

definition MAX_Q_BYTES :: nat where "MAX_Q_BYTES = 1024"
definition DEFAULT_K :: nat where "DEFAULT_K = 20"
definition MAX_K :: nat where "MAX_K = 50"
definition MAX_DESCRIPTION_BYTES :: nat where "MAX_DESCRIPTION_BYTES = 2048"

record catalog_query =
  cy_q :: "string option"
  cy_k :: "nat option"

definition get_catalog :: "ingress_env \<Rightarrow> string \<Rightarrow> catalog_query \<Rightarrow> catalog_hit list api" where
  "get_catalog env tenant q =
     (let utterance = (case cy_q q of None \<Rightarrow> [] | Some s \<Rightarrow> s) in
      ebind (demand (\<not> length utterance > MAX_Q_BYTES) (Msg ''q exceeds {MAX_Q_BYTES} bytes'' [ANat MAX_Q_BYTES])) (\<lambda>_.
      ebind (case cy_k q of
               Some k \<Rightarrow>
                 if 1 \<le> k \<and> k \<le> MAX_K then eret k
                 else efail (bad_request (Msg ''k must be 1..={MAX_K}, got {k}'' [ANat MAX_K, ANat k]))
             | None \<Rightarrow> eret DEFAULT_K) (\<lambda>k.
      ebind (ask (Retrieve_event utterance k tenant) (ig_retrieve env)) (\<lambda>r.
      elift (map_err Core r)))))"

record edit_catalog_request =
  ed_system :: string
  ed_table_name :: string
  ed_column_name :: string
  ed_description :: string

definition put_catalog :: "ingress_env \<Rightarrow> string \<Rightarrow> edit_catalog_request \<Rightarrow> unit api" where
  "put_catalog env tenant req =
     ebind (check_ident (ed_system req)) (\<lambda>_.
     ebind (check_ident (ed_table_name req)) (\<lambda>_.
     ebind (check_ident (ed_column_name req)) (\<lambda>_.
     ebind (demand (\<not> (ed_description req = [] \<or> length (ed_description req) > MAX_DESCRIPTION_BYTES))
       (Msg ''description must be 1..={MAX_DESCRIPTION_BYTES} bytes'' [ANat MAX_DESCRIPTION_BYTES])) (\<lambda>_.
     ebind (ask (Entry_event (ed_system req) (ed_table_name req) (ed_column_name req) tenant) (ig_entry env)) (\<lambda>r.
     ebind (elift (map_err Core r)) (\<lambda>entry.
     ebind (elift (ok_or NotFound entry)) (\<lambda>row.
     ebind (ask (Embed_event (ed_description req)) (ig_embed env)) (\<lambda>r.
     ebind (elift (map_err (\<lambda>e. Core (Execution (Msg ''embed: {e}'' [AMsg e]))) r)) (\<lambda>embedding.
     ebind (peek (ig_now env)) (\<lambda>now.
     ebind (send env (WriteCatalog
         [row\<lparr>ca_description := ed_description req, ca_embedding := embedding,
              ca_source_epoch := max now (wrap_i64 (ca_source_epoch row + 1))\<rparr>] tenant)) (\<lambda>_.
     eret ())))))))))))"

subsection \<open>Producers\<close>

definition MAX_AS_OF_BYTES :: nat where "MAX_AS_OF_BYTES = 64"

record run_producer_request =
  rp_producer_id :: string
  rp_as_of :: "string option"

text \<open>\<open>IngestionHandle::run_producer\<close>: the producer reads, then the writer stores its rows.\<close>

definition run_producer :: "ingress_env \<Rightarrow> string \<Rightarrow> string \<Rightarrow> string \<Rightarrow> nat api" where
  "run_producer env pid as_of tenant =
     (case ig_producer env pid of
        None \<Rightarrow> efail (bad_request (Msg ''unknown producer {id:?}'' [AStr pid]))
      | Some run \<Rightarrow>
          ebind (ask (Producer_event pid as_of) run) (\<lambda>r.
          ebind (elift (map_err Core r)) (\<lambda>rows.
          send env (WriteFeatures rows tenant))))"

definition post_run_producer :: "ingress_env \<Rightarrow> string \<Rightarrow> run_producer_request \<Rightarrow> nat api" where
  "post_run_producer env tenant req =
     ebind (elift (map_err Core (validate_feature_name (rp_producer_id req)))) (\<lambda>_.
     ebind (demand (\<not> (case rp_as_of req of None \<Rightarrow> False | Some a \<Rightarrow> length a > MAX_AS_OF_BYTES))
       (Msg ''asOf exceeds {MAX_AS_OF_BYTES} bytes'' [ANat MAX_AS_OF_BYTES])) (\<lambda>_.
     ebind (case rp_as_of req of None \<Rightarrow> peek (ig_utc_now env) | Some a \<Rightarrow> eret a) (\<lambda>as_of.
     run_producer env (rp_producer_id req) as_of tenant)))"

subsection \<open>Audiences\<close>

record audience_response =
  ar_snapshot_id :: string
  ar_campaign_id :: string
  ar_as_of_ts :: string
  ar_row_count :: nat
  ar_download_url :: string

definition parse_snap_id :: "parsers \<Rightarrow> string \<Rightarrow> (api_error, string) result" where
  "parse_snap_id ps snap =
     rbind (ok_or (bad_request (Msg ''invalid snapshot id'' [])) (strip_prefix ''snap_'' snap)) (\<lambda>rest.
     rbind (guard (ps_uuid ps rest) (bad_request (Msg ''invalid snapshot id'' []))) (\<lambda>_.
     Inr rest))"

definition snapshot_of :: "ingress_env \<Rightarrow> app_state \<Rightarrow> string \<Rightarrow> string \<Rightarrow> snapshot_meta_row option api" where
  "snapshot_of env st bare tenant = engine_call env (\<lambda>e. snapshot_meta e (st_engine st) bare tenant)"

definition get_audience :: "parsers \<Rightarrow> ingress_env \<Rightarrow> app_state \<Rightarrow> string \<Rightarrow> string \<Rightarrow> audience_response api" where
  "get_audience ps env st tenant snap =
     ebind (elift (parse_snap_id ps snap)) (\<lambda>bare.
     ebind (snapshot_of env st bare tenant) (\<lambda>found.
     ebind (elift (ok_or NotFound found)) (\<lambda>meta.
     ebind (peek (ig_unix_secs env)) (\<lambda>now.
     ebind (elift (map_err (\<lambda>_. bad_request (Msg ''signing failure'' []))
       (sign (ps_mac ps) now (st_signing_key st) bare EXPORT_TTL_SECS))) (\<lambda>token.
     eret \<lparr>ar_snapshot_id = snap, ar_campaign_id = me_campaign_id meta, ar_as_of_ts = me_as_of_ts meta,
           ar_row_count = me_row_count meta,
           ar_download_url = ''/audience/'' @ snap @ ''/export?format=parquet&token='' @ token\<rparr>)))))"

record export_query =
  xq_format :: "string option"
  xq_token :: "string option"

text \<open>The body of a successful reply; the headers only repeat \<open>bare\<close>.\<close>

definition get_export :: "parsers \<Rightarrow> ingress_env \<Rightarrow> app_state \<Rightarrow> string \<Rightarrow> string \<Rightarrow> export_query \<Rightarrow> bytes api" where
  "get_export ps env st tenant snap q =
     (if xq_format q \<noteq> Some ''parquet'' then efail UnsupportedFormat
      else
        ebind (elift (parse_snap_id ps snap)) (\<lambda>bare.
        ebind (peek (ig_unix_secs env)) (\<lambda>now.
        let token = (case xq_token q of None \<Rightarrow> [] | Some t \<Rightarrow> t) in
        if \<not> verify (ps_mac ps) now (st_signing_key st) bare token then efail Unauthorized
        else
          ebind (snapshot_of env st bare tenant) (\<lambda>found.
          if found = None then efail NotFound
          else
            ebind (peek (ig_uuid env)) (\<lambda>uuid.
            let dest = ig_temp_dir env @ ''/ce-export-'' @ bare @ ''-'' @ uuid in
            ebind (send env (ExportParquet bare dest)) (\<lambda>_.
            ebind (ask (Read_file_event dest) (ig_file env)) (\<lambda>r.
            ebind (elift (map_err (\<lambda>e. Core (Execution e)) r)) (\<lambda>body.
            ebind (ask (Remove_file_event dest) (\<lambda>_. ())) (\<lambda>_.
            eret body)))))))))"

end
