(* ===== verification/Ingress_Spec.thy ===== *)
theory Ingress_Spec
  imports Ingress_Handlers Query_Guards
begin

text \<open>
  Properties of the request handlers: nothing is asked of the other parts before the body has
  been validated, everything asked is asked for the authenticated tenant, and the guarded
  operations (raw SQL, the export of a snapshot) happen only behind their guard.
\<close>

subsection \<open>Contracts of the calls\<close>

text \<open>An event made for a tenant. The engine's statements are scoped (\<open>scoped_request\<close>); a Parquet
  export names a snapshot, which \<open>export_needs_token_and_owner\<close> is about.\<close>

fun event_for :: "string \<Rightarrow> ingress_event \<Rightarrow> bool" where
  "event_for t (Engine_event r) \<longleftrightarrow> scoped_request t r"
| "event_for t (Writer_event c) \<longleftrightarrow> command_tenant c = Some t"
| "event_for t (Retrieve_event u k t') \<longleftrightarrow> t' = t \<and> 1 \<le> k \<and> k \<le> MAX_K \<and> length u \<le> MAX_Q_BYTES"
| "event_for t (Entry_event sys tab col t') \<longleftrightarrow> t' = t"
| "event_for t ev \<longleftrightarrow> True"

lemma ensures_engine_call:
  assumes "\<And>e. ensures P (m e) Q"
  shows "ensures (\<lambda>ev. \<exists>r. ev = Engine_event r \<and> P r) (engine_call env m) Q"
  unfolding ensures_def
proof (rule allI)
  fix log
  from assms [of "ig_engine env log"] obtain reqs where r: "snd (m (ig_engine env log) []) = reqs" "list_all P reqs"
    "\<And>x. fst (m (ig_engine env log) []) = Inr x \<Longrightarrow> Q x"
    unfolding ensures_def by (metis append_Nil)
  show "(\<exists>evs. snd (engine_call env m log) = log @ evs \<and> list_all (\<lambda>ev. \<exists>r. ev = Engine_event r \<and> P r) evs) \<and>
      (\<forall>x. fst (engine_call env m log) = Inr x \<longrightarrow> Q x)"
    using r by (auto simp: engine_call_def case_prod_unfold Let_def list_all_iff)
qed

lemma ensures_mono: "ensures P m Q \<Longrightarrow> (\<And>ev. P ev \<Longrightarrow> P' ev) \<Longrightarrow> ensures P' m Q"
  unfolding ensures_def list_all_iff by metis

lemma ensures_send: "P (Writer_event c) \<Longrightarrow> ensures P (send env c) (\<lambda>_. True)"
  unfolding send_def by (rule ensures_seq [OF ensures_ask]) (auto intro: ensures_elift)

lemma ensures_demand: "ensures P (demand b m) (\<lambda>_. b)"
  unfolding demand_def by (rule ensures_elift) simp

lemma ensures_check_ident: "ensures P (check_ident s) (\<lambda>_. True)"
  unfolding check_ident_def by (rule ensures_elift) simp

lemmas handler_contracts = ensures_seq ensures_eret ensures_efail ensures_elift ensures_ask ensures_peek
  ensures_send ensures_check_ident ensures_eeach

lemma demand_seq: "(b \<Longrightarrow> ensures P (f ()) R) \<Longrightarrow> ensures P (ebind (demand b m) f) R"
  by (rule ensures_ebind [OF ensures_demand]) simp

lemma ensures_demand_any: "ensures P (demand b m) (\<lambda>_. True)"
  by (rule ensures_weaken [OF ensures_demand]) simp

lemma ensures_onboard: "ensures (event_for t) (onboard env t req) (\<lambda>_. True)"
  unfolding onboard_def check_onboard_def check_row_def profile_step_def Let_def
  by (intro handler_contracts ensures_demand_any)
    (auto split: prod.split profile_outcome.split intro!: handler_contracts ensures_demand_any)

lemma ensures_suppression: "ensures (event_for t) (post_suppression ps env t req) (\<lambda>_. True)"
  unfolding post_suppression_def by (intro handler_contracts ensures_demand_any) simp_all

lemma ensures_get_catalog: "ensures (event_for t) (get_catalog env t q) (\<lambda>_. True)"
proof -
  have k: "ensures (event_for t) (case cy_k q of
               Some k \<Rightarrow> if 1 \<le> k \<and> k \<le> MAX_K then eret k
                 else efail (bad_request (Msg ''k must be 1..={MAX_K}, got {k}'' [ANat MAX_K, ANat k]))
             | None \<Rightarrow> eret DEFAULT_K) (\<lambda>k. 1 \<le> k \<and> k \<le> MAX_K)"
    by (auto split: option.split intro!: ensures_eret ensures_efail simp: DEFAULT_K_def MAX_K_def)
  show ?thesis
    unfolding get_catalog_def Let_def
    by (rule demand_seq, rule ensures_ebind [OF k]) (auto intro!: handler_contracts)
qed

lemma ensures_put_catalog: "ensures (event_for t) (put_catalog env t req) (\<lambda>_. True)"
  unfolding put_catalog_def by (intro handler_contracts ensures_demand_any) simp_all

lemma ensures_producer: "ensures (event_for t) (post_run_producer env t req) (\<lambda>_. True)"
  unfolding post_run_producer_def run_producer_def
  by (auto split: option.split intro!: handler_contracts ensures_demand_any)

lemma ensures_dsl: "ensures (scoped_request t) (run_query from_value rfc3339 e eng dsl t) (\<lambda>_. True)"
proof -
  have "ensures (scoped_request t) (run_sync e eng q t) (\<lambda>_. True)" if "parse from_value rfc3339 dsl = Inr q" for q
  proof -
    from that have "wf_segment rfc3339 q"
      by (auto simp: parse_def rbind_Inr_iff wf_segment_def validate_ok_aux)
    then show ?thesis by (rule ensures_weaken [OF ensures_run_sync]) simp
  qed
  then show ?thesis
    unfolding run_query_def by (intro ensures_ebind [where Q = "\<lambda>q. parse from_value rfc3339 dsl = Inr q", OF ensures_elift]) auto
qed

lemma ensures_query_dsl:
  "qu_dsl req = Some dsl \<Longrightarrow> ensures (event_for t) (query_handler ps env st t req) (\<lambda>_. True)"
  unfolding query_handler_def
  by (auto intro!: ensures_mono [OF ensures_engine_call [OF ensures_dsl]])

lemma ensures_snapshot_of:
  "ensures (\<lambda>ev. \<exists>r. ev = Engine_event r \<and>
     r = Read_request snapshot_meta_sql [VText bare, VText t]) (snapshot_of env st bare t) (\<lambda>_. True)"
  unfolding snapshot_of_def snapshot_meta_def
  by (intro ensures_engine_call ensures_seq [OF ensures_timed_read]) (auto split: list.split intro: ensures_eret)

lemma ensures_evs: "ensures P m Q \<Longrightarrow> \<exists>evs. snd (m log) = log @ evs \<and> list_all P evs"
  unfolding ensures_def by blast

subsection \<open>Tenants\<close>

text \<open>Whatever the body says and whatever the other parts answer, every event a handler of
  the write path, of the catalogue or of the DSL path causes is for the tenant the middleware
  resolved: each command carries it, each retrieval is limited to it (and to 50 candidates for at
  most 1024 bytes of text), and each statement is scoped to it.\<close>

theorem handlers_act_for_tenant:
  "(\<exists>evs. snd (onboard env t ob log) = log @ evs \<and> list_all (event_for t) evs) \<and>
   (\<exists>evs. snd (query_handler ps env st t \<lparr>qu_dsl = Some dsl, qu_sql = sql, qu_approval_token = tok\<rparr> log) = log @ evs \<and>
      list_all (event_for t) evs) \<and>
   (\<exists>evs. snd (post_suppression ps env t su log) = log @ evs \<and> list_all (event_for t) evs) \<and>
   (\<exists>evs. snd (get_catalog env t cy log) = log @ evs \<and> list_all (event_for t) evs) \<and>
   (\<exists>evs. snd (put_catalog env t ed log) = log @ evs \<and> list_all (event_for t) evs) \<and>
   (\<exists>evs. snd (post_run_producer env t rp log) = log @ evs \<and> list_all (event_for t) evs)"
proof -
  have "ensures (event_for t) (query_handler ps env st t \<lparr>qu_dsl = Some dsl, qu_sql = sql, qu_approval_token = tok\<rparr>) (\<lambda>_. True)"
    by (rule ensures_query_dsl) simp
  then show ?thesis
    by (intro conjI ensures_evs [OF ensures_onboard] ensures_evs [OF ensures_suppression] ensures_evs [OF ensures_get_catalog]
        ensures_evs [OF ensures_put_catalog] ensures_evs [OF ensures_producer] ensures_evs)
qed

subsection \<open>Validation comes first\<close>

text \<open>Checks: they never touch the log, and fail with a 400 only.\<close>

definition is_check :: "unit api \<Rightarrow> bool \<Rightarrow> bool" where
  "is_check m b \<longleftrightarrow> (\<forall>log. (b \<longrightarrow> m log = (Inr (), log)) \<and> (\<not> b \<longrightarrow> (\<exists>e. m log = (Inl (bad_request e), log))))"

lemma is_check_demand: "is_check (demand b m) b"
  by (auto simp: is_check_def demand_def elift_def guard_def)

lemma is_check_ident: "is_check (check_ident s) (IDENT_RE s)"
  by (simp add: is_check_def check_ident_def elift_def validate_ident_def bad_request_def)

lemma is_check_seq:
  assumes m: "is_check m b" and f: "is_check (f ()) c"
  shows "is_check (ebind m f) (b \<and> c)"
  unfolding is_check_def
proof (rule allI)
  fix log
  show "(b \<and> c \<longrightarrow> ebind m f log = (Inr (), log)) \<and>
      (\<not> (b \<and> c) \<longrightarrow> (\<exists>e. ebind m f log = (Inl (bad_request e), log)))"
  proof (cases b)
    case True
    with m have "ebind m f log = f () log" by (simp add: is_check_def ebind_def)
    with True f show ?thesis by (simp add: is_check_def)
  next
    case False
    with m obtain e where "m log = (Inl (bad_request e), log)" by (auto simp: is_check_def)
    with False show ?thesis by (auto simp: ebind_def)
  qed
qed

lemma is_check_each: "(\<And>x. x \<in> set xs \<Longrightarrow> is_check (f x) (P x)) \<Longrightarrow> is_check (eeach f xs) (\<forall>x \<in> set xs. P x)"
proof (induction xs)
  case Nil
  then show ?case by (simp add: is_check_def eret_def)
next
  case (Cons x xs)
  then have "is_check (ebind (f x) (\<lambda>_. eeach f xs)) (P x \<and> (\<forall>x \<in> set xs. P x))"
    by (intro is_check_seq) simp_all
  then show ?case by simp
qed

definition row_ok :: "nat \<Rightarrow> cell_row \<Rightarrow> bool" where
  "row_ok expected row \<longleftrightarrow> length row = expected \<and> (\<forall>cell. Some cell \<in> set row \<longrightarrow> length cell \<le> MAX_CELL_BYTES)"

definition onboard_ok :: "onboard_request \<Rightarrow> bool" where
  "onboard_ok req \<longleftrightarrow> IDENT_RE (ob_system req) \<and> IDENT_RE (ob_entity req) \<and> ob_columns req \<noteq> [] \<and>
     length (ob_columns req) \<le> MAX_COLUMNS \<and> (\<forall>c \<in> set (ob_columns req). IDENT_RE c) \<and>
     length (ob_rows req) \<le> MAX_ONBOARD_ROWS \<and> (\<forall>row \<in> set (ob_rows req). row_ok (length (ob_columns req)) row)"

lemma is_check_row: "is_check (check_row n (i, row)) (row_ok n row)"
proof -
  have "is_check (check_row n (i, row))
    (\<not> length row \<noteq> n \<and> (\<forall>c \<in> set (List.map_filter (\<lambda>c. c) row). \<not> length c > MAX_CELL_BYTES))"
    unfolding check_row_def Let_def prod.case
    by (intro is_check_seq is_check_each is_check_demand)
  moreover have "set (List.map_filter (\<lambda>c. c) row) = {c. Some c \<in> set row}"
    by (force simp: List.map_filter_def)
  ultimately show ?thesis by (simp add: row_ok_def not_less)
qed

lemma is_check_onboard: "is_check (check_onboard req) (onboard_ok req)"
proof -
  have r: "(\<forall>r \<in> set (enumerate 0 (ob_rows req)). row_ok n (snd r)) \<longleftrightarrow> (\<forall>row \<in> set (ob_rows req). row_ok n row)" for n
    by (metis (no_types, lifting) enumerate_eq_zip in_set_zip length_map map_snd_enumerate image_iff list.set_map)
  have "is_check (check_row n r) (row_ok n (snd r))" for n r
    using is_check_row [of n "fst r" "snd r"] by simp
  then have "is_check (check_onboard req) (IDENT_RE (ob_system req) \<and> IDENT_RE (ob_entity req) \<and> \<not> ob_columns req = [] \<and>
     \<not> length (ob_columns req) > MAX_COLUMNS \<and> (\<forall>c \<in> set (ob_columns req). IDENT_RE c) \<and>
     \<not> length (ob_rows req) > MAX_ONBOARD_ROWS \<and> (\<forall>r \<in> set (enumerate 0 (ob_rows req)). row_ok (length (ob_columns req)) (snd r)))"
    unfolding check_onboard_def by (intro is_check_seq is_check_each is_check_demand is_check_ident)
  then show ?thesis by (simp add: r onboard_ok_def not_less)
qed

definition ingest_command :: "string \<Rightarrow> onboard_request \<Rightarrow> command" where
  "ingest_command t req = IngestRaw (ob_system req) (ob_entity req) (ob_columns req) (ob_rows req) t"

text \<open>What follows a successful ingest.\<close>

definition after_ingest :: "ingress_env \<Rightarrow> string \<Rightarrow> onboard_request \<Rightarrow> nat \<Rightarrow> onboard_response api" where
  "after_ingest env t req n =
     ebind (elift (parse_source_type (ob_source_type req))) (\<lambda>source_type.
     ebind (peek (ig_now env)) (\<lambda>ingest_epoch.
     ebind (check_ident (ob_system req)) (\<lambda>_.
     ebind (check_ident (ob_entity req)) (\<lambda>_.
     ebind (ask (Freshness_event (ob_system req) (ob_entity req) source_type ingest_epoch) (\<lambda>_. ())) (\<lambda>_.
     ebind (profile_step env req t ingest_epoch) (\<lambda>(profiled, columns).
     eret \<lparr>or_rows_inserted = n, or_profiled = profiled, or_columns = columns\<rparr>))))))"

lemma onboard_checked:
  "onboard env t req log =
     (case check_onboard req log of
        (Inl e, l) \<Rightarrow> (Inl e, l)
      | (Inr u, l) \<Rightarrow> ebind (send env (ingest_command t req)) (after_ingest env t req) l)"
  unfolding onboard_def ingest_command_def after_ingest_def ebind_def [of "check_onboard req"] by (rule refl)

lemma ensures_after_ingest: "ensures (event_for t) (after_ingest env t req n) (\<lambda>_. True)"
  unfolding after_ingest_def profile_step_def Let_def
  by (intro handler_contracts) (auto split: prod.split profile_outcome.split intro!: handler_contracts)

lemma ebind_send:
  "ebind (send env c) f log =
     (case ig_count env (log @ [Writer_event c]) of
        Inl e \<Rightarrow> (Inl (Core e), log @ [Writer_event c])
      | Inr n \<Rightarrow> f n (log @ [Writer_event c]))"
  by (simp add: send_def ebind_def ask_def elift_def split: sum.split)


text \<open>The label of the source is read too late: a valid body with an unknown \<open>sourceType\<close> is
  refused with a 400 after its rows have been handed to the writer, so that the caller who
  corrects the label and tries again inserts them twice.\<close>

theorem onboard_bad_source_type_ingests:
  assumes "onboard_ok req" and "ob_source_type req = Some s" and "s \<noteq> ''batch''" and "s \<noteq> ''cdc''"
    and "ig_count env (log @ [Writer_event (ingest_command t req)]) = Inr n"
  shows "onboard env t req log =
    (Inl (bad_request (Msg ''unknown sourceType {other:?}'' [AStr s])), log @ [Writer_event (ingest_command t req)])"
proof -
  have "check_onboard req log = (Inr (), log)"
    using is_check_onboard [of req] assms(1) by (simp add: is_check_def)
  with assms(2-5) show ?thesis
    by (simp add: onboard_checked send_def ask_def after_ingest_def parse_source_type_def ebind_def elift_def)
qed

subsection \<open>Writing outcomes back\<close>

definition suppression_ok :: "parsers \<Rightarrow> suppression_request \<Rightarrow> bool" where
  "suppression_ok ps req \<longleftrightarrow> IDENT_RE (su_campaign_id req) \<and> IDENT_RE (su_user_id req) \<and>
     is_ok (channel_parse (su_channel req)) \<and> is_ok (action_parse (su_action req)) \<and>
     ps_rfc3339 ps (su_occurred_ts req) \<and> length (su_occurred_ts req) \<le> MAX_FIELD_BYTES \<and>
     (\<exists>sid. su_suppression_id req = Some sid \<and> ps_uuid ps sid)"

definition written :: "suppression_request \<Rightarrow> string \<Rightarrow> suppression_row \<Rightarrow> bool" where
  "written req now row \<longleftrightarrow> su_suppression_id req = Some (sr_suppression_id row) \<and>
     sr_campaign_id row = su_campaign_id req \<and> sr_user_id row = su_user_id req \<and>
     channel_as_str (sr_channel row) = su_channel req \<and> action_as_str (sr_action row) = su_action req \<and>
     sr_occurred_ts row = su_occurred_ts req \<and> sr_received_ts row = now"

lemma ident_short: "IDENT_RE s \<Longrightarrow> length s \<le> MAX_FIELD_BYTES"
  by (simp add: IDENT_RE_def MAX_FIELD_BYTES_def)

lemma channel_label: "channel_parse s = Inr x \<Longrightarrow> channel_as_str x = s"
  using channel.label_of_parse [of s x] by simp

lemma action_label: "action_parse s = Inr x \<Longrightarrow> action_as_str x = s"
  using action.label_of_parse [of s x] by simp

lemmas handler_steps = ebind_def elift_def eret_def efail_def peek_def ask_def demand_def check_ident_def
  guard_def ok_or_def

lemma suppression_valid:
  assumes "suppression_ok ps req"
  shows "\<exists>row. written req (ig_utc_now env log) row \<and>
    post_suppression ps env t req log =
      (rbind (map_err Core (ig_count env (log @ [Writer_event (WriteSuppression [row] t)]))) (\<lambda>_. Inr (sr_suppression_id row)),
       log @ [Writer_event (WriteSuppression [row] t)])"
proof -
  from assms obtain ch ac sid where v: "channel_parse (su_channel req) = Inr ch" "action_parse (su_action req) = Inr ac"
    "su_suppression_id req = Some sid" "ps_uuid ps sid" "ps_rfc3339 ps (su_occurred_ts req)"
    "IDENT_RE (su_campaign_id req)" "IDENT_RE (su_user_id req)" "\<not> length (su_occurred_ts req) > MAX_FIELD_BYTES"
    by (auto simp: suppression_ok_def is_ok_iff)
  moreover have "\<not> length (su_campaign_id req) > MAX_FIELD_BYTES" "\<not> length (su_user_id req) > MAX_FIELD_BYTES"
    using v(6,7) ident_short by (simp_all add: not_less)
  ultimately show ?thesis
    by (intro exI [of _ "\<lparr>sr_suppression_id = sid, sr_campaign_id = su_campaign_id req, sr_user_id = su_user_id req,
           sr_channel = ch, sr_action = ac, sr_occurred_ts = su_occurred_ts req, sr_received_ts = ig_utc_now env log\<rparr>"])
      (simp add: written_def channel_label action_label post_suppression_def handler_steps send_def validate_ident_def
        split: sum.split)
qed

lemma bad_label_400:
  "channel_parse c = Inl e \<Longrightarrow> \<exists>m. Core e = bad_request m"
  "action_parse a = Inl e \<Longrightarrow> \<exists>m. Core e = bad_request m"
  by (auto simp: channel_parse_def action_parse_def bad_request_def split: if_splits)

lemma suppression_invalid:
  assumes "\<not> suppression_ok ps req"
  shows "\<exists>m. post_suppression ps env t req log = (Inl (bad_request m), log)"
proof (cases "IDENT_RE (su_campaign_id req) \<and> IDENT_RE (su_user_id req)")
  case False
  then show ?thesis
    by (auto simp: post_suppression_def handler_steps validate_ident_def bad_request_def)
next
  case True
  then have s: "\<not> length (su_campaign_id req) > MAX_FIELD_BYTES" "\<not> length (su_user_id req) > MAX_FIELD_BYTES"
    using ident_short by (simp_all add: not_less)
  show ?thesis
  proof (cases "channel_parse (su_channel req)")
    case (Inl e)
    with True bad_label_400(1) [OF Inl] show ?thesis
      by (auto simp: post_suppression_def handler_steps validate_ident_def)
  next
    case ch: (Inr ch)
    show ?thesis
    proof (cases "action_parse (su_action req)")
      case (Inl e)
      with True ch bad_label_400(2) [OF Inl] show ?thesis
        by (auto simp: post_suppression_def handler_steps validate_ident_def)
    next
      case (Inr ac)
      with True ch s assms show ?thesis
        by (cases "su_suppression_id req")
          (auto simp: post_suppression_def handler_steps validate_ident_def suppression_ok_def)
    qed
  qed
qed

text \<open>The only external write path stores exactly the valid outcomes: a body with a bad
  identifier, label, timestamp or dedupe key is answered with a 400 and nothing is written; a
  valid one is written as one row of the caller's tenant with the client's key, its labels parsed
  and printed back unchanged, and the client's key is the answer.\<close>

theorem suppression_writes_valid:
  "if suppression_ok ps req then \<exists>row. written req (ig_utc_now env log) row \<and>
      post_suppression ps env t req log =
        (rbind (map_err Core (ig_count env (log @ [Writer_event (WriteSuppression [row] t)])))
           (\<lambda>_. Inr (sr_suppression_id row)),
         log @ [Writer_event (WriteSuppression [row] t)])
   else \<exists>m. post_suppression ps env t req log = (Inl (bad_request m), log)"
  using suppression_valid suppression_invalid by simp

subsection \<open>Guarded operations\<close>

text \<open>Raw SQL runs only when the request carries no DSL, fits in 8 KiB and presents the
  approval token the engine was configured with, up to the hash; an engine without one never runs
  any.\<close>

theorem sql_needs_approval:
  assumes "qu_dsl req = None" and "query_handler ps env st t req log = (r, log')" and "log' \<noteq> log"
  shows "\<exists>sql tok. qu_sql req = Some sql \<and> length sql \<le> MAX_SQL_BYTES \<and> qu_approval_token req = Some tok \<and>
    st_sql_approval_hash st = Some (ps_sha ps tok) \<and> log' = log @ [Engine_event (Read_request sql [])]"
proof -
  have run: "snd (engine_call env (\<lambda>e. run_sql_approved e (st_engine st) sql t) log) =
      log @ [Engine_event (Read_request sql [])]" for sql
    by (simp add: engine_call_def run_sql_approved_def ebind_def timed_read_def read_request_def efail_def eret_def
        ehist_def Let_def case_prod_unfold split: read_outcome.split)
  show ?thesis
  proof (cases "qu_sql req")
    case None
    with assms show ?thesis by (simp add: query_handler_def efail_def)
  next
    case (Some sql)
    with assms have ok: "length sql \<le> MAX_SQL_BYTES" "sql_approved ps st req"
      by (auto simp: query_handler_def handler_steps split: if_splits)
    with Some assms(1,2) have "log' = log @ [Engine_event (Read_request sql [])]"
      using run [of sql] by (simp add: query_handler_def handler_steps)
    with Some ok show ?thesis
      by (auto simp: sql_approved_def split: option.splits)
  qed
qed

text \<open>Editing a description appends one version of the entry that was read: everything but the
  description, its embedding and the epoch is carried over, and the epoch is strictly newer than
  the version it replaces, so that retrieval picks the edit.\<close>

theorem put_catalog_versions:
  assumes "put_catalog env t req log = (Inr (), log')"
  shows "\<exists>row embedding row'. log' = log @ [Entry_event (ed_system req) (ed_table_name req) (ed_column_name req) t,
      Embed_event (ed_description req), Writer_event (WriteCatalog [row'] t)] \<and>
    ig_entry env (log @ [Entry_event (ed_system req) (ed_table_name req) (ed_column_name req) t]) = Inr (Some row) \<and>
    row' = row\<lparr>ca_description := ed_description req, ca_embedding := embedding, ca_source_epoch := ca_source_epoch row'\<rparr> \<and>
    (in_i64 (ca_source_epoch row + 1) \<longrightarrow> ca_source_epoch row < ca_source_epoch row')"
  using assms
  by (auto simp: put_catalog_def handler_steps send_def map_err_def split: if_splits prod.splits sum.splits option.splits)

lemma snapshot_of_events: "\<exists>reqs. snd (snapshot_of env st b t log) = log @ map Engine_event reqs"
proof -
  have "snd (snapshot_of env st b t log) = log @ map Engine_event (snd (snapshot_meta (ig_engine env log) (st_engine st) b t []))"
    by (simp add: snapshot_of_def engine_call_def case_prod_unfold Let_def)
  then show ?thesis by blast
qed

text \<open>Where the export handler can stop before the export.\<close>

lemma export_refused:
  assumes "\<not> (xq_format q = Some ''parquet'' \<and> (\<exists>b. parse_snap_id ps snap = Inr b \<and>
      (\<exists>token. xq_token q = Some token \<and> verify (ps_mac ps) (ig_unix_secs env log) (st_signing_key st) b token)))"
  shows "snd (get_export ps env st t snap q log) = log"
proof -
  have "\<not> verify mac now key b []" for mac now key b by (simp add: verify_def)
  with assms show ?thesis
    by (cases "parse_snap_id ps snap"; cases "xq_token q") (auto simp: get_export_def handler_steps Let_def)
qed

lemma export_not_owned:
  assumes "parse_snap_id ps snap = Inr b" and "\<And>meta. fst (snapshot_of env st b t log) \<noteq> Inr (Some meta)"
  shows "snd (get_export ps env st t snap q log) = log \<or>
    snd (get_export ps env st t snap q log) = snd (snapshot_of env st b t log)"
proof (cases "snapshot_of env st b t log")
  case (Pair r log')
  with assms(2) have n: "r \<noteq> Inr (Some meta)" for meta by (metis fst_conv)
  have "(\<exists>e. r = Inl e) \<or> r = Inr None"
  proof (cases r)
    case (Inr x)
    with n show ?thesis by (cases x) auto
  qed simp
  with Pair assms(1) show ?thesis
    by (auto simp: get_export_def handler_steps Let_def)
qed


text \<open>The link of an audience works: the token of the download URL passes the export's check for
  that snapshot until fifteen minutes after it was minted, and for no longer.\<close>

theorem audience_link_verifies:
  assumes "get_audience ps env st t snap log = (Inr r, log')"
    and "\<forall>m tag. ps_mac ps (st_signing_key st) m = Some tag \<longrightarrow> length tag = TAG_LEN"
  shows "\<exists>b token minted. snap = ''snap_'' @ b \<and> minted = ig_unix_secs env log' \<and>
    ar_download_url r = ''/audience/'' @ snap @ ''/export?format=parquet&token='' @ token \<and>
    (\<forall>now. verify (ps_mac ps) now (st_signing_key st) b token \<longleftrightarrow> now < min (minted + EXPORT_TTL_SECS) u64_max)"
proof -
  from assms(1) obtain b where p: "parse_snap_id ps snap = Inr b"
    by (auto simp: get_audience_def handler_steps split: sum.splits prod.splits)
  with assms(1) obtain meta token where
    s: "sign (ps_mac ps) (ig_unix_secs env log') (st_signing_key st) b EXPORT_TTL_SECS = Inr token"
    and r: "ar_download_url r = ''/audience/'' @ snap @ ''/export?format=parquet&token='' @ token"
    by (auto simp: get_audience_def handler_steps map_err_def split: sum.splits prod.splits option.splits)
  from s obtain tag where "ps_mac ps (st_signing_key st) (token_message b (min (ig_unix_secs env log' + EXPORT_TTL_SECS) u64_max)) = Some tag"
    and token: "token = show_nat (min (ig_unix_secs env log' + EXPORT_TTL_SECS) u64_max) @ ''.'' @ hex_encode tag"
    by (auto simp: sign_def Let_def split: option.splits)
  moreover from this assms(2) have "length tag = TAG_LEN" by blast
  ultimately have "\<forall>now. verify (ps_mac ps) now (st_signing_key st) b token \<longleftrightarrow>
      now < min (ig_unix_secs env log' + EXPORT_TTL_SECS) u64_max"
    by (auto simp: verify_def hex_decode_encode)
  with p r show ?thesis
    by (auto simp: parse_snap_id_def rbind_Inr_iff strip_prefix_Some_iff)
qed

subsection \<open>Concrete requests\<close>

definition sample_entry :: catalog_row where
  "sample_entry = \<lparr>ca_entity_type = ''column'', ca_system = ''crm'', ca_table_name = ''users'', ca_column_name = Some ''age'',
     ca_semantic_type = Measure, ca_data_type = ''INTEGER'', ca_description = ''age'', ca_pii_flag = False,
     ca_sample_values = JNull, ca_embedding = [], ca_source_epoch = 7\<rparr>"

definition sample_ingress :: ingress_env where
  "sample_ingress = \<lparr>ig_engine = (\<lambda>log. sample_env), ig_count = (\<lambda>log. Inr 1), ig_profile = (\<lambda>log. Profile_timeout),
     ig_retrieve = (\<lambda>log. Inr []), ig_entry = (\<lambda>log. Inr (Some sample_entry)), ig_embed = (\<lambda>log. Inr [1, 2]),
     ig_producer = (\<lambda>p. None), ig_file = (\<lambda>log. Inr []), ig_now = (\<lambda>log. 5), ig_unix_secs = (\<lambda>log. 100),
     ig_utc_now = (\<lambda>log. ''now''), ig_uuid = (\<lambda>log. ''u''), ig_temp_dir = ''/tmp''\<rparr>"

definition sample_parsers :: parsers where
  "sample_parsers = \<lparr>ps_sha = id, ps_mac = one_tag, ps_uuid = (\<lambda>s. True), ps_rfc3339 = (\<lambda>s. True),
     ps_segment = (\<lambda>v. Inr sample_segment)\<rparr>"

definition sample_state :: app_state where
  "sample_state = \<lparr>st_engine = sample_engine, st_signing_key = [], st_sql_approval_hash = Some ''ok''\<rparr>"

lemma sample_ingress_sel [simp]:
  "ig_engine sample_ingress log = sample_env" "ig_count sample_ingress log = Inr 1"
  "ig_entry sample_ingress log = Inr (Some sample_entry)" "ig_embed sample_ingress log = Inr [1, 2]"
  "ig_now sample_ingress log = 5" "ig_unix_secs sample_ingress log = 100" "ig_uuid sample_ingress log = ''u''"
  "ig_file sample_ingress log = Inr []"
  by (simp_all add: sample_ingress_def)

lemma sample_parsers_sel [simp]:
  "ps_sha sample_parsers = id" "ps_mac sample_parsers = one_tag" "ps_uuid sample_parsers s" "ps_rfc3339 sample_parsers s"
  by (simp_all add: sample_parsers_def)

lemma sample_state_sel [simp]:
  "st_engine sample_state = sample_engine" "st_signing_key sample_state = []" "st_sql_approval_hash sample_state = Some ''ok''"
  by (simp_all add: sample_state_def)

definition sample_onboard :: onboard_request where
  "sample_onboard = \<lparr>ob_system = ''crm'', ob_entity = ''users'', ob_columns = [''user_id''], ob_rows = [[Some ''u1'']],
     ob_source_type = Some ''kafka''\<rparr>"

lemma sample_names: "IDENT_RE ''crm''" "IDENT_RE ''users''" "IDENT_RE ''user_id''" "IDENT_RE ''age''"
  by code_simp+

lemma sample_onboard_ok: "onboard_ok sample_onboard"
  using sample_names by (simp add: onboard_ok_def sample_onboard_def row_ok_def MAX_COLUMNS_def MAX_ONBOARD_ROWS_def MAX_CELL_BYTES_def)

theorem onboard_bad_source_type_ingests_witness:
  "onboard sample_ingress ''acme'' sample_onboard [] =
    (Inl (bad_request (Msg ''unknown sourceType {other:?}'' [AStr ''kafka''])),
     [] @ [Writer_event (ingest_command ''acme'' sample_onboard)])"
  by (rule onboard_bad_source_type_ingests [OF sample_onboard_ok, where n = 1]) (simp_all add: sample_onboard_def)

definition sample_sql :: query_request where
  "sample_sql = \<lparr>qu_dsl = None, qu_sql = Some ''SELECT 1'', qu_approval_token = Some ''ok''\<rparr>"

lemma sample_sql_runs: "snd (query_handler sample_parsers sample_ingress sample_state ''acme'' sample_sql []) \<noteq> []"
  by (simp add: query_handler_def sample_sql_def handler_steps sql_approved_def MAX_SQL_BYTES_def engine_call_def
      run_sql_approved_def timed_read_def read_request_def Let_def ehist_def)

theorem sql_needs_approval_witness:
  "\<exists>sql tok log'. qu_sql sample_sql = Some sql \<and> length sql \<le> MAX_SQL_BYTES \<and> qu_approval_token sample_sql = Some tok \<and>
    st_sql_approval_hash sample_state = Some (ps_sha sample_parsers tok) \<and> log' = [] @ [Engine_event (Read_request sql [])]"
proof -
  obtain r log' where q: "query_handler sample_parsers sample_ingress sample_state ''acme'' sample_sql [] = (r, log')"
    by (cases "query_handler sample_parsers sample_ingress sample_state ''acme'' sample_sql []")
  have "qu_dsl sample_sql = None" by (simp add: sample_sql_def)
  moreover have "log' \<noteq> []" using sample_sql_runs q by simp
  ultimately show ?thesis using sql_needs_approval [OF _ q] by blast
qed

definition sample_edit :: edit_catalog_request where
  "sample_edit = \<lparr>ed_system = ''crm'', ed_table_name = ''users'', ed_column_name = ''age'', ed_description = ''age in years''\<rparr>"

lemma sample_edit_ok: "\<exists>log'. put_catalog sample_ingress ''acme'' sample_edit [] = (Inr (), log')"
  using sample_names
  by (simp add: put_catalog_def sample_edit_def handler_steps send_def validate_ident_def MAX_DESCRIPTION_BYTES_def)

theorem put_catalog_versions_witness:
  "\<exists>row' :: catalog_row. in_i64 (ca_source_epoch sample_entry + 1) \<and> ca_source_epoch sample_entry < ca_source_epoch row'"
proof -
  obtain log' where p: "put_catalog sample_ingress ''acme'' sample_edit [] = (Inr (), log')" using sample_edit_ok by blast
  have "in_i64 (ca_source_epoch sample_entry + 1)" by (simp add: sample_entry_def in_i64_def)
  with put_catalog_versions [OF p] show ?thesis by auto
qed

definition sample_token :: string where
  "sample_token = show_nat 900 @ ''.'' @ hex_encode (replicate 32 7)"

lemma sample_token_verifies: "verify one_tag 100 [] b sample_token"
  by (simp add: verify_def sample_token_def hex_decode_encode TAG_LEN_def)

lemma sample_snapshot: "\<exists>meta log'. snapshot_of sample_ingress sample_state b t log = (Inr (Some meta), log')"
  by (simp add: snapshot_of_def engine_call_def snapshot_meta_def handler_steps timed_read_def read_request_def Let_def
      sample_rows_def)

definition sample_export :: export_query where
  "sample_export = \<lparr>xq_format = Some ''parquet'', xq_token = Some sample_token\<rparr>"

lemma sample_snap_id: "parse_snap_id sample_parsers ''snap_1'' = Inr ''1''"
  by (simp add: parse_snap_id_def)


theorem audience_link_verifies_witness:
  "\<exists>(r :: audience_response) b token. ''snap_1'' = ''snap_'' @ b \<and>
    ar_download_url r = ''/audience/'' @ ''snap_1'' @ ''/export?format=parquet&token='' @ token \<and>
    (\<forall>now. verify (ps_mac sample_parsers) now (st_signing_key sample_state) b token \<longleftrightarrow> now < min (100 + EXPORT_TTL_SECS) u64_max)"
proof -
  obtain meta log1 where s: "snapshot_of sample_ingress sample_state ''1'' ''acme'' [] = (Inr (Some meta), log1)"
    using sample_snapshot by blast
  then obtain r log' where a: "get_audience sample_parsers sample_ingress sample_state ''acme'' ''snap_1'' [] = (Inr r, log')"
    by (simp add: get_audience_def sample_snap_id handler_steps sign_def Let_def)
  have len: "\<forall>m tag. ps_mac sample_parsers (st_signing_key sample_state) m = Some tag \<longrightarrow> length tag = TAG_LEN"
    by (simp add: TAG_LEN_def)
  from audience_link_verifies [OF a len] obtain b token minted where x: "''snap_1'' = ''snap_'' @ b"
    "minted = ig_unix_secs sample_ingress log'"
    "ar_download_url r = ''/audience/'' @ ''snap_1'' @ ''/export?format=parquet&token='' @ token"
    "\<forall>now. verify (ps_mac sample_parsers) now (st_signing_key sample_state) b token \<longleftrightarrow>
      now < min (minted + EXPORT_TTL_SECS) u64_max"
    by (elim exE conjE) (rule that)
  have m: "minted = 100" by (rule trans [OF x(2) sample_ingress_sel(6)])
  show ?thesis
    by (intro exI [of _ r] exI [of _ b] exI [of _ token] conjI) (rule x(1) x(3) x(4) [unfolded m])+
qed

end
