(* ===== verification/Ingress_Router.thy ===== *)
theory Ingress_Router
  imports Ingress_Auth
begin

text \<open>
  \<open>router\<close> of \<open>crates/ingress/src/lib.rs\<close>: the table of routes behind the authentication layer. How axum
  matches a path is documented behaviour of that library: a literal segment matches itself, a parameter
  one non-empty segment, \<open>get\<close> serves HEAD as well, an unknown path is a 404 and a known one without the
  verb a 405; the layer runs before any of it.
\<close>

subsection \<open>The table\<close>

datatype verb = Get | Head | Post | Put | Other_verb string

datatype endpoint =
    Healthz | Readyz | Onboard_source | Query_segment | Get_catalog | Put_catalog | Run_producer | Post_suppression
  | Post_jobs | Get_job | Get_audience | Get_export

datatype piece = Lit string | Param

definition routes :: "(piece list \<times> (verb \<times> endpoint) list) list" where
  "routes =
     [([Lit ''healthz''], [(Get, Healthz)]),
      ([Lit ''readyz''], [(Get, Readyz)]),
      ([Lit ''sources'', Lit ''onboard''], [(Post, Onboard_source)]),
      ([Lit ''query''], [(Post, Query_segment)]),
      ([Lit ''catalog''], [(Get, Get_catalog), (Put, Put_catalog)]),
      ([Lit ''producers'', Lit ''run''], [(Post, Run_producer)]),
      ([Lit ''suppression''], [(Post, Post_suppression)]),
      ([Lit ''jobs''], [(Post, Post_jobs)]),
      ([Lit ''jobs'', Param], [(Get, Get_job)]),
      ([Lit ''audience'', Param], [(Get, Get_audience)]),
      ([Lit ''audience'', Param, Lit ''export''], [(Get, Get_export)])]"

subsection \<open>Matching\<close>

fun split_slash :: "string \<Rightarrow> string list" where
  "split_slash [] = [[]]"
| "split_slash (c # cs) =
     (if c = CHR ''/'' then [] # split_slash cs
      else case split_slash cs of [] \<Rightarrow> [[c]] | s # ss \<Rightarrow> (c # s) # ss)"

fun match_path :: "piece list \<Rightarrow> string list \<Rightarrow> string list option" where
  "match_path [] [] = Some []"
| "match_path (Lit l # ps) (s # ss) = (if s = l then match_path ps ss else None)"
| "match_path (Param # ps) (s # ss) = (if s = [] then None else map_option ((#) s) (match_path ps ss))"
| "match_path _ _ = None"

fun find_route :: "(piece list \<times> 'h) list \<Rightarrow> string list \<Rightarrow> ('h \<times> string list) option" where
  "find_route [] ss = None"
| "find_route ((ps, h) # rs) ss =
     (case match_path ps ss of Some params \<Rightarrow> Some (h, params) | None \<Rightarrow> find_route rs ss)"

datatype routed = Not_found | Method_not_allowed | Endpoint endpoint "string list"

definition served_verb :: "verb \<Rightarrow> verb" where
  "served_verb v = (if v = Head then Get else v)"

definition route :: "verb \<Rightarrow> string \<Rightarrow> routed" where
  "route v path =
     (case path of
        CHR ''/'' # rest \<Rightarrow>
          (case find_route routes (split_slash rest) of
             None \<Rightarrow> Not_found
           | Some (handlers, params) \<Rightarrow>
               (case map_of handlers (served_verb v) of
                  None \<Rightarrow> Method_not_allowed
                | Some e \<Rightarrow> Endpoint e params))
      | _ \<Rightarrow> Not_found)"

text \<open>\<open>healthz\<close> and \<open>readyz\<close>.\<close>

definition probe_response :: "nat \<times> string" where
  "probe_response = (200, ''ok'')"

text \<open>The layer, then the route: the tenant extension and what the request comes to.\<close>

definition router ::
  "(string \<Rightarrow> hash) \<Rightarrow> (string \<Rightarrow> string option) \<Rightarrow> auth_state \<Rightarrow> verb \<Rightarrow> http_request \<Rightarrow> (api_error, string option \<times> routed) result"
where
  "router sha to_str st v req =
     rbind (require_auth sha to_str st req) (\<lambda>tenant. Inr (tenant, route v (rq_path req)))"

subsection \<open>Probes and tenants\<close>

lemma join_split_slash: "split_slash cs \<noteq> [] \<and> join ''/'' (split_slash cs) = cs"
proof (induction cs)
  case (Cons c cs)
  then obtain s ss where "split_slash cs = s # ss" by (cases "split_slash cs") auto
  with Cons show ?case by (cases ss) auto
qed simp

lemma split_slash_single: "split_slash cs = [s] \<Longrightarrow> cs = s"
  using join_split_slash [of cs] by simp

lemma match_path_single: "match_path [Lit l] ss = Some params \<Longrightarrow> ss = [l]"
  by (cases ss; cases "tl ss") (auto split: if_splits)

lemma probe_routes:
  assumes "find_route routes ss = Some (handlers, params)" "map_of handlers v = Some e"
  shows "e = Healthz \<longleftrightarrow> ss = [''healthz'']" "e = Readyz \<longleftrightarrow> ss = [''readyz'']"
proof -
  have "e = Healthz \<longrightarrow> ss = [''healthz'']" "e = Readyz \<longrightarrow> ss = [''readyz'']"
    using assms match_path_single by (auto simp: routes_def split: option.splits if_splits)
  moreover have "ss = [''healthz''] \<longrightarrow> e = Healthz" "ss = [''readyz''] \<longrightarrow> e = Readyz"
    using assms by (auto simp: routes_def split: if_splits)
  ultimately show "e = Healthz \<longleftrightarrow> ss = [''healthz'']" "e = Readyz \<longleftrightarrow> ss = [''readyz'']" by blast+
qed

text \<open>a request without a valid token reaches no endpoint but the two probes, and a request that
  reaches any other endpoint carries a tenant: the one tenant of an engine without tokens, or
  the owner of the token it was sent with.\<close>

theorem endpoints_run_with_tenant:
  assumes "router sha to_str (build_auth sha config) v req = Inr (tenant, Endpoint e params)"
  shows "(tenant = None \<longleftrightarrow> e \<in> {Healthz, Readyz}) \<and>
    (\<forall>t. tenant = Some t \<longrightarrow>
       (if credentials config = [] then t = ec_tenant_id config
        else \<exists>p. bearer to_str req = Some p \<and> owner_of sha config p = Some t))"
proof -
  from assms have auth: "require_auth sha to_str (build_auth sha config) req = Inr tenant"
    and e: "route v (rq_path req) = Endpoint e params"
    by (auto simp: router_def rbind_Inr_iff)
  have probe: "rq_path req \<in> {''/healthz'', ''/readyz''} \<longleftrightarrow> e \<in> {Healthz, Readyz}"
  proof -
    from e obtain rest handlers where rest: "rq_path req = CHR ''/'' # rest"
      and "find_route routes (split_slash rest) = Some (handlers, params)" "map_of handlers (served_verb v) = Some e"
      by (auto simp: route_def split: list.splits char.splits bool.splits option.splits)
    from probe_routes [OF this(2,3)] rest show ?thesis
      by (auto dest!: split_slash_single)
  qed
  have default_tenant: "au_default_tenant (build_auth sha config) = ec_tenant_id config"
    by (simp add: build_auth_def)
  show ?thesis
    using auth unfolding require_auth_bearer build_auth_unconfigured probe
    by (auto simp: rbind_Inr_iff bind_eq_Some_conv resolve_tenant_build default_tenant split: if_splits)
qed

theorem endpoints_run_with_tenant_witness:
  "\<exists>p. bearer Some \<lparr>rq_path = ''/query'', rq_authorization = Some ''Bearer s3cret''\<rparr> = Some p \<and>
     owner_of (\<lambda>s. s) two_tenants p = Some ''acme''"
proof -
  have "router (\<lambda>s. s) Some (build_auth (\<lambda>s. s) two_tenants) Post \<lparr>rq_path = ''/query'', rq_authorization = Some ''Bearer s3cret''\<rparr> =
      Inr (Some ''acme'', Endpoint Query_segment [])"
    by (simp add: router_def require_auth_def resolve_tenant_build owner_of_def two_tenants_credentials routes_def
        route_def served_verb_def) (simp add: two_tenants_def build_auth_def)
  from endpoints_run_with_tenant [OF this] show ?thesis by (simp add: two_tenants_credentials)
qed

end
