(* ===== verification/Ingress_System.thy ===== *)
theory Ingress_System
  imports Ingestion_Pipeline Query_Materialise Ingress_Jobs Ingress_Spec Ingress_Router
begin

text \<open>
  The engine as a whole: a request goes through the authentication layer and the routes to its handler,
  an accepted job to its materialisation task, their commands to the writer thread and its calls to the
  database. What each part promises of tenants is put together here. How axum and serde decode a body,
  a query string or a path segment is a parameter, and so is what they answer to one that does not
  decode.
\<close>

subsection \<open>Dispatch\<close>

type_synonym rejection = "nat \<times> msg"

record decoders =
  dc_onboard :: "string \<Rightarrow> (rejection, onboard_request) result"
  dc_query :: "string \<Rightarrow> (rejection, query_request) result"
  dc_suppression :: "string \<Rightarrow> (rejection, suppression_request) result"
  dc_edit :: "string \<Rightarrow> (rejection, edit_catalog_request) result"
  dc_producer :: "string \<Rightarrow> (rejection, run_producer_request) result"
  dc_jobs :: "string \<Rightarrow> (rejection, jobs_request) result"
  dc_catalog :: "string \<Rightarrow> (rejection, catalog_query) result"
  dc_export :: "string \<Rightarrow> (rejection, export_query) result"
  dc_path :: "string \<Rightarrow> (rejection, string) result"

record api_request =
  aq_verb :: verb
  aq_http :: http_request
  aq_query :: string
  aq_body :: string

text \<open>\<open>AppState\<close> with what its parts answer; \<open>si_instant\<close> is the monotonic clock of the job registry.\<close>

record site =
  si_parsers :: parsers
  si_env :: ingress_env
  si_state :: app_state
  si_auth :: auth_state
  si_to_str :: "string \<Rightarrow> string option"
  si_decoders :: decoders
  si_instant :: "event_log \<Rightarrow> nat"

datatype reply_body =
    Text_reply string | Onboard_reply onboard_response | Query_reply sync_result | Catalog_reply "catalog_hit list"
  | Empty_reply | Producer_reply nat | Suppression_reply string | Job_accepted string | Job_reply job_response
  | Audience_reply audience_response | File_reply bytes

type_synonym response = "(rejection, nat \<times> reply_body) result"

definition run_api :: "('a \<Rightarrow> nat \<times> reply_body) \<Rightarrow> 'a api \<Rightarrow> event_log \<Rightarrow> response \<times> event_log" where
  "run_api success m hist =
     (case m hist of (Inl e, hist) \<Rightarrow> (Inl (into_response e), hist) | (Inr x, hist) \<Rightarrow> (Inr (success x), hist))"

definition decoded ::
  "(rejection, 'q) result \<Rightarrow> ('q \<Rightarrow> event_log \<Rightarrow> response \<times> event_log) \<Rightarrow> event_log \<Rightarrow> response \<times> event_log"
where
  "decoded d k hist = (case d of Inl e \<Rightarrow> (Inl e, hist) | Inr q \<Rightarrow> k q hist)"

definition path_param :: "decoders \<Rightarrow> string list \<Rightarrow> (rejection, string) result" where
  "path_param dc params = (case params of [p] \<Rightarrow> dc_path dc p | _ \<Rightarrow> Inl (500, Msg ''missing path parameter'' []))"

text \<open>The handler of an endpoint that needs no job registry, under a tenant.\<close>

fun handler :: "site \<Rightarrow> string \<Rightarrow> endpoint \<Rightarrow> string list \<Rightarrow> api_request \<Rightarrow> event_log \<Rightarrow> response \<times> event_log" where
  "handler si t Onboard_source params req =
     decoded (dc_onboard (si_decoders si) (aq_body req)) (\<lambda>q.
       run_api (\<lambda>r. (200, Onboard_reply r)) (onboard (si_env si) t q))"
| "handler si t Query_segment params req =
     decoded (dc_query (si_decoders si) (aq_body req)) (\<lambda>q.
       run_api (\<lambda>r. (200, Query_reply r)) (query_handler (si_parsers si) (si_env si) (si_state si) t q))"
| "handler si t Get_catalog params req =
     decoded (dc_catalog (si_decoders si) (aq_query req)) (\<lambda>q.
       run_api (\<lambda>r. (200, Catalog_reply r)) (get_catalog (si_env si) t q))"
| "handler si t Put_catalog params req =
     decoded (dc_edit (si_decoders si) (aq_body req)) (\<lambda>q.
       run_api (\<lambda>_. (200, Empty_reply)) (put_catalog (si_env si) t q))"
| "handler si t Run_producer params req =
     decoded (dc_producer (si_decoders si) (aq_body req)) (\<lambda>q.
       run_api (\<lambda>n. (200, Producer_reply n)) (post_run_producer (si_env si) t q))"
| "handler si t Post_suppression params req =
     decoded (dc_suppression (si_decoders si) (aq_body req)) (\<lambda>q.
       run_api (\<lambda>sid. (201, Suppression_reply sid)) (post_suppression (si_parsers si) (si_env si) t q))"
| "handler si t Get_audience params req =
     decoded (path_param (si_decoders si) params) (\<lambda>snap.
       run_api (\<lambda>r. (200, Audience_reply r)) (get_audience (si_parsers si) (si_env si) (si_state si) t snap))"
| "handler si t Get_export params req =
     decoded (path_param (si_decoders si) params) (\<lambda>snap.
     decoded (dc_export (si_decoders si) (aq_query req)) (\<lambda>q.
       run_api (\<lambda>b. (200, File_reply b)) (get_export (si_parsers si) (si_env si) (si_state si) t snap q)))"
| "handler si t e params req = Pair (Inr (200, Text_reply ''ok''))"

text \<open>The answer to a job is sent once its permit is granted; the wait is a step of \<open>job_step\<close>.\<close>

definition dispatch_request ::
  "site \<Rightarrow> string \<Rightarrow> endpoint \<Rightarrow> string list \<Rightarrow> api_request \<Rightarrow> job_registry \<Rightarrow> event_log
     \<Rightarrow> response \<times> job_registry \<times> event_log"
where
  "dispatch_request si t e params req reg hist =
     (if e = Post_jobs then
        (case dc_jobs (si_decoders si) (aq_body req) of
           Inl rej \<Rightarrow> (Inl rej, reg, hist)
         | Inr q \<Rightarrow>
             (case post_jobs (ps_segment (si_parsers si)) (ps_rfc3339 (si_parsers si)) (ig_uuid (si_env si) hist)
                     (si_instant si hist) t q reg of
                (Inl err, reg) \<Rightarrow> (Inl (into_response err), reg, hist)
              | (Inr (jid, seg), reg) \<Rightarrow> (Inr (202, Job_accepted jid), reg, hist)))
      else if e = Get_job then
        (case path_param (si_decoders si) params of
           Inl rej \<Rightarrow> (Inl rej, reg, hist)
         | Inr jid \<Rightarrow>
             (case get_job (si_instant si hist) t jid reg of
                (Inl err, reg) \<Rightarrow> (Inl (into_response err), reg, hist)
              | (Inr r, reg) \<Rightarrow> (Inr (200, Job_reply r), reg, hist)))
      else (let (r, hist) = handler si t e params req hist in (r, reg, hist)))"

text \<open>A request: the layer, the route, and the handler with the tenant extension; a handler without one
  would be refused by its extractor.\<close>

definition serve_request ::
  "site \<Rightarrow> api_request \<Rightarrow> job_registry \<Rightarrow> event_log \<Rightarrow> response \<times> job_registry \<times> event_log"
where
  "serve_request si req reg hist =
     (case router (ps_sha (si_parsers si)) (si_to_str si) (si_auth si) (aq_verb req) (aq_http req) of
        Inl err \<Rightarrow> (Inl (into_response err), reg, hist)
      | Inr (tenant, Not_found) \<Rightarrow> (Inl (404, Msg [] []), reg, hist)
      | Inr (tenant, Method_not_allowed) \<Rightarrow> (Inl (405, Msg [] []), reg, hist)
      | Inr (tenant, Endpoint e params) \<Rightarrow>
          if e \<in> {Healthz, Readyz} then
            (Inr (fst probe_response, Text_reply (snd probe_response)), reg, hist)
          else
            (case tenant of
               None \<Rightarrow> (Inl (500, Msg ''missing request extension'' []), reg, hist)
             | Some t \<Rightarrow> dispatch_request si t e params req reg hist))"

text \<open>The task of an accepted job, with its supervisor: the materialisation, then its verdict. A panic of
  the task is \<open>Panicked\<close> of \<open>task_outcome\<close>, and its other ending.\<close>

definition run_job ::
  "site \<Rightarrow> string \<Rightarrow> string \<Rightarrow> string \<Rightarrow> segment_query \<Rightarrow> job_registry \<Rightarrow> event_log \<Rightarrow> job_registry \<times> event_log"
where
  "run_job si t jid campaign q reg hist =
     (let (r, reqs) = materialize (ig_engine (si_env si) hist) (st_engine (si_state si)) q campaign t [];
          hist = hist @ map Engine_event reqs
      in (record_outcome (si_instant si hist) jid t (Returned r) reg, hist))"

subsection \<open>What the handlers may ask\<close>

text \<open>An event a handler may cause for a tenant: one made for the tenant, a raw statement behind the
  approval token, the metadata of one of the tenant's snapshots, or the export of a snapshot behind a
  verified token, after the snapshot was found to be the tenant's.\<close>

definition approved_sql :: "site \<Rightarrow> ingress_event \<Rightarrow> bool" where
  "approved_sql si ev \<longleftrightarrow>
     (\<exists>sql tok. ev = Engine_event (Read_request sql []) \<and> length sql \<le> MAX_SQL_BYTES \<and>
        st_sql_approval_hash (si_state si) = Some (ps_sha (si_parsers si) tok))"

definition snapshot_lookup :: "string \<Rightarrow> ingress_event \<Rightarrow> bool" where
  "snapshot_lookup t ev \<longleftrightarrow> (\<exists>b. ev = Engine_event (Read_request snapshot_meta_sql [VText b, VText t]))"

definition owned_export :: "site \<Rightarrow> string \<Rightarrow> ingress_event \<Rightarrow> bool" where
  "owned_export si t ev \<longleftrightarrow>
     (\<exists>b dest now token meta hist. ev = Writer_event (ExportParquet b dest) \<and>
        verify (ps_mac (si_parsers si)) now (st_signing_key (si_state si)) b token \<and>
        fst (snapshot_of (si_env si) (si_state si) b t hist) = Inr (Some meta))"

definition permitted_event :: "site \<Rightarrow> string \<Rightarrow> ingress_event \<Rightarrow> bool" where
  "permitted_event si t ev \<longleftrightarrow> event_for t ev \<or> approved_sql si ev \<or> snapshot_lookup t ev \<or> owned_export si t ev"

lemma ensures_for: "ensures (event_for t) m Q \<Longrightarrow> ensures (permitted_event si t) m Q"
  by (erule ensures_mono) (simp add: permitted_event_def)

lemma ensures_sql: "ensures (permitted_event si t) (engine_call (si_env si) (\<lambda>e. run_sql_approved e eng sql t)) (\<lambda>_. True)"
  if "length sql \<le> MAX_SQL_BYTES" "st_sql_approval_hash (si_state si) = Some (ps_sha (si_parsers si) tok)"
proof (rule ensures_mono [OF ensures_engine_call])
  show "ensures (\<lambda>r. r = Read_request sql []) (run_sql_approved e eng sql t) (\<lambda>_. True)" for e
    unfolding run_sql_approved_def
    by (rule ensures_seq [OF ensures_timed_read])
      (auto intro!: ensures_eret ensures_efail ensures_seq [OF ensures_ehist [where Q = "\<lambda>_. True"]])
qed (use that in \<open>auto simp: permitted_event_def approved_sql_def\<close>)

lemma ensures_query:
  "ensures (permitted_event si t) (query_handler (si_parsers si) (si_env si) (si_state si) t q) (\<lambda>_. True)"
proof (cases "qu_dsl q")
  case (Some dsl)
  from ensures_for [OF ensures_query_dsl [OF this]] show ?thesis .
next
  case None
  show ?thesis
    unfolding query_handler_def None
    by (cases "qu_sql q")
      (auto simp: sql_approved_def not_less split: option.splits intro!: ensures_efail ensures_sql demand_seq)
qed

lemma ensures_snapshot:
  "ensures (permitted_event si t) (snapshot_of (si_env si) (si_state si) b t)
     (\<lambda>found. \<exists>hist. fst (snapshot_of (si_env si) (si_state si) b t hist) = Inr found)"
proof -
  have "ensures (permitted_event si t) (snapshot_of (si_env si) (si_state si) b t) (\<lambda>_. True)"
    by (rule ensures_mono [OF ensures_snapshot_of]) (auto simp: permitted_event_def snapshot_lookup_def)
  then show ?thesis unfolding ensures_def by blast
qed

lemma ensures_audience:
  "ensures (permitted_event si t) (get_audience (si_parsers si) (si_env si) (si_state si) t snap) (\<lambda>_. True)"
  unfolding get_audience_def
  by (intro ensures_seq [OF ensures_elift] ensures_seq [OF ensures_peek] ensures_eret
      ensures_seq [OF ensures_weaken [OF ensures_snapshot]]) simp_all

lemma ensures_export:
  "ensures (permitted_event si t) (get_export (si_parsers si) (si_env si) (si_state si) t snap q) (\<lambda>_. True)"
proof -
  have send: "permitted_event si t (Writer_event (ExportParquet b dest))"
    if "verify (ps_mac (si_parsers si)) now (st_signing_key (si_state si)) b token"
      "fst (snapshot_of (si_env si) (si_state si) b t hist) = Inr (Some meta)" for b dest now token hist meta
    using that by (auto simp: permitted_event_def owned_export_def)
  have temp: "permitted_event si t (Read_file_event dest)" "permitted_event si t (Remove_file_event dest)" for dest
    by (simp_all add: permitted_event_def)
  show ?thesis
    unfolding get_export_def Let_def
    by (auto intro!: ensures_efail ensures_eret ensures_seq [OF ensures_elift] ensures_seq [OF ensures_peek]
        ensures_ebind [OF ensures_snapshot] ensures_seq [OF ensures_send] ensures_seq [OF ensures_ask] temp)
      (rule send)
qed

lemma run_api_events:
  assumes "ensures P m (\<lambda>_. True)"
  shows "\<exists>evs. snd (run_api success m hist) = hist @ evs \<and> list_all P evs"
  using assms unfolding ensures_def run_api_def by (auto split: prod.split sum.split) (metis snd_conv)+

lemma decoded_events:
  assumes "\<And>q. d = Inr q \<Longrightarrow> \<exists>evs. snd (k q hist) = hist @ evs \<and> list_all P evs"
  shows "\<exists>evs. snd (decoded d k hist) = hist @ evs \<and> list_all P evs"
  using assms by (cases d) (simp_all add: decoded_def)

lemmas handlers_permitted = ensures_for [OF ensures_onboard] ensures_query ensures_for [OF ensures_get_catalog]
  ensures_for [OF ensures_put_catalog] ensures_for [OF ensures_producer] ensures_for [OF ensures_suppression]
  ensures_audience ensures_export

lemma handler_events: "\<exists>evs. snd (handler si t e params req hist) = hist @ evs \<and> list_all (permitted_event si t) evs"
  by (cases e) (auto intro!: decoded_events run_api_events handlers_permitted)

subsection \<open>Whose request it is\<close>

text \<open>The tenant the configuration gives a request: the default one of an engine without tokens, or the
  owner of the token it was sent with.\<close>

definition caller :: "site \<Rightarrow> engine_config \<Rightarrow> api_request \<Rightarrow> string option" where
  "caller si config req =
     (if credentials config = [] then Some (ec_tenant_id config)
      else Option.bind (bearer (si_to_str si) (aq_http req)) (owner_of (ps_sha (si_parsers si)) config))"

lemma routed_caller:
  assumes "si_auth si = build_auth (ps_sha (si_parsers si)) config"
    and "router (ps_sha (si_parsers si)) (si_to_str si) (si_auth si) (aq_verb req) (aq_http req) = Inr (Some t, e)"
  shows "caller si config req = Some t"
proof -
  from assms have "require_auth (ps_sha (si_parsers si)) (si_to_str si) (build_auth (ps_sha (si_parsers si)) config) (aq_http req) = Inr (Some t)"
    by (auto simp: router_def rbind_Inr_iff)
  moreover have "au_default_tenant (build_auth sha config) = ec_tenant_id config" for sha
    by (simp add: build_auth_def)
  ultimately show ?thesis
    unfolding require_auth_bearer build_auth_unconfigured
    by (auto simp: caller_def rbind_Inr_iff bind_eq_Some_conv resolve_tenant_build split: if_splits)
qed

text \<open>What a dispatched request does to the log and to the registry.\<close>

definition only_for :: "string \<Rightarrow> job_registry \<Rightarrow> job_registry \<Rightarrow> bool" where
  "only_for t reg reg' \<longleftrightarrow>
     (\<forall>i. entry_of reg' i \<in> {entry_of reg i, None} \<or> (\<exists>st at. entry_of reg' i = Some (st, t, at)))"

lemma only_for_refl [simp]: "only_for t reg reg"
  by (simp add: only_for_def)

lemma dispatch_effects:
  assumes "dispatch_request si t e params req reg hist = (r, reg', hist')"
  shows "\<exists>evs. hist' = hist @ evs \<and> list_all (permitted_event si t) evs" and "only_for t reg reg'"
proof -
  have post: "only_for t reg (snd (post_jobs fv rf u now t q reg))" for fv rf u now q
    by (cases "post_jobs fv rf u now t q reg"; cases "fst (post_jobs fv rf u now t q reg)")
      (auto simp: only_for_def entry_post dest: post_refused)
  have poll: "only_for t reg (snd (get_job now t jid reg))" for now jid
    using entry_get_job [OF prod.collapse [symmetric], of now t jid reg] by (auto simp: only_for_def)
  show "\<exists>evs. hist' = hist @ evs \<and> list_all (permitted_event si t) evs"
    using assms handler_events [of si t e params req hist]
    by (auto simp: dispatch_request_def case_prod_unfold Let_def split: if_splits sum.splits prod.splits) (metis)
  show "only_for t reg reg'"
    using assms
    by (auto simp: dispatch_request_def case_prod_unfold Let_def post poll split: if_splits sum.splits prod.splits)
qed

lemma request_effects:
  assumes "si_auth si = build_auth (ps_sha (si_parsers si)) config"
    and "serve_request si req reg hist = (r, reg', hist')"
  shows "(reg' = reg \<and> hist' = hist) \<or>
    (\<exists>t evs. caller si config req = Some t \<and> hist' = hist @ evs \<and> list_all (permitted_event si t) evs \<and> only_for t reg reg')"
proof (cases "router (ps_sha (si_parsers si)) (si_to_str si) (si_auth si) (aq_verb req) (aq_http req)")
  case (Inl err)
  with assms(2) show ?thesis by (simp add: serve_request_def)
next
  case (Inr tr)
  then show ?thesis
  proof (cases "\<exists>t e params. tr = (Some t, Endpoint e params) \<and> e \<notin> {Healthz, Readyz}")
    case True
    then obtain t e params where tr: "tr = (Some t, Endpoint e params)" "e \<notin> {Healthz, Readyz}" by blast
    with assms(2) Inr have "dispatch_request si t e params req reg hist = (r, reg', hist')"
      by (simp add: serve_request_def)
    from dispatch_effects [OF this] routed_caller [OF assms(1) Inr [unfolded tr(1)]] show ?thesis by blast
  next
    case False
    with assms(2) Inr show ?thesis
      by (cases tr) (auto simp: serve_request_def split: routed.splits option.splits if_splits)
  qed
qed


subsection \<open>Requests and the life cycle of jobs\<close>

lemma dispatch_job_steps:
  assumes "dispatch_request si t e params req (jw_registry w) hist = (r, reg', hist')"
    and "jw_minted w (''j_'' @ ig_uuid (si_env si) hist) = None"
  shows "\<exists>w'. job_steps (ps_segment (si_parsers si)) (ps_rfc3339 (si_parsers si)) w w' \<and> jw_registry w' = reg'"
proof -
  let ?step = "job_step (ps_segment (si_parsers si)) (ps_rfc3339 (si_parsers si))"
  have one: ?thesis if "?step w w'" "jw_registry w' = reg'" for w'
    using that job_steps.none job_steps.more by blast
  have same: ?thesis if "reg' = jw_registry w" using that job_steps.none by blast
  show ?thesis
  proof (cases "e = Post_jobs")
    case True
    show ?thesis
    proof (cases "dc_jobs (si_decoders si) (aq_body req)")
      case (Inl rej)
      with assms(1) True show ?thesis by (intro same) (simp add: dispatch_request_def)
    next
      case (Inr q)
      obtain x reg1 where p: "post_jobs (ps_segment (si_parsers si)) (ps_rfc3339 (si_parsers si)) (ig_uuid (si_env si) hist)
          (si_instant si hist) t q (jw_registry w) = (x, reg1)" by fastforce
      show ?thesis
      proof (cases x)
        case (Inl err)
        with p have "?step w (w\<lparr>jw_registry := reg1\<rparr>)" by (intro job_step.refused) simp
        from one [OF this] assms(1) True Inr p Inl show ?thesis by (simp add: dispatch_request_def)
      next
        case ok: (Inr js)
        obtain jid seg where js: "js = (jid, seg)" by (cases js)
        from p ok js have "jid = ''j_'' @ ig_uuid (si_env si) hist"
          by (auto simp: post_jobs_def Let_def split: sum.splits)
        with p ok js assms(2) have "?step w (w\<lparr>jw_registry := reg1, jw_waiting := insert (jid, t) (jw_waiting w),
            jw_minted := (jw_minted w)(jid \<mapsto> t)\<rparr>)" by (intro job_step.posted) simp_all
        from one [OF this] assms(1) True Inr p ok js show ?thesis by (simp add: dispatch_request_def)
      qed
    qed
  next
    case post: False
    show ?thesis
    proof (cases "e = Get_job \<and> (\<exists>jid. path_param (si_decoders si) params = Inr jid)")
      case True
      then obtain jid where jid: "path_param (si_decoders si) params = Inr jid" by blast
      obtain x reg1 where p: "get_job (si_instant si hist) t jid (jw_registry w) = (x, reg1)" by fastforce
      then have "?step w (w\<lparr>jw_registry := reg1\<rparr>)" by (rule job_step.polled)
      from one [OF this] assms(1) True jid p post show ?thesis by (cases x) (simp_all add: dispatch_request_def)
    next
      case False
      with assms(1) post show ?thesis
        by (intro same) (auto simp: dispatch_request_def case_prod_unfold Let_def split: if_splits sum.splits)
    qed
  qed
qed


text \<open>And the end of a job's task is the step \<open>finished\<close>, with what the task returned.\<close>

lemma run_job_step:
  assumes "run_job si t jid campaign q (jw_registry w) hist = (reg', hist')" "(jid, t) \<in> jw_running w"
  shows "job_step fv rf w (w\<lparr>jw_registry := reg', jw_free := jw_free w + 1, jw_running := jw_running w - {(jid, t)}\<rparr>)"
proof -
  from assms(1) obtain now outcome where "reg' = record_outcome now jid t outcome (jw_registry w)"
    by (auto simp: run_job_def case_prod_unfold Let_def)
  with job_step.finished [OF assms(2)] show ?thesis by simp
qed

subsection \<open>Commands the writer can take\<close>

text \<open>What a site is wired with: the token tables of the configuration, and identifiers and a directory
  for temporary files without a question mark, as UUIDs have none.\<close>

definition wired :: "site \<Rightarrow> engine_config \<Rightarrow> bool" where
  "wired si config \<longleftrightarrow> si_auth si = build_auth (ps_sha (si_parsers si)) config \<and>
     (\<forall>s. ps_uuid (si_parsers si) s \<longrightarrow> qmarks s = 0) \<and> (\<forall>hist. qmarks (ig_uuid (si_env si) hist) = 0) \<and>
     qmarks (ig_temp_dir (si_env si)) = 0"

fun sound_event :: "ingress_event \<Rightarrow> bool" where
  "sound_event (Writer_event c) \<longleftrightarrow> sound_command c"
| "sound_event ev \<longleftrightarrow> True"

lemma ensures_sound_engine: "ensures sound_event (engine_call env m) (\<lambda>_. True)"
  by (auto simp: ensures_def engine_call_def case_prod_unfold Let_def list_all_iff)

lemma ensures_checked_onboard: "ensures P (check_onboard req) (\<lambda>_. onboard_ok req)"
  unfolding ensures_def
proof (rule allI)
  fix log
  show "(\<exists>reqs. snd (check_onboard req log) = log @ reqs \<and> list_all P reqs) \<and>
      (\<forall>x. fst (check_onboard req log) = Inr x \<longrightarrow> onboard_ok req)"
    using is_check_onboard [of req] by (auto simp: is_check_def dest!: spec [of _ log])
qed

lemma onboard_sound_rows: "onboard_ok req \<Longrightarrow> sound_rows (ob_columns req) (ob_rows req)"
  by (auto simp: onboard_ok_def sound_rows_def wide_rows_def row_ok_def list_all_iff MAX_COLUMNS_def MAX_PARAMS_def)

lemma sound_onboard: "ensures sound_event (onboard env t req) (\<lambda>_. True)"
  unfolding onboard_def
proof (rule ensures_ebind [OF ensures_checked_onboard])
  assume ok: "onboard_ok req"
  show "ensures sound_event (ebind (send env (IngestRaw (ob_system req) (ob_entity req) (ob_columns req) (ob_rows req) t))
      (\<lambda>n. ebind (elift (parse_source_type (ob_source_type req)))
      (\<lambda>source_type. ebind (peek (ig_now env))
      (\<lambda>ingest_epoch. ebind (check_ident (ob_system req))
      (\<lambda>_. ebind (check_ident (ob_entity req))
      (\<lambda>_. ebind (ask (Freshness_event (ob_system req) (ob_entity req) source_type ingest_epoch) (\<lambda>_. ()))
      (\<lambda>_. ebind (profile_step env req t ingest_epoch)
      (\<lambda>(profiled, columns). eret \<lparr>or_rows_inserted = n, or_profiled = profiled, or_columns = columns\<rparr>)))))))) (\<lambda>_. True)"
    unfolding profile_step_def Let_def
    by (intro handler_contracts)
      (auto simp: onboard_sound_rows [OF ok] split: prod.split profile_outcome.split intro!: handler_contracts)
qed

lemma sound_query: "ensures sound_event (query_handler ps env st t q) (\<lambda>_. True)"
  unfolding query_handler_def
  by (auto split: option.split intro!: ensures_sound_engine ensures_efail demand_seq)

lemma sound_suppression: "ensures sound_event (post_suppression ps env t req) (\<lambda>_. True)"
  unfolding post_suppression_def by (intro handler_contracts ensures_demand_any) simp_all

lemma sound_get_catalog: "ensures sound_event (get_catalog env t q) (\<lambda>_. True)"
  unfolding get_catalog_def Let_def
  by (intro handler_contracts ensures_demand_any) (auto split: option.split intro!: handler_contracts)

lemma sound_put_catalog: "ensures sound_event (put_catalog env t req) (\<lambda>_. True)"
  unfolding put_catalog_def by (intro handler_contracts ensures_demand_any) simp_all

lemma sound_producer: "ensures sound_event (post_run_producer env t req) (\<lambda>_. True)"
  unfolding post_run_producer_def run_producer_def
  by (auto split: option.split intro!: handler_contracts ensures_demand_any)

lemma sound_audience: "ensures sound_event (get_audience ps env st t snap) (\<lambda>_. True)"
  unfolding get_audience_def snapshot_of_def
  by (intro ensures_seq [OF ensures_elift] ensures_seq [OF ensures_peek] ensures_eret
      ensures_seq [OF ensures_sound_engine]) simp_all

lemma sound_export:
  assumes "wired si config"
  shows "ensures sound_event (get_export (si_parsers si) (si_env si) st t snap q) (\<lambda>_. True)"
proof -
  have id: "ensures sound_event (elift (parse_snap_id (si_parsers si) snap)) (\<lambda>b. qmarks b = 0)"
    using assms by (intro ensures_elift) (auto simp: parse_snap_id_def rbind_Inr_iff wired_def)
  have uuid: "ensures sound_event (peek (ig_uuid (si_env si))) (\<lambda>u. qmarks u = 0)"
    using assms by (simp add: ensures_def peek_def wired_def)
  have dir: "qmarks (ig_temp_dir (si_env si)) = 0" using assms by (simp add: wired_def)
  show ?thesis
    unfolding get_export_def Let_def snapshot_of_def
    by (auto intro!: ensures_efail ensures_eret ensures_ebind [OF id] ensures_ebind [OF uuid] ensures_seq [OF ensures_elift]
        ensures_seq [OF ensures_peek [of _ "ig_unix_secs (si_env si)"]] ensures_seq [OF ensures_sound_engine] ensures_seq [OF ensures_send]
        ensures_seq [OF ensures_ask] simp: dir)
qed

lemma handler_sound:
  assumes "wired si config"
  shows "\<exists>evs. snd (handler si t e params req hist) = hist @ evs \<and> list_all sound_event evs"
  by (cases e) (auto intro!: decoded_events run_api_events sound_onboard sound_query sound_suppression sound_get_catalog
      sound_put_catalog sound_producer sound_audience sound_export [OF assms])

lemma served_sound:
  assumes "wired si config" "serve_request si req reg hist = (r, reg', hist @ evs)"
  shows "list_all sound_event evs"
  using assms(2) handler_sound [OF assms(1)]
  by (auto simp: serve_request_def dispatch_request_def case_prod_unfold Let_def
      split: if_splits sum.splits prod.splits routed.splits option.splits) (metis same_append_eq snd_conv)+

subsection \<open>From a request to the database\<close>

text \<open>The commands a caller's requests bring about: those of a handler, and the one of the task of an
  accepted job. Requests run concurrently: each handler's answers are any function of what it asked, and
  the writer may take the commands in any order.\<close>

inductive issued :: "engine_config \<Rightarrow> string \<Rightarrow> command \<Rightarrow> bool" for config where
  by_handler: "wired si config \<Longrightarrow> caller si config req = Some t \<Longrightarrow>
    serve_request si req reg hist = (r, reg', hist @ evs) \<Longrightarrow> Writer_event c \<in> set evs \<Longrightarrow> issued config t c"
| by_job: "wired si config \<Longrightarrow> caller si config req = Some t \<Longrightarrow> dc_jobs (si_decoders si) (aq_body req) = Inr q \<Longrightarrow>
    post_jobs (ps_segment (si_parsers si)) (ps_rfc3339 (si_parsers si)) u now t q reg = (Inr (jid, seg), reg') \<Longrightarrow>
    run_job si t jid (jq_campaign_id q) seg reg' hist = (reg'', hist @ evs) \<Longrightarrow>
    Engine_event (Write_request sql params key spec t') \<in> set evs \<Longrightarrow> issued config t (Materialize sql params key spec t')"

lemma scoped_reads: "scoped_request t r \<Longrightarrow> \<exists>sql params. r = Read_request sql params"
  by (auto simp: scoped_request_def catalogue_read_def plan_read_def profile_read_def Let_def)

lemma posted_wf: "post_jobs fv rf u now t q reg = (Inr (jid, seg), reg') \<Longrightarrow> wf_segment rf seg"
  by (auto simp: post_jobs_def Let_def rbind_Inr_iff parse_def wf_segment_def validate_ok_aux
      split: sum.splits)

lemma job_writes:
  assumes "wf_segment rf seg" "run_job si t jid campaign seg reg hist = (reg', hist @ evs)"
    and "Engine_event (Write_request sql params key spec t') \<in> set evs"
  shows "t' = t \<and> qmarks sql = length params"
proof -
  have "materialise_request t (Write_request sql params key spec t')"
    using ensures_evs [OF ensures_materialize [OF assms(1)], where log = "[]"] assms(2,3)
    by (auto simp: run_job_def case_prod_unfold Let_def list_all_iff)
  then show ?thesis
    using scoped_reads by (fastforce simp: materialise_request_def materialise_write_def Let_def qmarks_render)
qed

lemma issued_good: "issued config t c \<Longrightarrow> sound_command c \<and> set_option (command_tenant c) \<subseteq> {t}"
proof (induction rule: issued.induct)
  case (by_handler si req t reg hist r reg' evs c)
  then have "si_auth si = build_auth (ps_sha (si_parsers si)) config" by (simp add: wired_def)
  from request_effects [OF this by_handler(3)] by_handler(2,4)
  have "permitted_event si t (Writer_event c)" by (auto simp: list_all_iff)
  moreover have "sound_event (Writer_event c)"
    using served_sound [OF by_handler(1,3)] by_handler(4) by (auto simp: list_all_iff)
  ultimately show ?case
    by (auto simp: permitted_event_def approved_sql_def snapshot_lookup_def owned_export_def)
next
  case (by_job si req t q u now reg jid seg reg' hist reg'' evs sql params key spec t')
  from job_writes [OF posted_wf [OF by_job(4)] by_job(5,6)] show ?case by simp
qed

text \<open>What the engine itself sends the writer: the maintenance sweep, the read of the offsets a CDC consumer
  resumes from, and the shutdown.\<close>

fun housekeeping :: "command \<Rightarrow> bool" where
  "housekeeping (CompactAll days) \<longleftrightarrow> True"
| "housekeeping (ReadCdcOffset source) \<longleftrightarrow> True"
| "housekeeping Shutdown \<longleftrightarrow> True"
| "housekeeping c \<longleftrightarrow> False"

lemma housekeeping_good: "housekeeping c \<Longrightarrow> sound_command c \<and> command_tenant c = None"
  by (cases c) simp_all


subsection \<open>A request and its statements\<close>

definition small_onboard :: onboard_request where
  "small_onboard = sample_onboard\<lparr>ob_source_type := None\<rparr>"

definition small_decoders :: decoders where
  "small_decoders = \<lparr>dc_onboard = (\<lambda>b. Inr small_onboard), dc_query = (\<lambda>b. Inl (400, Msg [] [])),
     dc_suppression = (\<lambda>b. Inl (400, Msg [] [])), dc_edit = (\<lambda>b. Inl (400, Msg [] [])),
     dc_producer = (\<lambda>b. Inl (400, Msg [] [])), dc_jobs = (\<lambda>b. Inl (400, Msg [] [])),
     dc_catalog = (\<lambda>b. Inl (400, Msg [] [])), dc_export = (\<lambda>b. Inl (400, Msg [] [])), dc_path = Inr\<rparr>"

definition small_site :: site where
  "small_site = \<lparr>si_parsers = sample_parsers\<lparr>ps_uuid := \<lambda>s. qmarks s = 0\<rparr>, si_env = sample_ingress, si_state = sample_state,
     si_auth = build_auth id two_tenants, si_to_str = Some, si_decoders = small_decoders, si_instant = length\<rparr>"

definition small_request :: api_request where
  "small_request = \<lparr>aq_verb = Post, aq_http = \<lparr>rq_path = ''/sources/onboard'', rq_authorization = Some ''Bearer s3cret''\<rparr>,
     aq_query = [], aq_body = []\<rparr>"

lemma small_site_sel [simp]:
  "si_auth small_site = build_auth id two_tenants" "ps_sha (si_parsers small_site) = id" "si_to_str small_site = Some"
  "si_env small_site = sample_ingress" "si_decoders small_site = small_decoders"
  by (simp_all add: small_site_def)

lemma small_wired: "wired small_site two_tenants"
  by (simp add: wired_def) (simp add: small_site_def sample_ingress_def)

lemma small_caller: "caller small_site two_tenants small_request = Some ''acme''"
  by (simp add: caller_def two_tenants_credentials small_request_def bearer_def owner_of_def)

lemma small_routed:
  "router id Some (build_auth id two_tenants) (aq_verb small_request) (aq_http small_request) =
     Inr (Some ''acme'', Endpoint Onboard_source [])"
  by (simp add: small_request_def router_def require_auth_def resolve_tenant_build owner_of_def two_tenants_credentials
      routes_def route_def served_verb_def) (simp add: two_tenants_def build_auth_def)

lemma small_onboard_ok: "onboard_ok small_onboard"
  using sample_onboard_ok by (simp add: small_onboard_def onboard_ok_def)

lemma small_ingest: "ingest_command ''acme'' small_onboard = one_row ''acme'' ''u1''"
  by (simp add: ingest_command_def small_onboard_def sample_onboard_def one_row_def)

lemma small_served:
  "\<exists>r evs. serve_request small_site small_request registry_default [] =
     (r, registry_default, [] @ Writer_event (one_row ''acme'' ''u1'') # evs)"
proof -
  have c: "check_onboard small_onboard [] = (Inr (), [])"
    using is_check_onboard [of small_onboard] small_onboard_ok by (simp add: is_check_def)
  obtain evs where evs: "snd (onboard sample_ingress ''acme'' small_onboard []) = Writer_event (one_row ''acme'' ''u1'') # evs"
    using ensures_evs [OF ensures_after_ingest [of "''acme''" sample_ingress small_onboard 1], of "[Writer_event (one_row ''acme'' ''u1'')]"]
    by (auto simp: onboard_checked c small_ingest ebind_send)
  have "snd (handler small_site ''acme'' Onboard_source [] small_request []) = Writer_event (one_row ''acme'' ''u1'') # evs"
    using evs by (simp add: decoded_def run_api_def small_decoders_def split: prod.split sum.split) (metis snd_conv)
  then show ?thesis
    by (simp add: serve_request_def small_routed dispatch_request_def case_prod_unfold Let_def)
qed


definition small_wakes :: "wake list" where
  "small_wakes = [Received 0 0 (one_row ''acme'' ''u1''), Received 0 0 Shutdown]"

lemma small_issued: "issued two_tenants ''acme'' (one_row ''acme'' ''u1'')"
proof -
  obtain r evs where s: "serve_request small_site small_request registry_default [] =
     (r, registry_default, [] @ Writer_event (one_row ''acme'' ''u1'') # evs)" using small_served by blast
  show ?thesis by (rule issued.by_handler [OF small_wired small_caller s]) simp
qed


definition posted_site :: site where
  "posted_site = small_site\<lparr>si_parsers := sample_parsers\<lparr>ps_segment := whole_table\<rparr>,
     si_decoders := small_decoders\<lparr>dc_jobs := \<lambda>b. Inr export_request\<rparr>\<rparr>"

definition jobs_api_request :: api_request where
  "jobs_api_request = small_request\<lparr>aq_http := \<lparr>rq_path = ''/jobs'', rq_authorization = Some ''Bearer s3cret''\<rparr>\<rparr>"

lemma jobs_routed:
  "router id Some (build_auth id two_tenants) (aq_verb jobs_api_request) (aq_http jobs_api_request) =
     Inr (Some ''acme'', Endpoint Post_jobs [])"
  by (simp add: jobs_api_request_def small_request_def router_def require_auth_def resolve_tenant_build owner_of_def
      two_tenants_credentials routes_def route_def served_verb_def) (simp add: two_tenants_def build_auth_def)

lemma posted_served:
  "\<exists>r. serve_request posted_site jobs_api_request (jw_registry (job_start 2)) [] =
     (r, insert_running 0 ''j_u'' ''acme'' registry_default, [])"
proof -
  have "post_jobs whole_table rf ''u'' 0 ''acme'' export_request reg =
     (Inr (''j_u'', SegmentQuery \<lparr>ds_system = ''crm'', ds_entity = ''users''\<rparr> ''user_id'' [] None),
      insert_running 0 ''j_u'' ''acme'' reg)" for rf reg
    using export_names
    by (simp add: post_jobs_def whole_table_def export_request_def parse_def validate_ident_field_def validate_ident_def
        validate_positions_def Let_def)
  then show ?thesis
    by (simp add: serve_request_def posted_site_def jobs_routed dispatch_request_def small_decoders_def job_start_def)
      (simp add: small_site_def)
qed


end
