(* ===== verification/Execution_Reader.thy ===== *)
theory Execution_Reader
  imports Storage_Base Query_Engine
begin

text \<open>
  \<open>crates/execution/src/lib.rs\<close>: the read pool. Choosing a worker, a worker's loop over its
  commands with the refresh of its read-only attach, running a query and turning its values into
  JSON. A worker's calls and its loads of the write generation are a log; what they answer is the
  environment's choice. The thread interleaving of the refresh is in \<open>Execution_Refresh\<close>.
\<close>

subsection \<open>Values\<close>

datatype time_unit = Second | Millisecond | Microsecond | Nanosecond

text \<open>The kinds \<open>value_to_json\<close> tells apart; every other kind is \<open>DOther\<close>.\<close>

datatype duck_value =
    DNull
  | DBoolean bool
  | DTinyInt int | DSmallInt int | DInt int | DBigInt int
  | DUTinyInt nat | DUSmallInt nat | DUInt nat | DUBigInt nat
  | DHugeInt int | DUHugeInt nat
  | DFloat nat
  | DDouble f64_bits
  | DText string
  | DEnum string
  | DList "duck_value list"
  | DArray "duck_value list"
  | DTimestamp time_unit int
  | DOther

definition ticks_per_second :: "time_unit \<Rightarrow> int" where
  "ticks_per_second u = (case u of Second \<Rightarrow> 1 | Millisecond \<Rightarrow> 1000 | Microsecond \<Rightarrow> 1000000 | Nanosecond \<Rightarrow> 1000000000)"

text \<open>\<open>div_euclid\<close> and \<open>rem_euclid\<close> by a positive number are \<open>div\<close> and \<open>mod\<close>; \<open>as u32\<close> truncates.\<close>

definition as_u32 :: "int \<Rightarrow> nat" where
  "as_u32 n = nat (n mod 4294967296)"

fun split_timestamp :: "time_unit \<Rightarrow> int \<Rightarrow> int \<times> nat" where
  "split_timestamp Second ts = (ts, 0)"
| "split_timestamp Millisecond ts = (ts div 1000, as_u32 (ts mod 1000 * 1000000))"
| "split_timestamp Microsecond ts = (ts div 1000000, as_u32 (ts mod 1000000 * 1000))"
| "split_timestamp Nanosecond ts = (ts div 1000000000, as_u32 (ts mod 1000000000))"

text \<open>The formats of chrono and of wide integers, which are not this program's.\<close>

record formats =
  fm_timestamp :: "int \<Rightarrow> nat \<Rightarrow> string option"
  fm_int :: "int \<Rightarrow> string"

definition timestamp_to_iso :: "formats \<Rightarrow> time_unit \<Rightarrow> int \<Rightarrow> string option" where
  "timestamp_to_iso fm u ts = (case split_timestamp u ts of (secs, nanos) \<Rightarrow> fm_timestamp fm secs nanos)"

text \<open>\<open>json!\<close> of an integer and of a double: an infinity or a NaN has no JSON number.\<close>

definition json_int :: "int \<Rightarrow> json" where
  "json_int i = JNumber (if i < 0 then NegInt i else PosInt (nat i))"

definition f64_finite :: "f64_bits \<Rightarrow> bool" where
  "f64_finite b \<longleftrightarrow> b div 2 ^ 52 mod 2048 \<noteq> 2047"

definition json_f64 :: "f64_bits \<Rightarrow> json" where
  "json_f64 b = (if f64_finite b then JNumber (Float b) else JNull)"

fun value_to_json :: "formats \<Rightarrow> duck_value \<Rightarrow> json" where
  "value_to_json fm DNull = JNull"
| "value_to_json fm (DBoolean b) = JBool b"
| "value_to_json fm (DTinyInt i) = json_int i"
| "value_to_json fm (DSmallInt i) = json_int i"
| "value_to_json fm (DInt i) = json_int i"
| "value_to_json fm (DBigInt i) = json_int i"
| "value_to_json fm (DUTinyInt n) = json_int (int n)"
| "value_to_json fm (DUSmallInt n) = json_int (int n)"
| "value_to_json fm (DUInt n) = json_int (int n)"
| "value_to_json fm (DUBigInt n) = json_int (int n)"
| "value_to_json fm (DFloat f) = json_fl (fl_cast F64 (fl_of_bits F32 f))"
| "value_to_json fm (DDouble d) = json_f64 d"
| "value_to_json fm (DText s) = JString s"
| "value_to_json fm (DEnum s) = JString s"
| "value_to_json fm (DList vs) = JArray (map (value_to_json fm) vs)"
| "value_to_json fm (DArray vs) = JArray (map (value_to_json fm) vs)"
| "value_to_json fm (DHugeInt i) = JString (fm_int fm i)"
| "value_to_json fm (DUHugeInt n) = JString (fm_int fm (int n))"
| "value_to_json fm (DTimestamp u ts) =
     (case timestamp_to_iso fm u ts of Some s \<Rightarrow> JString s | None \<Rightarrow> JNull)"
| "value_to_json fm DOther = JNull"

subsection \<open>Running a query\<close>

text \<open>What stepping through a result gives: the column names and the rows, each of them, and each of
  their cells, possibly an error.\<close>

type_synonym row_answer = "(msg, (msg, duck_value) result list) result"

fun collect_cells :: "formats \<Rightarrow> (msg, duck_value) result list \<Rightarrow> (core_error, json list) result" where
  "collect_cells fm [] = Inr []"
| "collect_cells fm (c # cs) =
     rbind (map_err Execution c) (\<lambda>v. rbind (collect_cells fm cs) (\<lambda>js. Inr (value_to_json fm v # js)))"

fun collect_rows :: "formats \<Rightarrow> row_answer list \<Rightarrow> (core_error, json list list) result" where
  "collect_rows fm [] = Inr []"
| "collect_rows fm (r # rs) =
     rbind (map_err Execution r) (\<lambda>cells.
     rbind (collect_cells fm cells) (\<lambda>row.
     rbind (collect_rows fm rs) (\<lambda>rows. Inr (row # rows))))"

datatype reader_event =
    Pragma_call string
  | Load_generation
  | Refresh_call string
  | Prepare_call string
  | Query_call string "dval list"
  | Answer_query "(core_error, query_result) result"

type_synonym reader_log = "reader_event list"

record reader_env =
  rd_unit :: "reader_log \<Rightarrow> (msg, unit) result"
  rd_rows :: "reader_log \<Rightarrow> (msg, string list \<times> row_answer list) result"
  rd_gen :: "reader_log \<Rightarrow> nat"
  rd_now :: "reader_log \<Rightarrow> nat"

type_synonym 'a reading = "(reader_event, core_error, 'a) logged"

definition reader_run_query :: "reader_env \<Rightarrow> formats \<Rightarrow> string \<Rightarrow> dval list \<Rightarrow> query_result reading" where
  "reader_run_query env fm sql params =
     ebind (ask (Prepare_call sql) (rd_unit env)) (\<lambda>r.
     ebind (elift (map_err Execution r)) (\<lambda>_.
     ebind (ask (Query_call sql params) (rd_rows env)) (\<lambda>r.
     ebind (elift (map_err Execution r)) (\<lambda>(columns, answers).
     ebind (elift (collect_rows fm answers)) (\<lambda>rows.
     eret \<lparr>qr_columns = columns, qr_rows = rows\<rparr>)))))"

subsection \<open>The worker\<close>

datatype refresh_policy = Always | OnWrite nat

datatype reader_cmd = Run_cmd string "dval list" | Stop_cmd

record worker_state =
  wk_last_gen :: nat
  wk_last_refresh :: nat

record reader_limits =
  rl_memory_limit :: string
  rl_threads :: nat

definition reader_limits_default :: "nat option \<Rightarrow> reader_limits" where
  "reader_limits_default parallelism =
     \<lparr>rl_memory_limit = ''8GB'', rl_threads = (case parallelism of Some n \<Rightarrow> n | None \<Rightarrow> 8)\<rparr>"

definition pragma_sql :: "reader_limits \<Rightarrow> string" where
  "pragma_sql limits =
     ''PRAGMA memory_limit='' @ [CHR 0x27] @ escape_for_sql_literal (rl_memory_limit limits) @ [CHR 0x27] @
     ''; PRAGMA threads='' @ show_nat (rl_threads limits) @ '';''"

definition refresh_sql :: "string \<Rightarrow> string" where
  "refresh_sql attach_sql = ''DETACH '' @ READ_ONLY_CATALOG_ALIAS @ ''; '' @ attach_sql"

text \<open>The generation is loaded only under \<open>OnWrite\<close>.\<close>

definition needs_refresh :: "reader_env \<Rightarrow> refresh_policy \<Rightarrow> worker_state \<Rightarrow> bool reading" where
  "needs_refresh env policy w =
     (case policy of
        Always \<Rightarrow> eret True
      | OnWrite interval \<Rightarrow>
          ebind (ask Load_generation (rd_gen env)) (\<lambda>g.
          ebind (peek (rd_now env)) (\<lambda>now.
          eret (g \<noteq> wk_last_gen w \<or> now - wk_last_refresh w \<ge> interval))))"

text \<open>After a successful re-attach the generation is loaded again, and the instant noted.\<close>

definition refresh :: "reader_env \<Rightarrow> refresh_policy \<Rightarrow> string \<Rightarrow> worker_state \<Rightarrow> worker_state reading" where
  "refresh env policy attach_sql w =
     ebind (ask (Refresh_call (refresh_sql attach_sql)) (rd_unit env)) (\<lambda>r.
     ebind (elift (map_err Execution r)) (\<lambda>_.
     ebind (case policy of
              Always \<Rightarrow> eret (wk_last_gen w)
            | OnWrite interval \<Rightarrow> ask Load_generation (rd_gen env)) (\<lambda>g.
     ebind (peek (rd_now env)) (\<lambda>now.
     eret \<lparr>wk_last_gen = g, wk_last_refresh = now\<rparr>))))"

text \<open>One query: its answer is sent, whatever it is, and the loop goes on with the new state.\<close>

definition serve ::
  "reader_env \<Rightarrow> formats \<Rightarrow> refresh_policy \<Rightarrow> string \<Rightarrow> string \<Rightarrow> dval list \<Rightarrow> worker_state \<Rightarrow> reader_log \<Rightarrow>
     worker_state \<times> reader_log"
where
  "serve env fm policy attach_sql sql params w log =
     (case needs_refresh env policy w log of
        (Inr True, log) \<Rightarrow>
          (case refresh env policy attach_sql w log of
             (Inl e, log) \<Rightarrow> (w, log @ [Answer_query (Inl e)])
           | (Inr w', log) \<Rightarrow>
               (case reader_run_query env fm sql params log of (r, log) \<Rightarrow> (w', log @ [Answer_query r])))
      | (_, log) \<Rightarrow>
          (case reader_run_query env fm sql params log of (r, log) \<Rightarrow> (w, log @ [Answer_query r])))"

fun serve_all ::
  "reader_env \<Rightarrow> formats \<Rightarrow> refresh_policy \<Rightarrow> string \<Rightarrow> reader_cmd list \<Rightarrow> worker_state \<Rightarrow> reader_log \<Rightarrow>
     worker_state \<times> reader_log"
where
  "serve_all env fm policy attach_sql [] w log = (w, log)"
| "serve_all env fm policy attach_sql (Stop_cmd # cmds) w log = (w, log)"
| "serve_all env fm policy attach_sql (Run_cmd sql params # cmds) w log =
     (case serve env fm policy attach_sql sql params w log of
        (w, log) \<Rightarrow> serve_all env fm policy attach_sql cmds w log)"

definition worker_loop ::
  "reader_env \<Rightarrow> formats \<Rightarrow> refresh_policy \<Rightarrow> string \<Rightarrow> reader_limits \<Rightarrow> reader_cmd list \<Rightarrow> worker_state \<times> reader_log"
where
  "worker_loop env fm policy attach_sql limits cmds =
     (let log = [Pragma_call (pragma_sql limits)]
      in serve_all env fm policy attach_sql cmds \<lparr>wk_last_gen = 0, wk_last_refresh = rd_now env log\<rparr> log)"

subsection \<open>The pool\<close>

record reader_pool =
  rp_workers :: nat
  rp_next :: nat
  rp_policy :: refresh_policy

text \<open>\<open>generation\<close> says whether a write generation is wired; the interval is at least a second.\<close>

definition start_pooled :: "nat \<Rightarrow> bool \<Rightarrow> nat \<Rightarrow> (core_error, reader_pool) result" where
  "start_pooled conns generation refresh_interval =
     (if conns = 0 then Inl (InvalidInput (Msg ''read pool needs at least one worker connection'' []))
      else Inr \<lparr>rp_workers = conns, rp_next = 0,
             rp_policy = (if generation then OnWrite (max refresh_interval 1000000000) else Always)\<rparr>)"

definition start_reader :: "(core_error, reader_pool) result" where
  "start_reader = start_pooled 1 False 0"

text \<open>The round robin over an \<open>AtomicUsize\<close>, which wraps.\<close>

definition dispatch :: "reader_pool \<Rightarrow> nat \<times> reader_pool" where
  "dispatch p = (rp_next p mod rp_workers p, p\<lparr>rp_next := (rp_next p + 1) mod 18446744073709551616\<rparr>)"

end
