(* ===== verification/Execution_Refresh.thy ===== *)
theory Execution_Refresh
  imports Execution_Reader
begin

text \<open>
  The read pool's refresh against the writer, thread by thread. The writer commits and then
  advances the generation (\<open>bump_write\<close>); a worker loads the generation, may re-attach, loads the
  generation again and runs its query, each load and each statement one step. \<open>OnWrite\<close> only:
  \<open>Always\<close> re-attaches before every query.
\<close>

subsection \<open>The steps\<close>

text \<open>\<open>rs_announced\<close> is the number of commits made before the last advance of the generation, so what
  a reader that sees the generation is owed; \<open>rs_owed\<close> is that number at the worker's last check.
  \<open>rs_pinned\<close> is the number of commits the worker's attach sees. \<open>rs_raced\<close>: the generation moved
  between the last re-attach and the load after it.\<close>

datatype reader_pc = Idle | To_attach | To_load | To_run

record refresh_state =
  rs_now :: nat
  rs_commits :: nat
  rs_gen :: nat
  rs_announced :: nat
  rs_pc :: reader_pc
  rs_attached :: bool
  rs_pinned :: nat
  rs_last_gen :: nat
  rs_last_refresh :: nat
  rs_attach_gen :: nat
  rs_raced :: bool
  rs_owed :: nat

definition refresh_start :: "nat \<Rightarrow> nat \<Rightarrow> refresh_state" where
  "refresh_start commits now =
     \<lparr>rs_now = now, rs_commits = commits, rs_gen = 0, rs_announced = commits, rs_pc = Idle, rs_attached = True,
      rs_pinned = commits, rs_last_gen = 0, rs_last_refresh = now, rs_attach_gen = 0, rs_raced = False, rs_owed = commits\<rparr>"

text \<open>DuckDB runs the statements of the refresh in order and stops at the first that fails: a
  \<open>DETACH\<close> of a database that is not attached fails, and an \<open>ATTACH\<close> that fails leaves it detached.\<close>

inductive refresh_step :: "nat \<Rightarrow> refresh_state \<Rightarrow> refresh_state \<Rightarrow> bool" for interval where
  tick: "refresh_step interval s (s\<lparr>rs_now := rs_now s + d\<rparr>)"
| commit: "refresh_step interval s (s\<lparr>rs_commits := rs_commits s + 1\<rparr>)"
| advance: "refresh_step interval s (s\<lparr>rs_gen := rs_gen s + 1, rs_announced := rs_commits s\<rparr>)"
| check_refresh: "rs_pc s = Idle \<Longrightarrow> rs_gen s \<noteq> rs_last_gen s \<or> rs_now s - rs_last_refresh s \<ge> interval \<Longrightarrow>
    refresh_step interval s (s\<lparr>rs_pc := To_attach, rs_owed := rs_announced s\<rparr>)"
| check_skip: "rs_pc s = Idle \<Longrightarrow> \<not> (rs_gen s \<noteq> rs_last_gen s \<or> rs_now s - rs_last_refresh s \<ge> interval) \<Longrightarrow>
    refresh_step interval s (s\<lparr>rs_pc := To_run, rs_owed := rs_announced s\<rparr>)"
| attach: "rs_pc s = To_attach \<Longrightarrow> rs_attached s \<Longrightarrow>
    refresh_step interval s (s\<lparr>rs_pc := To_load, rs_pinned := rs_commits s, rs_attach_gen := rs_gen s\<rparr>)"
| attach_failed: "rs_pc s = To_attach \<Longrightarrow> rs_attached s \<Longrightarrow>
    refresh_step interval s (s\<lparr>rs_pc := Idle, rs_attached := False\<rparr>)"
| detach_failed: "rs_pc s = To_attach \<Longrightarrow> refresh_step interval s (s\<lparr>rs_pc := Idle\<rparr>)"
| load: "rs_pc s = To_load \<Longrightarrow>
    refresh_step interval s (s\<lparr>rs_pc := To_run, rs_last_gen := rs_gen s, rs_last_refresh := rs_now s,
      rs_raced := (rs_attach_gen s \<noteq> rs_gen s)\<rparr>)"
| run: "rs_pc s = To_run \<Longrightarrow> refresh_step interval s (s\<lparr>rs_pc := Idle\<rparr>)"

inductive refresh_reachable :: "nat \<Rightarrow> refresh_state \<Rightarrow> bool" for interval where
  start: "refresh_reachable interval (refresh_start commits now)"
| move: "refresh_reachable interval s \<Longrightarrow> refresh_step interval s s' \<Longrightarrow> refresh_reachable interval s'"

subsection \<open>What a query sees\<close>

definition refresh_inv :: "refresh_state \<Rightarrow> bool" where
  "refresh_inv s \<longleftrightarrow>
     rs_announced s \<le> rs_commits s \<and> rs_owed s \<le> rs_announced s \<and>
     rs_last_gen s \<le> rs_gen s \<and>
     (rs_pc s \<noteq> To_load \<and> \<not> rs_raced s \<and> rs_last_gen s = rs_gen s \<longrightarrow> rs_announced s \<le> rs_pinned s) \<and>
     (rs_pc s = To_load \<longrightarrow> rs_owed s \<le> rs_pinned s \<and> rs_attach_gen s \<le> rs_gen s \<and>
        (rs_attach_gen s = rs_gen s \<longrightarrow> rs_announced s \<le> rs_pinned s)) \<and>
     (rs_pc s = To_run \<and> \<not> rs_raced s \<longrightarrow> rs_owed s \<le> rs_pinned s)"

lemma refresh_inv_step: "refresh_step interval s s' \<Longrightarrow> refresh_inv s \<Longrightarrow> refresh_inv s'"
  by (induction rule: refresh_step.induct) (auto simp: refresh_inv_def)

lemma refresh_reachable_inv: "refresh_reachable interval s \<Longrightarrow> refresh_inv s"
proof (induction rule: refresh_reachable.induct)
  case (start commits now)
  then show ?case by (simp add: refresh_inv_def refresh_start_def)
next
  case (move s s')
  then show ?case using refresh_inv_step by blast
qed

end
