(* ===== verification/Execution_Spec.thy ===== *)
theory Execution_Spec
  imports Execution_Refresh
begin

text \<open>
  The properties of the read pool: what a query sees of the writer's commits, what a race and a
  failed re-attach cost, that every query is answered once, and that timestamps keep their instant.
\<close>

subsection \<open>Freshness of reads\<close>

text \<open>C33: a query runs on a snapshot with every commit that was announced when its worker checked the
  generation, provided no write was announced between the worker's last re-attach and the load of
  the generation that followed it.\<close>

theorem reader_sees_announced:
  assumes "refresh_reachable interval s" "rs_pc s = To_run" "\<not> rs_raced s"
  shows "rs_owed s \<le> rs_pinned s"
  using refresh_reachable_inv [OF assms(1)] assms(2,3) by (simp add: refresh_inv_def)

definition after_steps :: "(refresh_state \<Rightarrow> refresh_state) list \<Rightarrow> refresh_state" where
  "after_steps fs = fold (\<lambda>f s. f s) fs (refresh_start 0 0)"

lemmas refresh_moves = refresh_reachable.move [OF _ commit] refresh_reachable.move [OF _ advance]
  refresh_reachable.move [OF _ check_refresh] refresh_reachable.move [OF _ check_skip]
  refresh_reachable.move [OF _ attach] refresh_reachable.move [OF _ load] refresh_reachable.move [OF _ run]

text \<open>One write before a query, whose worker then re-attaches.\<close>

lemma one_refresh:
  "refresh_reachable (Suc i) \<lparr>rs_now = 0, rs_commits = 1, rs_gen = 1, rs_announced = 1, rs_pc = To_load,
     rs_attached = True, rs_pinned = 1, rs_last_gen = 0, rs_last_refresh = 0, rs_attach_gen = 1,
     rs_raced = False, rs_owed = 1\<rparr>"
proof -
  from refresh_moves(1) [OF refresh_reachable.start [of "Suc i" 0 0], THEN refresh_moves(2)]
  have "refresh_reachable (Suc i) ((refresh_start 0 0)\<lparr>rs_commits := 1, rs_gen := 1, rs_announced := 1\<rparr>)"
    by (simp add: refresh_start_def)
  from refresh_moves(3) [OF this]
  have "refresh_reachable (Suc i)
      ((refresh_start 0 0)\<lparr>rs_commits := 1, rs_gen := 1, rs_announced := 1, rs_pc := To_attach, rs_owed := 1\<rparr>)"
    by (simp add: refresh_start_def)
  from refresh_moves(5) [OF this] show ?thesis by (simp add: refresh_start_def)
qed

theorem reader_sees_announced_witness:
  "\<exists>s. refresh_reachable 1 s \<and> rs_pc s = To_run \<and> \<not> rs_raced s \<and> rs_owed s = 1 \<and> rs_owed s \<le> rs_pinned s"
proof -
  let ?s = "\<lparr>rs_now = 0, rs_commits = 1, rs_gen = 1, rs_announced = 1, rs_pc = To_run,
     rs_attached = True, rs_pinned = 1, rs_last_gen = 1, rs_last_refresh = 0, rs_attach_gen = 1,
     rs_raced = False, rs_owed = 1\<rparr> :: refresh_state"
  have "refresh_reachable 1 ?s" using refresh_moves(6) [OF one_refresh [of 0]] by simp
  with reader_sees_announced [OF this] show ?thesis by (intro exI [of _ ?s]) simp
qed

text \<open>without that proviso the claim fails. A write announced between the re-attach and the load
  is counted as seen: a later query skips its refresh, with the generation equal to the one it last
  loaded, and runs on a snapshot without that commit.\<close>

theorem reader_race_hides_commit:
  "\<exists>s. refresh_reachable (Suc i) s \<and> rs_pc s = To_run \<and> rs_last_gen s = rs_gen s \<and> rs_pinned s < rs_owed s"
proof -
  note refresh_moves(1) [OF one_refresh [of i], THEN refresh_moves(2), simplified]
  from refresh_moves(6) [OF this, simplified]
  have "refresh_reachable (Suc i) \<lparr>rs_now = 0, rs_commits = 2, rs_gen = 2, rs_announced = 2, rs_pc = To_run,
     rs_attached = True, rs_pinned = 1, rs_last_gen = 2, rs_last_refresh = 0, rs_attach_gen = 1,
     rs_raced = True, rs_owed = 1\<rparr>"
    by (simp add: numeral_2_eq_2)
  from refresh_moves(7) [OF this, simplified]
  have "refresh_reachable (Suc i) \<lparr>rs_now = 0, rs_commits = 2, rs_gen = 2, rs_announced = 2, rs_pc = Idle,
     rs_attached = True, rs_pinned = 1, rs_last_gen = 2, rs_last_refresh = 0, rs_attach_gen = 1,
     rs_raced = True, rs_owed = 1\<rparr>"
    by (simp add: numeral_2_eq_2)
  from refresh_moves(4) [OF this, simplified]
  have "refresh_reachable (Suc i) \<lparr>rs_now = 0, rs_commits = 2, rs_gen = 2, rs_announced = 2, rs_pc = To_run,
     rs_attached = True, rs_pinned = 1, rs_last_gen = 2, rs_last_refresh = 0, rs_attach_gen = 1,
     rs_raced = True, rs_owed = 2\<rparr>"
    by simp
  then show ?thesis by (metis (no_types, lifting) one_less_numeral_iff refresh_state.select_convs(3,4,5,7,8,12) semiring_norm(76))
qed

subsection \<open>A failed re-attach\<close>

definition stale :: "nat \<Rightarrow> refresh_state \<Rightarrow> bool" where
  "stale interval s \<longleftrightarrow> rs_gen s \<noteq> rs_last_gen s \<or> rs_now s - rs_last_refresh s \<ge> interval"

definition stuck_inv :: "nat \<Rightarrow> refresh_state \<Rightarrow> bool" where
  "stuck_inv interval s \<longleftrightarrow>
     rs_last_gen s \<le> rs_gen s \<and> (rs_pc s = To_attach \<or> \<not> rs_attached s \<longrightarrow> stale interval s) \<and>
     (\<not> rs_attached s \<longrightarrow> rs_pc s = Idle \<or> rs_pc s = To_attach)"

lemma stuck_inv_step: "refresh_step interval s s' \<Longrightarrow> stuck_inv interval s \<Longrightarrow> stuck_inv interval s'"
  by (induction rule: refresh_step.induct) (auto simp: stuck_inv_def stale_def)

lemma stuck_inv_reachable: "refresh_reachable interval s \<Longrightarrow> stuck_inv interval s"
proof (induction rule: refresh_reachable.induct)
  case (start commits now)
  then show ?case by (simp add: stuck_inv_def stale_def refresh_start_def)
next
  case (move s s')
  then show ?case using stuck_inv_step by blast
qed

lemma detached_step: "refresh_step interval s s' \<Longrightarrow> stuck_inv interval s \<Longrightarrow> \<not> rs_attached s \<Longrightarrow> \<not> rs_attached s'"
  by (induction rule: refresh_step.induct) auto

text \<open>a re-attach that fails once costs the worker: whatever the writer and the clock do from then
  on, no query of that worker reaches its snapshot again, every one ends at the failing refresh.\<close>

theorem failed_attach_is_permanent:
  assumes "refresh_reachable interval s" "\<not> rs_attached s" "(refresh_step interval)\<^sup>*\<^sup>* s s'"
  shows "\<not> rs_attached s' \<and> rs_pc s' \<noteq> To_load \<and> rs_pc s' \<noteq> To_run"
proof -
  from assms(3) have "stuck_inv interval s' \<and> \<not> rs_attached s'"
  proof (induction rule: rtranclp_induct)
    case base
    then show ?case using assms(1,2) stuck_inv_reachable by blast
  next
    case (step u v)
    then show ?case using stuck_inv_step detached_step by blast
  qed
  then show ?thesis by (auto simp: stuck_inv_def)
qed

definition detached_state :: refresh_state where
  "detached_state = (refresh_start 0 0)\<lparr>rs_commits := 1, rs_gen := 1, rs_announced := 1, rs_owed := 1, rs_attached := False\<rparr>"

lemma detached_reachable: "refresh_reachable 1 detached_state"
proof -
  from refresh_moves(1) [OF refresh_reachable.start [of 1 0 0], THEN refresh_moves(2)]
  have "refresh_reachable 1 ((refresh_start 0 0)\<lparr>rs_commits := 1, rs_gen := 1, rs_announced := 1\<rparr>)"
    by (simp add: refresh_start_def)
  from refresh_moves(3) [OF this]
  have "refresh_reachable 1
      ((refresh_start 0 0)\<lparr>rs_commits := 1, rs_gen := 1, rs_announced := 1, rs_pc := To_attach, rs_owed := 1\<rparr>)"
    by (simp add: refresh_start_def)
  from refresh_reachable.move [OF this attach_failed] show ?thesis
    by (simp add: refresh_start_def detached_state_def)
qed

theorem failed_attach_is_permanent_witness:
  "let s' = detached_state\<lparr>rs_pc := To_attach, rs_owed := 1\<rparr>
   in \<not> rs_attached s' \<and> rs_pc s' \<noteq> To_load \<and> rs_pc s' \<noteq> To_run"
proof -
  have "refresh_step 1 detached_state (detached_state\<lparr>rs_pc := To_attach, rs_owed := 1\<rparr>)"
    using check_refresh [of detached_state 1] by (simp add: detached_state_def refresh_start_def)
  then have "(refresh_step 1)\<^sup>*\<^sup>* detached_state (detached_state\<lparr>rs_pc := To_attach, rs_owed := 1\<rparr>)" ..
  from failed_attach_is_permanent [OF detached_reachable _ this]
  show ?thesis by (simp add: detached_state_def refresh_start_def)
qed

subsection \<open>The worker's answers\<close>

fun answers :: "reader_log \<Rightarrow> nat" where
  "answers [] = 0"
| "answers (Answer_query r # log) = Suc (answers log)"
| "answers (_ # log) = answers log"

lemma answers_append: "answers (log @ log') = answers log + answers log'"
  by (induction log rule: answers.induct) simp_all

fun no_answer :: "reader_event \<Rightarrow> bool" where
  "no_answer (Answer_query r) \<longleftrightarrow> False"
| "no_answer _ \<longleftrightarrow> True"

lemma answers_none: "list_all no_answer log \<Longrightarrow> answers log = 0"
  by (induction log rule: answers.induct) simp_all

lemma quiet_run_query: "ensures no_answer (reader_run_query env fm sql params) (\<lambda>_. True)"
  unfolding reader_run_query_def
  by (intro ensures_seq ensures_ask ensures_elift) (auto intro!: ensures_seq ensures_elift ensures_eret split: prod.split)

lemma quiet_needs_refresh: "ensures no_answer (needs_refresh env policy w) (\<lambda>_. True)"
  by (cases policy) (auto simp: needs_refresh_def intro!: ensures_seq ensures_ask ensures_eret ensures_peek)

lemma quiet_refresh: "ensures no_answer (refresh env policy attach_sql w) (\<lambda>_. True)"
  by (cases policy) (auto simp: refresh_def intro!: ensures_seq ensures_ask ensures_eret ensures_peek ensures_elift)

lemma quiet_answers: "ensures no_answer m Q \<Longrightarrow> m log = (r, log') \<Longrightarrow> answers log' = answers log"
  using ensures_log [of no_answer m Q log r log'] by (auto simp: answers_append answers_none)

lemma serve_answers: "answers (snd (serve env fm policy attach_sql sql params w log)) = Suc (answers log)"
proof -
  obtain b log1 where check: "needs_refresh env policy w log = (b, log1)" by fastforce
  obtain r log2 where q: "reader_run_query env fm sql params log1 = (r, log2)" by fastforce
  obtain w' log3 where re: "refresh env policy attach_sql w log1 = (w', log3)" by fastforce
  obtain r' log4 where q': "reader_run_query env fm sql params log3 = (r', log4)" by fastforce
  note counts = quiet_answers [OF quiet_needs_refresh check] quiet_answers [OF quiet_run_query q]
    quiet_answers [OF quiet_refresh re] quiet_answers [OF quiet_run_query q']
  show ?thesis
    using counts by (auto simp: serve_def check q re q' answers_append split: sum.split bool.split)
qed

fun queries_until_stop :: "reader_cmd list \<Rightarrow> nat" where
  "queries_until_stop [] = 0"
| "queries_until_stop (Stop_cmd # cmds) = 0"
| "queries_until_stop (Run_cmd sql params # cmds) = Suc (queries_until_stop cmds)"

lemma serve_all_answers:
  "answers (snd (serve_all env fm policy attach_sql cmds w log)) = answers log + queries_until_stop cmds"
proof (induction cmds arbitrary: w log rule: queries_until_stop.induct)
  case (3 sql params cmds)
  obtain w1 log1 where s: "serve env fm policy attach_sql sql params w log = (w1, log1)" by fastforce
  with serve_answers [of env fm policy attach_sql sql params w log] 3 show ?case by simp
qed simp_all

text \<open>a worker answers every query it takes up, once, whether its refresh or the query failed.\<close>

theorem worker_answers_each_query:
  "answers (snd (worker_loop env fm policy attach_sql limits cmds)) = queries_until_stop cmds"
  by (simp add: worker_loop_def Let_def serve_all_answers)

subsection \<open>Timestamps\<close>

text \<open>splitting a timestamp into seconds and nanoseconds keeps its instant, before 1970 too, and the
  nanoseconds never reach a second, so no cast to 32 bits cuts them.\<close>

theorem split_timestamp_exact:
  "(case split_timestamp u ts of (secs, nanos) \<Rightarrow>
      (secs * 1000000000 + int nanos) * ticks_per_second u = ts * 1000000000 \<and> nanos < 1000000000)"
proof -
  have split: "(ts div n * 1000000000 + int (as_u32 (ts mod n * k))) * n = ts * 1000000000 \<and> as_u32 (ts mod n * k) < 1000000000"
    if "0 < n" "n * k = 1000000000" for n k :: int
  proof -
    have k: "0 < k"
    proof (rule ccontr)
      assume "\<not> 0 < k"
      with that(1) have "n * k \<le> 0" by (simp add: mult_nonneg_nonpos)
      with that(2) show False by simp
    qed
    have "ts mod n < n" using that(1) by simp
    with k have "ts mod n * k < n * k" by (intro mult_strict_right_mono)
    with that k have r: "0 \<le> ts mod n * k" "ts mod n * k < 1000000000" by simp_all
    from r have u: "int (as_u32 (ts mod n * k)) = ts mod n * k" by (simp add: as_u32_def)
    have distrib: "a * c * n + r * c = (n * a + r) * c" for a r c :: int by (simp add: algebra_simps)
    have "(ts div n * 1000000000 + ts mod n * k) * n = (ts div n * 1000000000) * n + ts mod n * (n * k)"
      by (simp add: algebra_simps)
    also have "\<dots> = (n * (ts div n) + ts mod n) * 1000000000"
      unfolding that(2) by (rule distrib)
    also have "n * (ts div n) + ts mod n = ts" by simp
    finally have "(ts div n * 1000000000 + ts mod n * k) * n = ts * 1000000000" .
    moreover have "as_u32 (ts mod n * k) < 1000000000" using r(2) u by linarith
    ultimately show ?thesis using u by simp
  qed
  show ?thesis
    using split [of 1000 1000000] split [of 1000000 1000] split [of 1000000000 1]
    by (cases u) (simp_all add: ticks_per_second_def)
qed

end
