(* ===== verification/Execution_Pool.thy ===== *)
theory Execution_Pool
  imports Execution_Spec "HOL-Library.Multiset"
begin

text \<open>
  The read pool as a whole, \<open>Reader\<close> of \<open>crates/execution/src/lib.rs\<close>: any number of callers of
  \<open>query_with_params\<close> and \<open>shutdown\<close>, the round robin they share, one bounded channel per worker and the
  workers at their other ends, as a step relation. \<open>pool_session_refines\<close> shows that each worker does a run of
  \<open>worker_loop\<close> over the queries it took and that each caller gets the answer to its own query.
\<close>

subsection \<open>The session\<close>

text \<open>\<open>flume::bounded::<Cmd>(64)\<close>.\<close>

definition WORKER_CHANNEL :: nat where
  "WORKER_CHANNEL = 64"

text \<open>A query carries the channel of its reply: here the number of its call.\<close>

datatype pool_cmd = Pool_query string "dval list" nat | Pool_stop

record pool_call =
  pc_id :: nat
  pc_worker :: nat
  pc_sql :: string
  pc_params :: "dval list"

definition pool_query :: "pool_call \<Rightarrow> pool_cmd" where
  "pool_query c = Pool_query (pc_sql c) (pc_params c) (pc_id c)"

record pool_setup =
  po_envs :: "nat \<Rightarrow> reader_env"
  po_formats :: formats
  po_attach :: string
  po_limits :: reader_limits

text \<open>Calls that have drawn their worker and wait for room in its channel (\<open>pl_sending\<close>), the channels,
  the workers, the calls answered in order with their answers, the calls that failed or were given up
  by their caller, and the calls of \<open>shutdown\<close>, each with the next worker it tells.\<close>

record pool_session =
  pl_pool :: reader_pool
  pl_issued :: nat
  pl_sending :: "pool_call list"
  pl_queue :: "nat \<Rightarrow> pool_cmd list"
  pl_worker :: "nat \<Rightarrow> worker_state \<times> reader_log"
  pl_exited :: "nat \<Rightarrow> bool"
  pl_done :: "(pool_call \<times> (core_error, query_result) result) list"
  pl_failed :: "nat list"
  pl_stopping :: "nat list"

definition pool_start :: "pool_setup \<Rightarrow> reader_pool \<Rightarrow> pool_session" where
  "pool_start su p = \<lparr>pl_pool = p, pl_issued = 0, pl_sending = [], pl_queue = (\<lambda>i. []),
     pl_worker = (\<lambda>i. worker_loop (po_envs su i) (po_formats su) (rp_policy p) (po_attach su) (po_limits su) []),
     pl_exited = (\<lambda>i. False), pl_done = [], pl_failed = [], pl_stopping = []\<rparr>"

text \<open>The answers a log has sent, in order.\<close>

fun replies :: "reader_log \<Rightarrow> (core_error, query_result) result list" where
  "replies [] = []"
| "replies (Answer_query r # log) = r # replies log"
| "replies (ev # log) = replies log"

text \<open>One turn of the loop of worker \<open>i\<close>: what it sends goes to the channel of the query it took.\<close>

definition pool_serve :: "pool_setup \<Rightarrow> pool_session \<Rightarrow> pool_call \<Rightarrow> pool_cmd list \<Rightarrow> pool_session" where
  "pool_serve su s c q =
     (let i = pc_worker c;
          (w, log) = pl_worker s i;
          (w', log') = serve (po_envs su i) (po_formats su) (rp_policy (pl_pool s)) (po_attach su) (pc_sql c) (pc_params c) w log
      in s\<lparr>pl_queue := (pl_queue s)(i := q), pl_worker := (pl_worker s)(i := (w', log')),
           pl_done := pl_done s @ map (Pair c) (replies (drop (length log) log'))\<rparr>)"

text \<open>A caller may be dropped while it waits for room. A command left behind a shutdown stays in the channel
  or is dropped with it, which is up to flume: \<open>lost\<close> may happen and need not.\<close>

inductive pool_step :: "pool_setup \<Rightarrow> pool_session \<Rightarrow> pool_session \<Rightarrow> bool" for su where
  call: "dispatch (pl_pool s) = (i, p) \<Longrightarrow>
    pool_step su s (s\<lparr>pl_pool := p, pl_issued := Suc (pl_issued s),
      pl_sending := pl_sending s @ [\<lparr>pc_id = pl_issued s, pc_worker = i, pc_sql = sql, pc_params = params\<rparr>]\<rparr>)"
| sent: "pl_sending s = before @ c # after \<Longrightarrow> \<not> pl_exited s (pc_worker c) \<Longrightarrow>
    length (pl_queue s (pc_worker c)) < WORKER_CHANNEL \<Longrightarrow>
    pool_step su s (s\<lparr>pl_sending := before @ after,
      pl_queue := (pl_queue s)(pc_worker c := pl_queue s (pc_worker c) @ [pool_query c])\<rparr>)"
| refused: "pl_sending s = before @ c # after \<Longrightarrow> pl_exited s (pc_worker c) \<Longrightarrow>
    pool_step su s (s\<lparr>pl_sending := before @ after, pl_failed := pc_id c # pl_failed s\<rparr>)"
| abandoned: "pl_sending s = before @ c # after \<Longrightarrow>
    pool_step su s (s\<lparr>pl_sending := before @ after, pl_failed := pc_id c # pl_failed s\<rparr>)"
| served: "\<not> pl_exited s (pc_worker c) \<Longrightarrow> pl_queue s (pc_worker c) = pool_query c # q \<Longrightarrow>
    pool_step su s (pool_serve su s c q)"
| stopped: "\<not> pl_exited s i \<Longrightarrow> pl_queue s i = Pool_stop # q \<Longrightarrow>
    pool_step su s (s\<lparr>pl_queue := (pl_queue s)(i := q), pl_exited := (pl_exited s)(i := True)\<rparr>)"
| lost: "pl_exited s i \<Longrightarrow> pl_queue s i = Pool_query sql params k # q \<Longrightarrow>
    pool_step su s (s\<lparr>pl_queue := (pl_queue s)(i := q), pl_failed := k # pl_failed s\<rparr>)"
| shutdown: "pool_step su s (s\<lparr>pl_stopping := pl_stopping s @ [0]\<rparr>)"
| tell: "j < length (pl_stopping s) \<Longrightarrow> pl_stopping s ! j = i \<Longrightarrow> i < rp_workers (pl_pool s) \<Longrightarrow>
    \<not> pl_exited s i \<Longrightarrow> length (pl_queue s i) < WORKER_CHANNEL \<Longrightarrow>
    pool_step su s (s\<lparr>pl_stopping := (pl_stopping s)[j := Suc i], pl_queue := (pl_queue s)(i := pl_queue s i @ [Pool_stop])\<rparr>)"
| told: "j < length (pl_stopping s) \<Longrightarrow> pl_stopping s ! j = i \<Longrightarrow> i < rp_workers (pl_pool s) \<Longrightarrow> pl_exited s i \<Longrightarrow>
    pool_step su s (s\<lparr>pl_stopping := (pl_stopping s)[j := Suc i]\<rparr>)"

abbreviation pool_steps :: "pool_setup \<Rightarrow> pool_session \<Rightarrow> pool_session \<Rightarrow> bool" where
  "pool_steps su \<equiv> (pool_step su)\<^sup>*\<^sup>*"

subsection \<open>One turn of a worker\<close>

lemma replies_append: "replies (log @ log') = replies log @ replies log'"
  by (induction log rule: replies.induct) simp_all

lemma replies_none: "list_all no_answer log \<Longrightarrow> replies log = []"
  by (induction log rule: replies.induct) simp_all

text \<open>Whatever happens to its refresh and its query, a turn adds one answer to the log, its last event.\<close>

lemma serve_ends:
  assumes "ensures P (needs_refresh env policy w) (\<lambda>_. True)" "ensures P (refresh env policy attach_sql w) (\<lambda>_. True)"
    and "ensures P (reader_run_query env fm sql params) (\<lambda>_. True)"
  shows "\<exists>evs r. snd (serve env fm policy attach_sql sql params w log) = log @ evs @ [Answer_query r] \<and> list_all P evs"
proof -
  obtain b log1 where check: "needs_refresh env policy w log = (b, log1)" by fastforce
  obtain r log2 where q: "reader_run_query env fm sql params log1 = (r, log2)" by fastforce
  obtain w' log3 where re: "refresh env policy attach_sql w log1 = (w', log3)" by fastforce
  obtain r' log4 where q': "reader_run_query env fm sql params log3 = (r', log4)" by fastforce
  note logs = ensures_log [OF assms(1) check] ensures_log [OF assms(3) q] ensures_log [OF assms(2) re]
    ensures_log [OF assms(3) q']
  have "\<exists>r l. snd (serve env fm policy attach_sql sql params w log) = l @ [Answer_query r] \<and> l \<in> {log2, log3, log4}"
    by (simp add: serve_def check re q q' split: sum.split bool.split)
  then obtain r l where l: "snd (serve env fm policy attach_sql sql params w log) = l @ [Answer_query r]" "l \<in> {log2, log3, log4}"
    by blast
  from logs l(2) have "\<exists>evs. l = log @ evs \<and> list_all P evs" by auto
  with l(1) show ?thesis by auto
qed

lemma serve_extends:
  "\<exists>evs r. snd (serve env fm policy attach_sql sql params w log) = log @ evs \<and> replies evs = [r]"
  using serve_ends [OF quiet_needs_refresh quiet_refresh quiet_run_query, where log = log]
  by (fastforce simp: replies_append replies_none)

definition run_of :: "pool_call \<Rightarrow> reader_cmd" where
  "run_of c = Run_cmd (pc_sql c) (pc_params c)"

lemma serve_all_snoc:
  "serve_all env fm policy attach_sql (map run_of cs @ [run_of c]) w log =
     (case serve_all env fm policy attach_sql (map run_of cs) w log of
        (w, log) \<Rightarrow> serve env fm policy attach_sql (pc_sql c) (pc_params c) w log)"
  by (induction cs arbitrary: w log) (simp_all add: run_of_def split: prod.split)

lemma worker_loop_snoc:
  "worker_loop env fm policy attach_sql limits (map run_of cs @ [run_of c]) =
     (case worker_loop env fm policy attach_sql limits (map run_of cs) of
        (w, log) \<Rightarrow> serve env fm policy attach_sql (pc_sql c) (pc_params c) w log)"
  by (simp add: worker_loop_def Let_def serve_all_snoc)

subsection \<open>What every session keeps\<close>

definition done_by :: "nat \<Rightarrow> pool_session \<Rightarrow> (pool_call \<times> (core_error, query_result) result) list" where
  "done_by i s = filter (\<lambda>(c, r). pc_worker c = i) (pl_done s)"

text \<open>The worker of a call: the counter is an \<open>AtomicUsize\<close>.\<close>

definition worker_of :: "reader_pool \<Rightarrow> nat \<Rightarrow> nat" where
  "worker_of p k = k mod 18446744073709551616 mod rp_workers p"

fun tickets :: "pool_cmd list \<Rightarrow> nat list" where
  "tickets [] = []"
| "tickets (Pool_query sql params k # q) = k # tickets q"
| "tickets (Pool_stop # q) = tickets q"

lemma tickets_append [simp]: "tickets (q @ q') = tickets q @ tickets q'"
  by (induction q rule: tickets.induct) simp_all

definition routed_calls :: "reader_pool \<Rightarrow> pool_session \<Rightarrow> bool" where
  "routed_calls p s \<longleftrightarrow>
     (\<forall>c \<in> set (pl_sending s) \<union> fst ` set (pl_done s). pc_worker c = worker_of p (pc_id c)) \<and>
     (\<forall>i. \<forall>k \<in> set (tickets (pl_queue s i)). worker_of p k = i)"

definition accounted :: "reader_pool \<Rightarrow> pool_session \<Rightarrow> nat multiset" where
  "accounted p s = mset (map (pc_id \<circ> fst) (pl_done s)) + mset (map pc_id (pl_sending s)) +
     (\<Sum>i<rp_workers p. mset (tickets (pl_queue s i))) + mset (pl_failed s)"

definition workers_run :: "pool_setup \<Rightarrow> reader_pool \<Rightarrow> pool_session \<Rightarrow> bool" where
  "workers_run su p s \<longleftrightarrow> (\<forall>i.
     pl_worker s i = worker_loop (po_envs su i) (po_formats su) (rp_policy p) (po_attach su) (po_limits su)
       (map (run_of \<circ> fst) (done_by i s)) \<and>
     replies (snd (pl_worker s i)) = map snd (done_by i s))"

lemma workers_run_simps [simp]:
  "workers_run su p (s\<lparr>pl_pool := a\<rparr>) = workers_run su p s"
  "workers_run su p (s\<lparr>pl_issued := b\<rparr>) = workers_run su p s"
  "workers_run su p (s\<lparr>pl_sending := c\<rparr>) = workers_run su p s"
  "workers_run su p (s\<lparr>pl_queue := d\<rparr>) = workers_run su p s"
  "workers_run su p (s\<lparr>pl_exited := e\<rparr>) = workers_run su p s"
  "workers_run su p (s\<lparr>pl_failed := f\<rparr>) = workers_run su p s"
  "workers_run su p (s\<lparr>pl_stopping := g\<rparr>) = workers_run su p s"
  by (simp_all add: workers_run_def done_by_def)

definition pool_inv :: "pool_setup \<Rightarrow> reader_pool \<Rightarrow> pool_session \<Rightarrow> bool" where
  "pool_inv su p s \<longleftrightarrow>
     pl_pool s = p\<lparr>rp_next := pl_issued s mod 18446744073709551616\<rparr> \<and> routed_calls p s \<and> workers_run su p s \<and>
     accounted p s = mset [0..<pl_issued s]"

text \<open>Moving a command in or out of one channel.\<close>

lemma channel_sum:
  assumes "(i :: nat) < n"
  shows "(\<Sum>j<n. mset (tickets ((f(i := q)) j))) + mset (tickets (f i)) =
    (\<Sum>j<n. mset (tickets (f j))) + mset (tickets q)"
proof -
  have split: "(\<Sum>j<n. g j) = g i + (\<Sum>j\<in>{..<n} - {i}. g j)" for g :: "nat \<Rightarrow> nat multiset"
    using assms by (intro sum.remove) simp_all
  have "(\<Sum>j\<in>{..<n} - {i}. mset (tickets ((f(i := q)) j))) = (\<Sum>j\<in>{..<n} - {i}. mset (tickets (f j)))"
    by (intro sum.cong) simp_all
  with split [of "\<lambda>j. mset (tickets ((f(i := q)) j))"] split [of "\<lambda>j. mset (tickets (f j))"] show ?thesis
    by (simp add: ac_simps)
qed

lemma channel_put:
  "(i :: nat) < n \<Longrightarrow> (\<Sum>j<n. mset (tickets ((f(i := f i @ [cmd])) j))) = (\<Sum>j<n. mset (tickets (f j))) + mset (tickets [cmd])"
  using channel_sum [of i n f "f i @ [cmd]"] by simp

lemma channel_take:
  assumes "(i :: nat) < n" "f i = cmd # q"
  shows "(\<Sum>j<n. mset (tickets (f j))) = (\<Sum>j<n. mset (tickets ((f(i := q)) j))) + mset (tickets [cmd])"
  using channel_sum [OF assms(1), of f q] assms(2) by (cases cmd) simp_all

lemma pool_serve_turn:
  assumes "pl_worker s (pc_worker c) = (w, log)"
  shows "\<exists>w' evs r. serve (po_envs su (pc_worker c)) (po_formats su) (rp_policy (pl_pool s)) (po_attach su)
      (pc_sql c) (pc_params c) w log = (w', log @ evs) \<and> replies evs = [r] \<and>
    pool_serve su s c q = s\<lparr>pl_queue := (pl_queue s)(pc_worker c := q),
      pl_worker := (pl_worker s)(pc_worker c := (w', log @ evs)), pl_done := pl_done s @ [(c, r)]\<rparr>"
proof -
  obtain w' log' where turn: "serve (po_envs su (pc_worker c)) (po_formats su) (rp_policy (pl_pool s)) (po_attach su)
      (pc_sql c) (pc_params c) w log = (w', log')" by fastforce
  from serve_extends [of "po_envs su (pc_worker c)" "po_formats su" "rp_policy (pl_pool s)" "po_attach su"
      "pc_sql c" "pc_params c" w log] turn
  obtain evs r where "log' = log @ evs" "replies evs = [r]" by auto
  with turn assms show ?thesis
    by (intro exI [of _ w'] exI [of _ evs] exI [of _ r]) (simp add: pool_serve_def Let_def)
qed

lemmas routed_simps = routed_calls_def pool_query_def

lemma tickets_channel: "worker_of p k < rp_workers p" if "0 < rp_workers p"
  using that by (simp add: worker_of_def)

lemma accounted_served:
  assumes "pl_queue s (pc_worker c) = pool_query c # q" "pc_worker c < rp_workers p"
    and "pl_done s' = pl_done s @ [(c, r)]" "pl_queue s' = (pl_queue s)(pc_worker c := q)"
    and "pl_sending s' = pl_sending s" "pl_failed s' = pl_failed s"
  shows "accounted p s' = accounted p s"
  using channel_take [of "pc_worker c" "rp_workers p" "pl_queue s", OF assms(2,1)] assms(3-) by (simp add: accounted_def pool_query_def)

lemma workers_runD:
  assumes "workers_run su p s"
  shows "pl_worker s i = worker_loop (po_envs su i) (po_formats su) (rp_policy p) (po_attach su) (po_limits su)
      (map (run_of \<circ> fst) (done_by i s))"
    and "replies (snd (pl_worker s i)) = map snd (done_by i s)"
  using assms unfolding workers_run_def by blast+

lemma routed_done: "routed_calls p s \<Longrightarrow> d \<in> set (pl_done s) \<Longrightarrow> pc_worker (fst d) = worker_of p (pc_id (fst d))"
  unfolding routed_calls_def by blast

lemma workers_run_served:
  assumes "workers_run su p s" "pl_worker s (pc_worker c) = (w, log)" "replies evs = [r]"
    and turn: "serve (po_envs su (pc_worker c)) (po_formats su) (rp_policy p) (po_attach su) (pc_sql c) (pc_params c) w log =
      (w', log @ evs)"
  shows "workers_run su p (s\<lparr>pl_queue := qs, pl_worker := (pl_worker s)(pc_worker c := (w', log @ evs)),
    pl_done := pl_done s @ [(c, r)]\<rparr>)" (is "workers_run su p ?s")
  unfolding workers_run_def
proof (intro allI)
  fix i
  note run = workers_runD(1) [OF assms(1), of i, folded map_map] and ans = workers_runD(2) [OF assms(1), of i]
  show "pl_worker ?s i = worker_loop (po_envs su i) (po_formats su) (rp_policy p) (po_attach su) (po_limits su)
      (map (run_of \<circ> fst) (done_by i ?s)) \<and> replies (snd (pl_worker ?s i)) = map snd (done_by i ?s)"
  proof (cases "i = pc_worker c")
    case True
    then have "done_by i ?s = done_by i s @ [(c, r)]" by (simp add: done_by_def)
    moreover have "worker_loop (po_envs su i) (po_formats su) (rp_policy p) (po_attach su) (po_limits su)
        (map (run_of \<circ> fst) (done_by i s)) = (w, log)"
      using run assms(2) True by simp
    moreover have "replies log = map snd (done_by i s)" using ans assms(2) True by simp
    moreover note worker_loop_snoc [of "po_envs su i" "po_formats su" "rp_policy p" "po_attach su"
        "po_limits su" "map fst (done_by i s)" c]
    ultimately show ?thesis using True assms(3) turn by (simp add: replies_append)
  next
    case False
    then have "done_by i ?s = done_by i s" by (simp add: done_by_def)
    with False run ans show ?thesis by simp
  qed
qed

lemma queued_route: "pool_inv su p s \<Longrightarrow> k \<in> set (tickets (pl_queue s i)) \<Longrightarrow> worker_of p k = i"
  by (simp add: pool_inv_def routed_calls_def)

lemma pool_inv_step:
  assumes "pool_step su s s'" "pool_inv su p s" "0 < rp_workers p"
  shows "pool_inv su p s'"
  using assms(1)
proof (cases rule: pool_step.cases)
  case (call i p' sql params)
  from assms(2) call(2) have "i = worker_of p (pl_issued s)"
    "p' = p\<lparr>rp_next := Suc (pl_issued s) mod 18446744073709551616\<rparr>"
    by (auto simp: pool_inv_def dispatch_def worker_of_def mod_Suc_eq)
  with assms(2) call(1) show ?thesis
    by (simp add: pool_inv_def routed_simps accounted_def)
next
  case (sent before c after)
  from assms(2) sent have "pc_worker c = worker_of p (pc_id c)" by (simp add: pool_inv_def routed_calls_def)
  with assms(2,3) sent show ?thesis
    using channel_put [of "pc_worker c" "rp_workers p" "pl_queue s" "pool_query c"] tickets_channel [of p "pc_id c"]
    by (simp add: pool_inv_def routed_simps accounted_def)
next
  case (refused before c after)
  with assms(2) show ?thesis by (simp add: pool_inv_def routed_simps accounted_def)
next
  case (abandoned before c after)
  with assms(2) show ?thesis by (simp add: pool_inv_def routed_simps accounted_def)
next
  case (stopped i q)
  have "i < rp_workers p \<Longrightarrow> (\<Sum>j<rp_workers p. mset (tickets (pl_queue s j))) =
      (\<Sum>j<rp_workers p. mset (tickets (((pl_queue s)(i := q)) j)))"
    using channel_take [of i "rp_workers p" "pl_queue s", OF _ stopped(3)] by simp
  moreover have "\<not> i < rp_workers p \<Longrightarrow> (\<Sum>j<rp_workers p. mset (tickets (((pl_queue s)(i := q)) j))) =
      (\<Sum>j<rp_workers p. mset (tickets (pl_queue s j)))"
    by (intro sum.cong) auto
  ultimately show ?thesis using assms(2) stopped
    by (cases "i < rp_workers p") (auto simp: pool_inv_def routed_simps accounted_def)
next
  case (tell j i)
  with assms(2) show ?thesis
    using channel_put [of i "rp_workers p" "pl_queue s" Pool_stop]
    by (auto simp: pool_inv_def routed_simps accounted_def)
next
  case (lost i sql params k q)
  from lost(3) have "worker_of p k = i" by (intro queued_route [OF assms(2)]) simp
  with tickets_channel [OF assms(3), of k] have "i < rp_workers p" by simp
  from channel_take [of i "rp_workers p" "pl_queue s", OF this lost(3)] assms(2) lost show ?thesis
    by (auto simp: pool_inv_def routed_simps accounted_def)
next
  case (served c q)
  obtain w log where wk: "pl_worker s (pc_worker c) = (w, log)" by fastforce
  from pool_serve_turn [of s c w log su q, OF wk] obtain w' evs r where
    turn: "serve (po_envs su (pc_worker c)) (po_formats su) (rp_policy (pl_pool s)) (po_attach su)
      (pc_sql c) (pc_params c) w log = (w', log @ evs)" "replies evs = [r]"
    and s': "s' = s\<lparr>pl_queue := (pl_queue s)(pc_worker c := q),
      pl_worker := (pl_worker s)(pc_worker c := (w', log @ evs)), pl_done := pl_done s @ [(c, r)]\<rparr>"
    using served(1) by blast
  from served(3) have c: "pc_worker c = worker_of p (pc_id c)"
    by (intro queued_route [OF assms(2), symmetric]) (simp add: pool_query_def)
  with assms(3) have "accounted p s' = accounted p s"
    by (intro accounted_served [OF served(3)]) (simp_all add: s' tickets_channel)
  moreover have "routed_calls p s'"
    using assms(2) served(3) c by (auto simp: s' pool_inv_def routed_calls_def pool_query_def)
  moreover have "workers_run su p s'"
    unfolding s' by (rule workers_run_served [OF _ wk turn(2)]) (use assms(2) turn(1) in \<open>simp_all add: pool_inv_def\<close>)
  ultimately show ?thesis
    using assms(2) by (simp add: pool_inv_def s')
next
  case shutdown
  with assms(2) show ?thesis by (simp add: pool_inv_def routed_simps accounted_def)
next
  case (told j i)
  with assms(2) show ?thesis by (simp add: pool_inv_def routed_simps accounted_def)
qed

lemma pool_inv_start: "rp_next p = 0 \<Longrightarrow> pool_inv su p (pool_start su p)"
  by (simp add: pool_inv_def pool_start_def routed_calls_def workers_run_def done_by_def accounted_def
      worker_loop_def Let_def)

lemma pool_inv_reachable:
  "pool_steps su (pool_start su p) s \<Longrightarrow> rp_next p = 0 \<Longrightarrow> 0 < rp_workers p \<Longrightarrow> pool_inv su p s"
  by (induction rule: rtranclp_induct) (auto intro: pool_inv_start pool_inv_step)

lemma start_pooled_fresh: "start_pooled conns generation interval = Inr p \<Longrightarrow> rp_next p = 0 \<and> 0 < rp_workers p"
  by (auto simp: start_pooled_def split: if_splits)

text \<open>C40: Whatever callers do and however their queries interleave, each worker of the pool has done exactly a
  run of its loop over the queries it took, in order, and each of those callers has that run's answer to
  its own query; query \<open>k\<close> went to worker \<open>k\<close> modulo their number; and every query issued is in exactly
  one place: answered, waiting for room, in a channel, or failed.\<close>

theorem pool_session_refines:
  assumes "start_pooled conns generation interval = Inr p" "pool_steps su (pool_start su p) s"
  shows "pl_worker s i = worker_loop (po_envs su i) (po_formats su) (rp_policy p) (po_attach su) (po_limits su)
      (map (run_of \<circ> fst) (done_by i s)) \<and>
    map snd (done_by i s) = replies (snd (pl_worker s i)) \<and>
    list_all (\<lambda>(c, r). pc_worker c = worker_of p (pc_id c)) (pl_done s) \<and>
    mset (map (pc_id \<circ> fst) (pl_done s)) + mset (map pc_id (pl_sending s)) +
      (\<Sum>j<conns. mset (tickets (pl_queue s j))) + mset (pl_failed s) = mset [0..<pl_issued s]"
proof -
  from start_pooled_fresh [OF assms(1)] have inv: "pool_inv su p s" by (intro pool_inv_reachable [OF assms(2)]) simp_all
  have "rp_workers p = conns" using assms(1) by (auto simp: start_pooled_def split: if_splits)
  with inv have "accounted p s = mset [0..<pl_issued s]" "workers_run su p s" "routed_calls p s" "rp_workers p = conns"
    by (simp_all add: pool_inv_def)
  note facts = this
  from routed_done [OF facts(3)] have "list_all (\<lambda>(c, r). pc_worker c = worker_of p (pc_id c)) (pl_done s)"
    by (fastforce simp: list_all_iff)
  with workers_runD [OF facts(2), of i] facts(1,4) show ?thesis by (simp add: accounted_def)
qed

text \<open>Any run of as many queries as there are workers, before the counter wraps, asks each worker once.\<close>

theorem round_robin_spreads:
  assumes "0 < rp_workers p" "k + rp_workers p \<le> 18446744073709551616"
  shows "bij_betw (worker_of p) {k ..< k + rp_workers p} {..< rp_workers p}"
proof -
  let ?n = "rp_workers p"
  have of_mod: "worker_of p x = x mod ?n" if "x \<in> {k ..< k + ?n}" for x
    using that assms(2) by (simp add: worker_of_def)
  have apart: "x mod ?n \<noteq> y mod ?n" if "x < y" "y < k + ?n" "k \<le> x" for x y
  proof
    assume "x mod ?n = y mod ?n"
    with that(1) have "?n dvd y - x" by (simp add: mod_eq_dvd_iff_nat [symmetric])
    moreover from that have "0 < y - x" "y - x < ?n" by simp_all
    ultimately show False using dvd_imp_le by fastforce
  qed
  have inj: "inj_on (worker_of p) {k ..< k + ?n}"
  proof (rule inj_onI)
    fix x y assume xy: "x \<in> {k ..< k + ?n}" "y \<in> {k ..< k + ?n}" "worker_of p x = worker_of p y"
    with apart [of x y] apart [of y x] show "x = y" by (cases x y rule: linorder_cases) (simp_all add: of_mod)
  qed
  have "worker_of p ` {k ..< k + ?n} \<subseteq> {..< ?n}" using assms(1) by (auto simp: worker_of_def)
  moreover have "card (worker_of p ` {k ..< k + ?n}) = card {..< ?n}" using card_image [OF inj] by simp
  ultimately have "worker_of p ` {k ..< k + ?n} = {..< ?n}" by (intro card_subset_eq) simp_all
  with inj show ?thesis by (simp add: bij_betw_def)
qed

theorem round_robin_spreads_witness:
  "bij_betw (worker_of \<lparr>rp_workers = 4, rp_next = 0, rp_policy = Always\<rparr>) {7 ..< 11} {..< 4}"
  using round_robin_spreads [of "\<lparr>rp_workers = 4, rp_next = 0, rp_policy = Always\<rparr>" 7] by simp

subsection \<open>What the workers send the database\<close>

fun only_query :: "string \<Rightarrow> dval list \<Rightarrow> reader_event \<Rightarrow> bool" where
  "only_query sql params (Query_call s ps) \<longleftrightarrow> s = sql \<and> ps = params"
| "only_query sql params (Prepare_call s) \<longleftrightarrow> s = sql"
| "only_query sql params ev \<longleftrightarrow> True"

lemma run_query_only: "ensures (only_query sql params) (reader_run_query env fm sql params) (\<lambda>_. True)"
  unfolding reader_run_query_def
  by (intro ensures_seq ensures_ask ensures_elift) (auto intro!: ensures_seq ensures_elift ensures_eret split: prod.split)

lemma needs_refresh_only: "ensures (only_query sql params) (needs_refresh env policy w) (\<lambda>_. True)"
  by (cases policy) (auto simp: needs_refresh_def intro!: ensures_seq ensures_ask ensures_eret ensures_peek)

lemma refresh_only: "ensures (only_query sql params) (refresh env policy attach_sql w) (\<lambda>_. True)"
  by (cases policy) (auto simp: refresh_def intro!: ensures_seq ensures_ask ensures_eret ensures_peek ensures_elift)

lemma serve_only:
  "\<exists>evs. snd (serve env fm policy attach_sql sql params w log) = log @ evs \<and> list_all (only_query sql params) evs"
  using serve_ends [OF needs_refresh_only refresh_only run_query_only, where log = log]
  by fastforce

lemma worker_queries:
  "Query_call sql params \<in> set (snd (worker_loop env fm policy attach_sql limits (map run_of cs))) \<Longrightarrow>
   \<exists>c \<in> set cs. pc_sql c = sql \<and> pc_params c = params"
proof (induction cs rule: rev_induct)
  case Nil
  then show ?case by (simp add: worker_loop_def Let_def)
next
  case (snoc c cs)
  obtain w log where wl: "worker_loop env fm policy attach_sql limits (map run_of cs) = (w, log)" by fastforce
  from serve_only [of env fm policy attach_sql "pc_sql c" "pc_params c" w log] obtain evs where
    evs: "snd (serve env fm policy attach_sql (pc_sql c) (pc_params c) w log) = log @ evs"
      "list_all (only_query (pc_sql c) (pc_params c)) evs" by blast
  with snoc.prems wl have "Query_call sql params \<in> set log \<or> Query_call sql params \<in> set evs"
    by (simp add: worker_loop_snoc)
  with snoc.IH wl evs(2) show ?case by (auto simp: list_all_iff)
qed

text \<open>the workers run nothing but the queries of the calls they answered.\<close>

lemma pool_queries:
  assumes "start_pooled conns generation interval = Inr p" "pool_steps su (pool_start su p) s"
    and "Query_call sql params \<in> set (snd (pl_worker s i))"
  shows "\<exists>c r. (c, r) \<in> set (pl_done s) \<and> pc_worker c = i \<and> pc_sql c = sql \<and> pc_params c = params"
proof -
  from start_pooled_fresh [OF assms(1)] have "pool_inv su p s" by (intro pool_inv_reachable [OF assms(2)]) simp_all
  then have "workers_run su p s" by (simp add: pool_inv_def)
  from workers_runD(1) [OF this, of i, folded map_map] assms(3) obtain c where
    "c \<in> set (map fst (done_by i s))" "pc_sql c = sql" "pc_params c = params"
    using worker_queries by metis
  then show ?thesis by (auto simp: done_by_def)
qed

subsection \<open>Queries get through\<close>

lemma pool_step_served:
  assumes "\<not> pl_exited s i" "pl_queue s i = pool_query c # q" "pc_worker c = i"
  shows "\<exists>s' r. pool_step su s s' \<and> pl_done s' = pl_done s @ [(c, r)] \<and> pl_queue s' i = q \<and> pl_exited s' = pl_exited s"
proof -
  obtain w log where "pl_worker s (pc_worker c) = (w, log)" by fastforce
  from pool_serve_turn [OF this, of su q] obtain w' evs r where
    eq: "pool_serve su s c q = s\<lparr>pl_queue := (pl_queue s)(pc_worker c := q),
      pl_worker := (pl_worker s)(pc_worker c := (w', log @ evs)), pl_done := pl_done s @ [(c, r)]\<rparr>" by blast
  from pool_step.served [of s c q su] assms have "pool_step su s (pool_serve su s c q)" by simp
  then show ?thesis
    by (intro exI [of _ "pool_serve su s c q"] exI [of _ r]) (simp add: eq assms(3))
qed

text \<open>a query in the channel of a running worker, with no shutdown in front of it, is answered after as
  many more turns of that worker as there are queries before it, with no further call: each of those
  turns is possible, whatever the database answers.\<close>

theorem pool_query_answered:
  assumes "\<not> pl_exited s i" "pl_queue s i = map pool_query (before @ [c]) @ after"
    and "list_all (\<lambda>c. pc_worker c = i) (before @ [c])"
  shows "\<exists>s' r. pool_steps su s s' \<and> (c, r) \<in> set (pl_done s')"
  using assms
proof (induction before arbitrary: s)
  case Nil
  then obtain s' r where "pool_step su s s'" "pl_done s' = pl_done s @ [(c, r)]"
    using pool_step_served [of s i c after su] by auto
  then show ?case by (intro exI [of _ s'] exI [of _ r]) simp
next
  case (Cons d ds)
  then obtain s' where
    step: "pool_step su s s'" "pl_queue s' i = map pool_query (ds @ [c]) @ after" "pl_exited s' = pl_exited s"
    using pool_step_served [of s i d "map pool_query (ds @ [c]) @ after" su] by auto
  with Cons.prems have "\<not> pl_exited s' i" "list_all (\<lambda>c. pc_worker c = i) (ds @ [c])" by simp_all
  from Cons.IH [OF this(1) step(2) this(2)] step(1) show ?case by (meson converse_rtranclp_into_rtranclp)
qed

subsection \<open>A session\<close>

definition sample_pool :: reader_pool where
  "sample_pool = \<lparr>rp_workers = 2, rp_next = 0, rp_policy = Always\<rparr>"

definition sample_reader :: reader_env where
  "sample_reader = \<lparr>rd_unit = (\<lambda>log. Inr ()), rd_rows = (\<lambda>log. Inr ([], [])), rd_gen = (\<lambda>log. 0), rd_now = (\<lambda>log. 0)\<rparr>"

definition sample_setup :: pool_setup where
  "sample_setup = \<lparr>po_envs = (\<lambda>i. sample_reader), po_formats = \<lparr>fm_timestamp = (\<lambda>s n. None), fm_int = (\<lambda>i. ''0'')\<rparr>,
     po_attach = ''ATTACH'', po_limits = reader_limits_default None\<rparr>"

definition sample_call :: "string \<Rightarrow> dval list \<Rightarrow> pool_call" where
  "sample_call sql params = \<lparr>pc_id = 0, pc_worker = 0, pc_sql = sql, pc_params = params\<rparr>"

definition sample_queued :: "string \<Rightarrow> dval list \<Rightarrow> pool_session" where
  "sample_queued sql params = (pool_start sample_setup sample_pool)\<lparr>pl_pool := sample_pool\<lparr>rp_next := 1\<rparr>, pl_issued := 1,
     pl_queue := (\<lambda>i. [])(0 := [pool_query (sample_call sql params)])\<rparr>"

lemma sample_pool_starts: "start_pooled 2 False 0 = Inr sample_pool"
  by (simp add: start_pooled_def sample_pool_def)

lemma sample_queued_reachable: "pool_steps sample_setup (pool_start sample_setup sample_pool) (sample_queued sql params)"
proof -
  let ?s0 = "pool_start sample_setup sample_pool"
  let ?s1 = "?s0\<lparr>pl_pool := sample_pool\<lparr>rp_next := 1\<rparr>, pl_issued := 1, pl_sending := [sample_call sql params]\<rparr>"
  have one: "pool_step sample_setup ?s0 ?s1"
    using pool_step.call [of ?s0 0 "sample_pool\<lparr>rp_next := 1\<rparr>" sample_setup sql params]
    by (simp add: pool_start_def dispatch_def sample_pool_def sample_call_def)
  have "pool_step sample_setup ?s1 (sample_queued sql params)"
    using pool_step.sent [of ?s1 "[]" "sample_call sql params" "[]" sample_setup]
    by (simp add: pool_start_def sample_queued_def WORKER_CHANNEL_def sample_call_def)
  with one show ?thesis by (meson rtranclp.rtrancl_into_rtrancl r_into_rtranclp)
qed

lemma sample_turn:
  "serve sample_reader fm Always attach sql params w log = (w', log') \<Longrightarrow>
   log' = log @ [Refresh_call (refresh_sql attach), Prepare_call sql, Query_call sql params, Answer_query (Inr \<lparr>qr_columns = [], qr_rows = []\<rparr>)]"
  by (simp add: serve_def needs_refresh_def refresh_def reader_run_query_def sample_reader_def ebind_def ask_def peek_def
      elift_def eret_def)

text \<open>One query, asked and answered.\<close>

lemma sample_answered:
  "\<exists>s r. pool_steps sample_setup (pool_start sample_setup sample_pool) s \<and> pl_done s = [(sample_call sql params, r)] \<and>
     Query_call sql params \<in> set (snd (pl_worker s 0))"
proof -
  let ?q = "sample_queued sql params" and ?c = "sample_call sql params"
  have q: "\<not> pl_exited ?q (pc_worker ?c)" "pl_queue ?q (pc_worker ?c) = [pool_query ?c]" "pl_done ?q = []"
    by (simp_all add: sample_queued_def pool_start_def sample_call_def)
  obtain w log where wk: "pl_worker ?q (pc_worker ?c) = (w, log)" by fastforce
  from pool_serve_turn [OF wk, of sample_setup "[]"] obtain w' evs r where
    turn: "serve (po_envs sample_setup (pc_worker ?c)) (po_formats sample_setup) (rp_policy (pl_pool ?q)) (po_attach sample_setup)
      (pc_sql ?c) (pc_params ?c) w log = (w', log @ evs)"
    and s': "pool_serve sample_setup ?q ?c [] = ?q\<lparr>pl_queue := (pl_queue ?q)(pc_worker ?c := []),
      pl_worker := (pl_worker ?q)(pc_worker ?c := (w', log @ evs)), pl_done := pl_done ?q @ [(?c, r)]\<rparr>" by blast
  have ask: "serve sample_reader (po_formats sample_setup) Always (po_attach sample_setup) sql params w log = (w', log @ evs)"
    using turn by (simp add: sample_setup_def sample_queued_def sample_pool_def sample_call_def)
  have "Query_call sql params \<in> set (log @ evs)"
    unfolding sample_turn [OF ask] by simp
  then have "Query_call sql params \<in> set (snd (pl_worker (pool_serve sample_setup ?q ?c []) 0))"
    unfolding s' by (simp add: sample_call_def)
  moreover have "pl_done (pool_serve sample_setup ?q ?c []) = [(?c, r)]" by (simp add: s' q(3))
  moreover have "pool_steps sample_setup (pool_start sample_setup sample_pool) (pool_serve sample_setup ?q ?c [])"
    using rtranclp.rtrancl_into_rtrancl [OF sample_queued_reachable pool_step.served [OF q(1,2)]] .
  ultimately show ?thesis by blast
qed

theorem pool_query_answered_witness:
  "\<exists>s r. pool_steps sample_setup (sample_queued ''SELECT 1'' []) s \<and> (sample_call ''SELECT 1'' [], r) \<in> set (pl_done s)"
  by (rule pool_query_answered [of _ 0 "[]" _ "[]"]) (simp_all add: sample_queued_def pool_start_def sample_call_def)

theorem pool_session_refines_witness:
  "\<exists>s :: pool_session. map fst (pl_done s) = [sample_call ''SELECT 1'' []] \<and> map snd (done_by 0 s) = replies (snd (pl_worker s 0)) \<and>
     length (replies (snd (pl_worker s 0))) = 1"
proof -
  obtain s r where s: "pool_steps sample_setup (pool_start sample_setup sample_pool) s"
    "pl_done s = [(sample_call ''SELECT 1'' [], r)]" using sample_answered by blast
  have "map snd (done_by 0 s) = replies (snd (pl_worker s 0))"
    using pool_session_refines [OF sample_pool_starts s(1), of 0] by blast
  from this [symmetric] s(2) show ?thesis by (intro exI [of _ s]) (simp add: done_by_def sample_call_def)
qed

end
