(* ===== verification/Ingress_Reads.thy ===== *)
theory Ingress_Reads
  imports Ingress_System Execution_Pool
begin

text \<open>
  The read side of the engine as a whole: the queries that the requests of callers and the tasks of their
  jobs have the engine send, on the read pool. Requests run concurrently and their queries reach the
  workers in any order; what a worker runs is what some caller's request asked, for that caller's tenant.
\<close>

subsection \<open>What the engine asks of the pool\<close>

text \<open>A query for a tenant: a catalogue probe, a plan restricted to the tenant or a profile over one, the
  metadata of one of the tenant's snapshots, the names of its features, or an approved raw statement.\<close>

definition tenant_read :: "site \<Rightarrow> string \<Rightarrow> string \<Rightarrow> dval list \<Rightarrow> bool" where
  "tenant_read si t sql params \<longleftrightarrow>
     scoped_request t (Read_request sql params) \<or>
     (\<exists>b. sql = snapshot_meta_sql \<and> params = [VText b, VText t]) \<or>
     (sql = feature_families_sql \<and> params = [VText t]) \<or>
     (\<exists>tok. params = [] \<and> length sql \<le> MAX_SQL_BYTES \<and>
        st_sql_approval_hash (si_state si) = Some (ps_sha (si_parsers si) tok))"

text \<open>The queries a caller's requests bring about: those of a handler, and those of the task of an accepted
  job.\<close>

inductive asked :: "engine_config \<Rightarrow> site \<Rightarrow> string \<Rightarrow> string \<Rightarrow> dval list \<Rightarrow> bool" for config si where
  by_handler: "wired si config \<Longrightarrow> caller si config req = Some t \<Longrightarrow>
    serve_request si req reg hist = (r, reg', hist @ evs) \<Longrightarrow> Engine_event (Read_request sql params) \<in> set evs \<Longrightarrow>
    asked config si t sql params"
| by_job: "wired si config \<Longrightarrow> caller si config req = Some t \<Longrightarrow> dc_jobs (si_decoders si) (aq_body req) = Inr q \<Longrightarrow>
    post_jobs (ps_segment (si_parsers si)) (ps_rfc3339 (si_parsers si)) u now t q reg = (Inr (jid, seg), reg') \<Longrightarrow>
    run_job si t jid (jq_campaign_id q) seg reg' hist = (reg'', hist @ evs) \<Longrightarrow>
    Engine_event (Read_request sql params) \<in> set evs \<Longrightarrow> asked config si t sql params"

lemma job_reads:
  assumes "wf_segment rf seg" "run_job si t jid campaign seg reg hist = (reg', hist @ evs)"
    and "Engine_event (Read_request sql params) \<in> set evs"
  shows "materialise_request t (Read_request sql params)"
  using ensures_evs [OF ensures_materialize [OF assms(1)], where log = "[]"] assms(2,3)
  by (auto simp: run_job_def case_prod_unfold Let_def list_all_iff)

lemma asked_scoped: "asked config si t sql params \<Longrightarrow> tenant_read si t sql params"
proof (induction rule: asked.induct)
  case (by_handler req t reg hist r reg' evs sql params)
  then have "si_auth si = build_auth (ps_sha (si_parsers si)) config" by (simp add: wired_def)
  from request_effects [OF this by_handler(3)] by_handler(2,4)
  have "permitted_event si t (Engine_event (Read_request sql params))" by (auto simp: list_all_iff)
  then show ?case
    by (auto simp: permitted_event_def approved_sql_def snapshot_lookup_def owned_export_def tenant_read_def)
next
  case (by_job req t q u now reg jid seg reg' hist reg'' evs sql params)
  from job_reads [OF posted_wf [OF by_job(4)] by_job(5,6)] show ?case
    by (auto simp: tenant_read_def materialise_request_def materialise_write_def Let_def)
qed


subsection \<open>A caller's lookup\<close>

definition audience_request :: api_request where
  "audience_request = small_request\<lparr>aq_verb := Get,
     aq_http := \<lparr>rq_path = ''/audience/snap_1'', rq_authorization = Some ''Bearer s3cret''\<rparr>\<rparr>"

lemma audience_routed:
  "router id Some (build_auth id two_tenants) (aq_verb audience_request) (aq_http audience_request) =
     Inr (Some ''acme'', Endpoint Get_audience [''snap_1''])"
  by (simp add: audience_request_def small_request_def router_def require_auth_def resolve_tenant_build owner_of_def
      two_tenants_credentials routes_def route_def served_verb_def) (simp add: two_tenants_def build_auth_def)

lemma audience_caller: "caller small_site two_tenants audience_request = Some ''acme''"
  by (simp add: caller_def two_tenants_credentials audience_request_def bearer_def owner_of_def)

lemma ebind_elift_Inr: "ebind (elift (Inr x)) f = f x"
  by (rule ext) (simp add: ebind_def elift_def)

lemma ebind_prefix:
  assumes "m log = (Inr x, log1)" "ensures P (f x) Q"
  shows "\<exists>evs. snd (ebind m f log) = log1 @ evs"
  using ensures_evs [OF assms(2), of log1] assms(1) by (auto simp: ebind_def)

lemma audience_asks:
  "\<exists>evs. snd (get_audience (si_parsers small_site) sample_ingress sample_state t ''snap_1'' []) = evs \<and>
     Engine_event (Read_request snapshot_meta_sql [VText ''1'', VText t]) \<in> set evs"
proof -
  let ?ev = "Engine_event (Read_request snapshot_meta_sql [VText ''1'', VText t])"
  have id: "parse_snap_id (si_parsers small_site) ''snap_1'' = Inr ''1''"
    by (simp add: parse_snap_id_def small_site_def)
  obtain found where f: "snapshot_of sample_ingress sample_state ''1'' t [] = (Inr found, [?ev])"
    by (simp add: snapshot_of_def engine_call_def snapshot_meta_def handler_steps timed_read_def read_request_def Let_def
      sample_rows_def)
  have "\<exists>evs. snd (get_audience (si_parsers small_site) sample_ingress sample_state t ''snap_1'' []) = [?ev] @ evs"
    unfolding get_audience_def id ebind_elift_Inr
    by (rule ebind_prefix [where m = "snapshot_of sample_ingress sample_state ''1'' t", OF f, where P = "\<lambda>ev. True" and Q = "\<lambda>r. True"])
      (intro ensures_seq [OF ensures_elift] ensures_seq [OF ensures_peek] ensures_eret, simp_all)
  then show ?thesis by auto
qed

lemma audience_asked: "asked two_tenants small_site ''acme'' snapshot_meta_sql [VText ''1'', VText ''acme'']"
proof -
  obtain evs where evs: "snd (get_audience (si_parsers small_site) sample_ingress sample_state ''acme'' ''snap_1'' []) = evs"
    "Engine_event (Read_request snapshot_meta_sql [VText ''1'', VText ''acme'']) \<in> set evs"
    using audience_asks by blast
  have state: "si_state small_site = sample_state" by (simp add: small_site_def)
  have "snd (handler small_site ''acme'' Get_audience [''snap_1''] audience_request []) = evs"
    using evs(1) state by (simp add: decoded_def run_api_def path_param_def small_decoders_def split: prod.split sum.split) (metis snd_conv)
  then obtain r where "serve_request small_site audience_request registry_default [] = (r, registry_default, [] @ evs)"
    by (simp add: serve_request_def audience_routed dispatch_request_def case_prod_unfold Let_def)
  from asked.by_handler [OF small_wired audience_caller this evs(2)] show ?thesis .
qed


end
