(* ===== verification/Ingestion_Kafka.thy ===== *)
theory Ingestion_Kafka
  imports Ingestion_Cdc_Spec
begin

text \<open>
  The consumer of \<open>crates/ingestion/src/cdc_kafka.rs\<close>: building it and resuming it at the committed
  offsets, as a log of what the Kafka client is asked. What the client answers is the environment's
  choice. \<open>kafka_resume_spec\<close> says exactly which partitions a successful resume seeks, and after how
  long a wait.
\<close>

subsection \<open>Calls of the client\<close>

datatype kafka_event =
    Create_client "(string \<times> string) list"
  | Subscribe string
  | Get_assignment
  | Receive
  | Seek string int int

type_synonym kafka_log = "kafka_event list"

text \<open>An assignment is its topics and partitions. What \<open>recv\<close> yields during the wait is the
  message that arrived, if one did.\<close>

record kafka_env =
  kf_create :: "kafka_log \<Rightarrow> (msg, unit) result"
  kf_subscribe :: "kafka_log \<Rightarrow> (msg, unit) result"
  kf_assignment :: "kafka_log \<Rightarrow> (msg, (string \<times> int) list) result"
  kf_recv :: "kafka_log \<Rightarrow> recv"
  kf_seek :: "kafka_log \<Rightarrow> (msg, unit) result"

type_synonym 'a kafka = "(kafka_event, core_error, 'a) logged"

definition kafka_failed :: "string \<Rightarrow> msg \<Rightarrow> core_error" where
  "kafka_failed fmt e = Ingestion (Msg fmt [AMsg e])"

subsection \<open>The consumer\<close>

definition client_config :: "string \<Rightarrow> string \<Rightarrow> (string \<times> string) list" where
  "client_config brokers group_id =
     [(''bootstrap.servers'', brokers), (''group.id'', group_id), (''enable.auto.commit'', ''false''),
      (''auto.offset.reset'', ''earliest''), (''enable.partition.eof'', ''false'')]"

record kafka_cdc_adapter =
  ka_source :: string
  ka_mapper :: debezium_mapper

definition kafka_new ::
  "kafka_env \<Rightarrow> string \<Rightarrow> string \<Rightarrow> string \<Rightarrow> string \<Rightarrow> string \<Rightarrow> string list \<Rightarrow> string \<Rightarrow> kafka_cdc_adapter kafka"
where
  "kafka_new env brokers group_id topic sys ent columns key =
     ebind (ask (Create_client (client_config brokers group_id)) (kf_create env)) (\<lambda>r.
     ebind (elift (map_err (kafka_failed ''kafka client: {e}'') r)) (\<lambda>_.
     ebind (ask (Subscribe topic) (kf_subscribe env)) (\<lambda>r.
     ebind (elift (map_err (kafka_failed ''kafka subscribe: {e}'') r)) (\<lambda>_.
     eret \<lparr>ka_source = source_key sys ent, ka_mapper = mapper_new sys ent columns key\<rparr>))))"

subsection \<open>Resuming\<close>

definition get_assignment :: "kafka_env \<Rightarrow> (string \<times> int) list kafka" where
  "get_assignment env =
     ebind (ask Get_assignment (kf_assignment env)) (\<lambda>r. elift (map_err (kafka_failed ''kafka assignment: {e}'') r))"

text \<open>The wait for the group's assignment. \<open>turns\<close> of the loop fit before the deadline of ten seconds;
  what a turn receives is dropped, \<open>let _\<close>.\<close>

fun await_assignment :: "kafka_env \<Rightarrow> nat \<Rightarrow> (string \<times> int) list \<Rightarrow> (string \<times> int) list kafka" where
  "await_assignment env 0 assignment = eret assignment"
| "await_assignment env (Suc turns) assignment =
     (if assignment = []
      then ebind (ask Receive (kf_recv env)) (\<lambda>_. ebind (get_assignment env) (await_assignment env turns))
      else eret assignment)"

definition seek_partition :: "kafka_env \<Rightarrow> (int \<times> int) list \<Rightarrow> string \<times> int \<Rightarrow> unit kafka" where
  "seek_partition env offsets tp =
     (case find (\<lambda>(partition, _). partition = snd tp) offsets of
        Some (_, off) \<Rightarrow>
          ebind (ask (Seek (fst tp) (snd tp) off) (kf_seek env)) (\<lambda>r. elift (map_err (kafka_failed ''kafka seek: {e}'') r))
      | None \<Rightarrow> eret ())"

definition kafka_resume :: "kafka_env \<Rightarrow> nat \<Rightarrow> (int \<times> int) list \<Rightarrow> unit kafka" where
  "kafka_resume env turns offsets =
     ebind (get_assignment env) (\<lambda>assignment.
     ebind (await_assignment env turns assignment) (\<lambda>assignment.
     eeach (seek_partition env offsets) assignment))"

subsection \<open>What a resume does\<close>

text \<open>The calls of a wait of \<open>k\<close> turns, and the seeks of an assignment.\<close>

definition waits :: "nat \<Rightarrow> kafka_log" where
  "waits k = concat (replicate k [Receive, Get_assignment])"

definition seeks :: "(int \<times> int) list \<Rightarrow> (string \<times> int) list \<Rightarrow> kafka_log" where
  "seeks offsets assignment =
     concat (map (\<lambda>(t, p). case map_of offsets p of Some off \<Rightarrow> [Seek t p off] | None \<Rightarrow> []) assignment)"

lemma find_map_of: "find (\<lambda>(partition, _). partition = p) offsets = map_option (Pair p) (map_of offsets p)"
  by (induction offsets) auto

lemma map_err_Inl: "map_err f r = Inl e \<longleftrightarrow> (\<exists>e'. r = Inl e' \<and> e = f e')"
  by (cases r) auto

lemma get_assignment_ok:
  "get_assignment env log = (Inr a, log') \<longleftrightarrow> log' = log @ [Get_assignment] \<and> kf_assignment env log' = Inr a"
  by (auto simp: get_assignment_def ebind_def ask_def elift_def)

lemma ebind_ok: "ebind m f log = (Inr y, log') \<longleftrightarrow> (\<exists>x log1. m log = (Inr x, log1) \<and> f x log1 = (Inr y, log'))"
  by (auto simp: ebind_def split: prod.splits sum.splits)

lemma await_ok:
  "await_assignment env turns a log = (Inr a', log') \<Longrightarrow>
     \<exists>k \<le> turns. log' = log @ waits k \<and> (k = 0 \<longrightarrow> a' = a) \<and> (0 < k \<longrightarrow> kf_assignment env log' = Inr a') \<and>
       (a' = [] \<longrightarrow> k = turns)"
proof (induction env turns a arbitrary: log rule: await_assignment.induct)
  case (1 env assignment)
  then show ?case by (auto simp: eret_def waits_def)
next
  case (2 env turns a)
  show ?case
  proof (cases "a = []")
    case True
    with 2(2) obtain b where b: "kf_assignment env (log @ [Receive, Get_assignment]) = Inr b"
      "await_assignment env turns b (log @ [Receive, Get_assignment]) = (Inr a', log')"
      by (auto simp: ebind_ok get_assignment_ok ask_def)
    from 2(1) [OF True b(2)] obtain k where k: "k \<le> turns" "log' = (log @ [Receive, Get_assignment]) @ waits k"
      "k = 0 \<longrightarrow> a' = b" "0 < k \<longrightarrow> kf_assignment env log' = Inr a'" "a' = [] \<longrightarrow> k = turns"
      by blast
    with b(1) show ?thesis
      by (intro exI [of _ "Suc k"]) (cases k; simp add: waits_def)
  next
    case False
    with 2(2) show ?thesis by (intro exI [of _ 0]) (auto simp: eret_def waits_def)
  qed
qed

lemma seek_partition_ok:
  "seek_partition env offsets tp log = (Inr u, log') \<Longrightarrow> log' = log @ seeks offsets [tp]"
  by (cases tp)
     (auto simp: seek_partition_def seeks_def find_map_of ebind_ok ask_def elift_def eret_def split: option.splits)

lemma seek_all_ok:
  "eeach (seek_partition env offsets) a log = (Inr u, log') \<Longrightarrow> log' = log @ seeks offsets a"
proof (induction a arbitrary: log)
  case (Cons tp a)
  then obtain log1 where "seek_partition env offsets tp log = (Inr (), log1)"
    "eeach (seek_partition env offsets) a log1 = (Inr u, log')"
    by (auto simp: ebind_ok)
  with Cons.IH [of log1] show ?case by (auto dest!: seek_partition_ok simp: seeks_def)
qed (auto simp: eret_def seeks_def)

lemma kafka_resume_ok:
  assumes "kafka_resume env turns offsets [] = (Inr (), hist)"
  shows "\<exists>k a. k \<le> turns \<and> hist = Get_assignment # waits k @ seeks offsets a \<and>
     kf_assignment env (Get_assignment # waits k) = Inr a \<and> (a = [] \<longrightarrow> k = turns)"
proof -
  from assms obtain a0 a hist1 where a0: "kf_assignment env [Get_assignment] = Inr a0"
    and wait: "await_assignment env turns a0 [Get_assignment] = (Inr a, hist1)"
    and seek: "eeach (seek_partition env offsets) a hist1 = (Inr (), hist)"
    by (auto simp: kafka_resume_def ebind_ok get_assignment_ok)
  from await_ok [OF wait] obtain k where k: "k \<le> turns" "hist1 = [Get_assignment] @ waits k"
    "k = 0 \<longrightarrow> a = a0" "0 < k \<longrightarrow> kf_assignment env hist1 = Inr a" "a = [] \<longrightarrow> k = turns"
    by blast
  from k a0 have "kf_assignment env (Get_assignment # waits k) = Inr a"
    by (cases k) (simp_all add: waits_def)
  with k seek_all_ok [OF seek] show ?thesis by auto
qed

lemma emits_ask_elift: "emits (ebind (ask ev answer) (\<lambda>r. elift (f r))) {[ev]}"
  by (rule emits_mono [OF emits_ebind [OF emits_ask emits_elift]]) simp

lemma emits_get_assignment: "emits (get_assignment env) {[Get_assignment]}"
  unfolding get_assignment_def by (rule emits_ask_elift)

lemma emits_await: "emits (await_assignment env turns a) {waits k |k. k \<le> turns}"
proof (induction env turns a rule: await_assignment.induct)
  case (1 env a)
  show ?case by (auto intro: emits_mono [OF emits_eret] simp: waits_def)
next
  case (2 env turns a)
  show ?case
  proof (cases "a = []")
    case True
    have "emits (ebind (ask Receive (kf_recv env)) (\<lambda>_. ebind (get_assignment env) (await_assignment env turns)))
        (seq {[Receive]} (seq {[Get_assignment]} {waits k |k. k \<le> turns}))"
      using 2 True by (intro emits_ebind emits_ask emits_get_assignment) simp
    moreover have "seq {[Receive]} (seq {[Get_assignment]} {waits k |k. k \<le> turns}) \<subseteq> {waits k |k. k \<le> Suc turns}"
    proof -
      have "Receive # Get_assignment # waits k = waits (Suc k)" for k by (simp add: waits_def)
      then show ?thesis by (fastforce simp: seq_def)
    qed
    ultimately show ?thesis using True emits_mono by auto
  qed (auto intro: emits_mono [OF emits_eret] simp: waits_def)
qed

lemma emits_seek_partition: "emits (seek_partition env offsets tp) {seeks offsets [tp]}"
  by (cases tp)
     (auto simp: seek_partition_def seeks_def find_map_of emits_eret emits_ask_elift split: option.split)

lemma emits_resume:
  "emits (kafka_resume env turns offsets) {Get_assignment # waits k @ seeks offsets a |k a. k \<le> turns}"
proof -
  have seeks_of: "concat (map (\<lambda>tp. seeks offsets [tp]) a) = seeks offsets a" for a
    by (simp add: seeks_def)
  have "emits (eeach (seek_partition env offsets) a) (range (seeks offsets))" for a
    using emits_eeach [where f = "seek_partition env offsets" and T = "\<lambda>tp. {seeks offsets [tp]}" and xs = a, OF emits_seek_partition]
    by (rule emits_mono) (auto simp: seqs_single seeks_of)
  then have "emits (kafka_resume env turns offsets)
      (seq {[Get_assignment]} (seq {waits k |k. k \<le> turns} (range (seeks offsets))))"
    unfolding kafka_resume_def by (intro emits_ebind emits_get_assignment emits_await)
  then show ?thesis
    by (rule emits_mono) (auto simp: seq_def)
qed

text \<open>C39: a resume always ends, whatever the client answers, after at most the turns that fit its deadline;
  what it asks is the beginning of a wait followed by seeks of assigned partitions that have a committed
  offset. When it succeeds it has asked all of that, for the assignment the client gave last, in its
  order, each partition to its offset; and it has cut the wait short only for an assignment that is not empty.\<close>

theorem kafka_resume_ends:
  "\<exists>k a rest. k \<le> turns \<and>
     snd (kafka_resume env turns offsets []) @ rest = Get_assignment # waits k @ seeks offsets a \<and>
     (is_ok (fst (kafka_resume env turns offsets [])) \<longrightarrow>
        rest = [] \<and> kf_assignment env (Get_assignment # waits k) = Inr a \<and> (a = [] \<longrightarrow> k = turns))"
proof (cases "kafka_resume env turns offsets []")
  case (Pair r hist)
  show ?thesis
  proof (cases r)
    case (Inl e)
    obtain d rest where "snd (kafka_resume env turns offsets []) = [] @ d"
      "d @ rest \<in> {Get_assignment # waits k @ seeks offsets a |k a. k \<le> turns}"
      using emitsD [OF emits_resume] by blast
    then obtain k a where "k \<le> turns" "snd (kafka_resume env turns offsets []) @ rest = Get_assignment # waits k @ seeks offsets a"
      by auto
    with Pair Inl show ?thesis by (metis fst_conv is_ok_simps(1))
  next
    case (Inr u)
    with Pair kafka_resume_ok [of env turns offsets hist] show ?thesis by auto
  qed
qed

text \<open>The group joins at the second turn, with partitions 0 and 1; only the first has an offset.\<close>

definition late_join :: kafka_env where
  "late_join = \<lparr>kf_create = (\<lambda>log. Inr ()), kf_subscribe = (\<lambda>log. Inr ()),
     kf_assignment = (\<lambda>log. Inr (if log = [Get_assignment] then [] else [(''orders'', 0), (''orders'', 1)])),
     kf_recv = (\<lambda>log. Message 1 0 (Some ''u1'')), kf_seek = (\<lambda>log. Inr ())\<rparr>"

lemma late_join_resume:
  "kafka_resume late_join 100 [(0, 7)] [] =
     (Inr (), [Get_assignment, Receive, Get_assignment, Seek ''orders'' 0 7])"
  by (simp add: kafka_resume_def get_assignment_def seek_partition_def late_join_def ebind_def ask_def elift_def eret_def
      numeral_eq_Suc)

theorem kafka_resume_ends_witness:
  "\<exists>k a. [Get_assignment, Receive, Get_assignment, Seek ''orders'' 0 7] = Get_assignment # waits k @ seeks [(0, 7)] a \<and>
     kf_assignment late_join (Get_assignment # waits k) = Inr a"
  using kafka_resume_ends [of 100 late_join "[(0, 7)]"] unfolding late_join_resume fst_conv snd_conv
  by (simp only: is_ok_simps simp_thms, elim exE conjE, hypsubst, unfold append_Nil2, blast)

text \<open>The message that arrives with the assignment is of a partition without a committed offset: it
  is received, dropped and never sought again.\<close>

lemma resume_drops_a_message:
  "kf_recv late_join [Get_assignment, Receive] = Message 1 0 (Some ''u1'') \<and>
   (\<forall>log. kafka_resume late_join 100 [(0, 7)] [] = (Inr (), log) \<longrightarrow> Receive \<in> set log \<and> (\<forall>t off. Seek t 1 off \<notin> set log))"
  unfolding late_join_resume by (simp add: late_join_def)

text \<open>An assignment that never comes ends the wait in success, with nothing sought.\<close>

lemma resume_without_assignment:
  assumes "\<And>log. kf_assignment env log = Inr []"
  shows "kafka_resume env turns offsets [] = (Inr (), Get_assignment # waits turns)"
proof -
  have "await_assignment env turns [] log = (Inr [], log @ waits turns)" for log
    by (induction turns arbitrary: log)
       (simp_all add: ebind_def ask_def get_assignment_def elift_def eret_def assms waits_def)
  with assms show ?thesis
    by (simp add: kafka_resume_def get_assignment_def ebind_def ask_def elift_def eret_def)
qed

subsection \<open>The size of a batch\<close>

lemma one_change_per_message: "length (sb_upserts (map_envelope show_json m env part off)) + length (sb_deletes (map_envelope show_json m env part off)) \<le> 1"
  by (simp add: map_envelope_def Let_def split: option.split)

lemma receive_loop_bounded:
  "length (ac_upserts acc) + length (ac_deletes acc) \<le> MAX_BATCH_MESSAGES \<Longrightarrow>
     receive_loop show_json decode m rs acc = (acc', rs') \<Longrightarrow>
     length (ac_upserts acc') + length (ac_deletes acc') \<le> MAX_BATCH_MESSAGES"
proof (induction show_json decode m rs acc rule: receive_loop.induct)
  case (2 show_json decode m r rs acc)
  have "length (ac_upserts (take_message show_json decode m part off payload acc)) +
      length (ac_deletes (take_message show_json decode m part off payload acc)) \<le>
      Suc (length (ac_upserts acc) + length (ac_deletes acc))" for part off payload
  proof (cases "Option.bind payload decode")
    case (Some env)
    with one_change_per_message [of show_json m env part off] show ?thesis by (simp add: take_message_def Let_def)
  qed (simp add: take_message_def Let_def)
  note grows = this
  show ?case
  proof (cases "MAX_BATCH_MESSAGES \<le> length (ac_upserts acc) + length (ac_deletes acc)")
    case False
    then have "Suc (length (ac_upserts acc) + length (ac_deletes acc)) \<le> MAX_BATCH_MESSAGES" by simp
    with grows le_trans have "length (ac_upserts (take_message show_json decode m part off payload acc)) +
      length (ac_deletes (take_message show_json decode m part off payload acc)) \<le> MAX_BATCH_MESSAGES" for part off payload
      by blast
    with 2 False show ?thesis by (auto split: recv.splits)
  qed (use 2 in simp)
qed simp

text \<open>a batch carries at most five hundred changes, however many messages are waiting.\<close>

theorem batch_within_limit:
  assumes "next_batch show_json decode m rs = (Inr (Some b), rs')"
  shows "length (sb_upserts b) + length (sb_deletes b) \<le> MAX_BATCH_MESSAGES"
proof -
  obtain acc rest where run: "receive_loop show_json decode m rs nothing_yet = (acc, rest)" by fastforce
  with assms have "sb_upserts b = ac_upserts acc" "sb_deletes b = ac_deletes acc"
    by (auto simp: next_batch_def split: if_splits)
  with receive_loop_bounded [OF _ run] show ?thesis by (simp add: nothing_yet_def)
qed

theorem batch_within_limit_witness:
  "length (sb_upserts (order_batch ''u1'' 7)) + length (sb_deletes (order_batch ''u1'' 7)) \<le> MAX_BATCH_MESSAGES"
  by (rule batch_within_limit [OF sample_next [of 7 "''u1''" "[]", unfolded sample_adapter_def kafka_adapter_def source_adapter.simps]])

end
