(* ===== verification/App_Server.thy ===== *)
theory App_Server
  imports Storage_Trace Execution_Reader Ingress_Handlers Ingestion_Cadence Ingestion_Kafka Ingestion_Handle Semantic_Rag
begin

text \<open>
  \<open>apps/server/src/{lib,main}.rs\<close>: building the engine from its configuration out of the components
  of the other theories, the compaction sweep and its supervisor, the supervisors of the CDC pumps,
  and the choice of the configuration file. \<open>startup_order\<close> gives the one order everything is
  started in; \<open>engine_starts_ready\<close> the state it starts from.
\<close>

subsection \<open>Starting\<close>

text \<open>What starting does, in order: calls on the writer's connection and on each reader's, threads and
  tasks spawned, and the signing key drawn.\<close>

datatype server_event =
    Writer_call db_event
  | Reader_call nat db_event
  | Spawn_reader nat string reader_limits
  | Spawn_ingestion micro_batch_config
  | Fill_key
  | Spawn_compaction nat nat
  | Spawn_cdc cdc_topic_config

type_synonym server_log = "server_event list"
type_synonym 'a starting = "(server_event, failure, 'a) logged"

text \<open>The world: databases, threads and randomness; the reader, chrono and map order the producer
  runs over; the two cargo features.\<close>

record server_env =
  sv_writer :: db_env
  sv_lock_of :: "string \<Rightarrow> string"
  sv_reader :: "nat \<Rightarrow> db_env"
  sv_spawn :: "server_log \<Rightarrow> (msg, unit) result"
  sv_random :: "server_log \<Rightarrow> (msg, bytes) result"
  sv_sha :: "string \<Rightarrow> hash"
  sv_query :: "string \<Rightarrow> dval list \<Rightarrow> (core_error, query_result) result"
  sv_chrono :: chrono
  sv_order :: "(string \<times> int list) list \<Rightarrow> (string \<times> int list) list"
  sv_semantic_llm :: bool
  sv_ingestion_cdc :: bool

definition on_log :: "('e \<Rightarrow> 'f) \<Rightarrow> ('e, 'err, 'a) logged \<Rightarrow> ('f, 'err, 'a) logged" where
  "on_log f m hist = (case m [] of (r, evs) \<Rightarrow> (r, hist @ map f evs))"

definition setup_writer :: "db_env \<Rightarrow> (string \<Rightarrow> string) \<Rightarrow> engine_config \<Rightarrow> writer db" where
  "setup_writer env lock_of config =
     ebind (attach_with_gen env lock_of (ec_catalog_path config) (ec_data_path config) (ec_compaction config) True) (\<lambda>w.
     ebind (ensure_audience_snapshot_table env) (\<lambda>_.
     ebind (ensure_feature_store_table env) (\<lambda>_.
     ebind (ensure_semantic_catalog_table env) (\<lambda>_.
     ebind (ensure_suppression_table env) (\<lambda>_.
     eret (with_tenant (ec_tenant_id config) w))))))"

definition thread_count :: "engine_config \<Rightarrow> nat" where
  "thread_count config = max (gc_threads (ec_guardrails config)) 1"

definition spawn :: "server_env \<Rightarrow> (msg \<Rightarrow> core_error) \<Rightarrow> server_event \<Rightarrow> unit starting" where
  "spawn env err ev = ebind (ask ev (sv_spawn env)) (\<lambda>r. elift (map_err (Failed \<circ> err) r))"

text \<open>One connection and one thread per worker.\<close>

definition start_readers :: "server_env \<Rightarrow> engine_config \<Rightarrow> reader_pool starting" where
  "start_readers env config =
     (let attach_sql = read_only_attach_sql (ec_catalog_path config) (ec_data_path config);
          limits = \<lparr>rl_memory_limit = gc_memory_limit (ec_guardrails config), rl_threads = gc_threads (ec_guardrails config)\<rparr>;
          workers = [0 ..< thread_count config]
      in ebind (eeach (\<lambda>i. on_log (Reader_call i)
             (open_reader (sv_reader env i) (ec_catalog_path config) (ec_data_path config))) workers) (\<lambda>_.
         ebind (elift (map_err Failed (start_pooled (length workers) True (ec_read_refresh_interval_secs config * 1000000000)))) (\<lambda>pool.
         ebind (eeach (\<lambda>i. spawn env Execution (Spawn_reader i attach_sql limits)) workers) (\<lambda>_.
         eret pool))))"

subsection \<open>The semantic clients\<close>

datatype embed_client = Stub_embed nat | Http_embedding http_client
datatype llm_client = Stub_llm | Http_llm http_client

definition choose_clients :: "bool \<Rightarrow> llm_config option \<Rightarrow> embed_client \<times> llm_client" where
  "choose_clients semantic_llm llm =
     (case llm of
        Some cfg \<Rightarrow>
          (if semantic_llm then (Http_embedding (http_embedding_new cfg), Http_llm (http_llm_new cfg))
           else (Stub_embed DEFAULT_EMBED_DIM, Stub_llm))
      | None \<Rightarrow> (Stub_embed DEFAULT_EMBED_DIM, Stub_llm))"

subsection \<open>The engine\<close>

text \<open>What \<open>build\<close> hands to the router and keeps: the handles and the tables of the application state.\<close>

record built_engine =
  ea_session :: session
  ea_pool :: reader_pool
  ea_state :: app_state
  ea_auth :: auth_state
  ea_registry :: producer_registry
  ea_profiler :: profiler
  ea_rag :: intent_rag
  ea_embed :: embed_client
  ea_llm :: llm_client
  ea_slots :: nat

definition erp_orders :: dataset where
  "erp_orders = \<lparr>ds_system = ''erp'', ds_entity = ''orders''\<rparr>"

definition micro_batch_of :: "engine_config \<Rightarrow> micro_batch_config" where
  "micro_batch_of config =
     \<lparr>mb_flush_rows = ec_micro_batch_flush_rows config, mb_flush_age_secs = ec_micro_batch_flush_age_secs config\<rparr>"

definition cdc_topics :: "server_env \<Rightarrow> engine_config \<Rightarrow> cdc_topic_config list" where
  "cdc_topics env config =
     (case ec_cdc config of
        Some cdc \<Rightarrow> (if sv_ingestion_cdc env then cd_topics cdc else [])
      | None \<Rightarrow> [])"

definition engine_build :: "server_env \<Rightarrow> engine_config \<Rightarrow> built_engine starting" where
  "engine_build env config =
     ebind (on_log Writer_call (setup_writer (sv_writer env) (sv_lock_of env) config)) (\<lambda>w.
     ebind (start_readers env config) (\<lambda>pool.
     ebind (elift (map_err Failed (register (cadence_new (sv_query env) (sv_chrono env) (sv_order env) erp_orders)
       producer_registry_new))) (\<lambda>registry.
     ebind (spawn env Ingestion (Spawn_ingestion (micro_batch_of config))) (\<lambda>_.
     ebind (ask Fill_key (sv_random env)) (\<lambda>r.
     ebind (elift (map_err (Failed \<circ> Execution) r)) (\<lambda>signing_key.
     ebind (ask (Spawn_compaction (ec_compaction_interval_secs config)
       (cc_snapshot_retention_days (ec_compaction config))) (\<lambda>_. ())) (\<lambda>_.
     ebind (eeach (\<lambda>topic. ask (Spawn_cdc topic) (\<lambda>_. ())) (cdc_topics env config)) (\<lambda>_.
     eret \<lparr>ea_session = session_start (wr_tenant w),
           ea_pool = pool,
           ea_state = \<lparr>st_engine = \<lparr>eg_guardrails = ec_guardrails config, eg_suppression = ec_suppression config\<rparr>,
             st_signing_key = signing_key,
             st_sql_approval_hash = map_option (hash_token (sv_sha env)) (ec_sql_approval_token config)\<rparr>,
           ea_auth = build_auth (sv_sha env) config,
           ea_registry = registry,
           ea_profiler = profiler_new,
           ea_rag = intent_rag_new,
           ea_embed = fst (choose_clients (sv_semantic_llm env) (ec_llm config)),
           ea_llm = snd (choose_clients (sv_semantic_llm env) (ec_llm config)),
           ea_slots = thread_count config\<rparr>))))))))"

subsection \<open>The order of starting\<close>

lemma emits_then: "emits m {s} \<Longrightarrow> (\<And>x. emits (f x) {t}) \<Longrightarrow> emits (ebind m f) {s @ t}"
  using emits_ebind [of m "{s}" f "{t}"] by simp

lemma emits_on_log: "emits m {t} \<Longrightarrow> emits (on_log f m) {map f t}"
  unfolding emits_def on_log_def
  by (clarsimp split: prod.split) (metis append_Nil map_append fst_conv snd_conv)

lemma emits_spawn: "emits (spawn env err ev) {[ev]}"
  using emits_then [of "ask ev (sv_spawn env)" "[ev]" "\<lambda>r. elift (map_err (Failed \<circ> err) r)" "[]"]
  by (simp add: spawn_def emits_ask emits_elift)

lemma emits_all: "(\<And>x. emits (f x) {t x}) \<Longrightarrow> emits (eeach f xs) {concat (map t xs)}"
  using emits_eeach [of f "\<lambda>x. {t x}" xs] by (simp add: seqs_single)

lemma emits_as: "emits m {s} \<Longrightarrow> s = t \<Longrightarrow> emits m {t}"
  by simp

lemma emits_re_err: "emits m T \<Longrightarrow> emits (re_err f m) T"
  unfolding emits_def re_err_def is_ok_iff by (clarsimp split: prod.split) (metis fst_conv map_err_simps(3) snd_conv)

lemmas start_intros = emits_then emits_on_log emits_spawn emits_all emits_ask emits_elift emits_eret emits_checked
  emits_execute_batch emits_re_err

definition table_events :: "string \<Rightarrow> string \<Rightarrow> db_log" where
  "table_events table columns =
     [Batch_stmt (''CREATE TABLE IF NOT EXISTS '' @ dl table @ columns), Batch_stmt (add_tenant_sql table)]"

definition writer_events :: "(string \<Rightarrow> string) \<Rightarrow> engine_config \<Rightarrow> db_log" where
  "writer_events lock_of config =
     [Open_lock (lock_of (ec_catalog_path config)), Try_lock (lock_of (ec_catalog_path config)), Open_memory,
      Batch_stmt ''INSTALL ducklake; LOAD ducklake;'', Batch_stmt (attach_sql (ec_catalog_path config) (ec_data_path config)),
      Batch_stmt (compaction_sql (ec_compaction config))] @
     table_events ''audience_snapshot'' audience_snapshot_columns @
     table_events ''feature_store'' feature_store_columns @
     table_events ''semantic_catalog'' semantic_catalog_columns @
     table_events ''suppression'' suppression_columns"

definition reader_events :: "engine_config \<Rightarrow> db_log" where
  "reader_events config =
     [Open_memory, Batch_stmt ''INSTALL ducklake; LOAD ducklake;'',
      Batch_stmt (read_only_attach_sql (ec_catalog_path config) (ec_data_path config))]"

definition startup_events :: "server_env \<Rightarrow> engine_config \<Rightarrow> server_log" where
  "startup_events env config =
     map Writer_call (writer_events (sv_lock_of env) config) @
     concat (map (\<lambda>i. map (Reader_call i) (reader_events config)) [0 ..< thread_count config]) @
     map (\<lambda>i. Spawn_reader i (read_only_attach_sql (ec_catalog_path config) (ec_data_path config))
       \<lparr>rl_memory_limit = gc_memory_limit (ec_guardrails config), rl_threads = gc_threads (ec_guardrails config)\<rparr>)
       [0 ..< thread_count config] @
     [Spawn_ingestion (micro_batch_of config), Fill_key,
      Spawn_compaction (ec_compaction_interval_secs config) (cc_snapshot_retention_days (ec_compaction config))] @
     map Spawn_cdc (cdc_topics env config)"

lemma emits_setup_writer: "emits (setup_writer env lock_of config) {writer_events lock_of config}"
  unfolding setup_writer_def attach_with_gen_def attach_with_compaction_def load_ducklake_def
    ensure_audience_snapshot_table_def ensure_feature_store_table_def ensure_semantic_catalog_table_def
    ensure_suppression_table_def ensure_table_def
  by (rule emits_as, (rule start_intros)+) (simp add: writer_events_def table_events_def)

lemma emits_open_reader: "emits (open_reader env catalog_path data_path)
    {[Open_memory, Batch_stmt ''INSTALL ducklake; LOAD ducklake;'', Batch_stmt (read_only_attach_sql catalog_path data_path)]}"
  unfolding open_reader_def load_ducklake_def by (rule emits_as, (rule start_intros)+) simp

lemma emits_start_readers: "emits (start_readers env config)
    {concat (map (\<lambda>i. map (Reader_call i) (reader_events config)) [0 ..< thread_count config]) @
     map (\<lambda>i. Spawn_reader i (read_only_attach_sql (ec_catalog_path config) (ec_data_path config))
       \<lparr>rl_memory_limit = gc_memory_limit (ec_guardrails config), rl_threads = gc_threads (ec_guardrails config)\<rparr>)
       [0 ..< thread_count config]}"
  unfolding start_readers_def Let_def
  by (rule emits_as, (rule start_intros emits_open_reader)+) (simp add: reader_events_def concat_map_singleton)

text \<open>C25: whatever its calls answer, starting the engine makes the calls of one fixed sequence, all of
  them when it succeeds and a beginning of it when it fails: the lock is taken and the catalog attached
  before anything else, the four tables of the engine exist before the first reader connects, every
  reader is connected before a thread is spawned, and the sweep and the CDC pumps come last.\<close>

theorem startup_order:
  "\<exists>rest. snd (engine_build env config []) @ rest = startup_events env config \<and>
     (is_ok (fst (engine_build env config [])) \<longrightarrow> rest = [])"
proof -
  have "emits (engine_build env config) {startup_events env config}"
    unfolding engine_build_def
    by (rule emits_as, (rule start_intros emits_setup_writer emits_start_readers)+)
       (simp add: startup_events_def concat_map_singleton)
  from emitsD [OF this, of "[]"] show ?thesis by auto
qed

subsection \<open>What it starts from\<close>

lemma ebind_done: "ebind m f hist = (Inr y, hist') \<longleftrightarrow> (\<exists>x mid. m hist = (Inr x, mid) \<and> f x mid = (Inr y, hist'))"
  by (auto simp: ebind_def split: prod.splits sum.splits)

lemma on_log_done: "on_log f m hist = (Inr x, hist') \<longleftrightarrow> (\<exists>evs. m [] = (Inr x, evs) \<and> hist' = hist @ map f evs)"
  by (auto simp: on_log_def split: prod.splits)

lemma setup_writer_done:
  "setup_writer env lock_of config hist = (Inr w, hist') \<Longrightarrow> wr_tenant w = ec_tenant_id config \<and> wr_gen w"
  by (auto simp: setup_writer_def attach_with_gen_def ebind_done eret_def with_tenant_def)

lemma start_readers_done:
  "start_readers env config hist = (Inr pool, hist') \<Longrightarrow>
     pool = \<lparr>rp_workers = thread_count config, rp_next = 0,
       rp_policy = OnWrite (max (ec_read_refresh_interval_secs config * 1000000000) 1000000000)\<rparr>"
  by (auto simp: start_readers_def Let_def ebind_done eret_def elift_def start_pooled_def split: if_splits)

text \<open>an engine that starts has a writer that stamps the configured tenant and an empty queue, at least
  one reader, all of them told to look for new writes and to re-attach no more often than each second,
  a slot for materialisation at least, the cadence producer and no other, the credentials of the
  configuration, and the stub clients unless an LLM is configured and its feature is on.\<close>

theorem engine_starts_ready:
  assumes "engine_build env config hist = (Inr e, hist')"
  shows "ea_session e = session_start (ec_tenant_id config) \<and>
    0 < rp_workers (ea_pool e) \<and>
    (\<exists>interval. rp_policy (ea_pool e) = OnWrite interval \<and> 1000000000 \<le> interval) \<and>
    0 < ea_slots e \<and>
    (\<forall>pid. producer_get (ea_registry e) pid = None \<longleftrightarrow> pid \<noteq> ''cadence_sql'') \<and>
    ea_auth e = build_auth (sv_sha env) config \<and>
    (ea_llm e = Stub_llm \<and> ea_embed e = Stub_embed 64 \<longleftrightarrow> ec_llm config = None \<or> \<not> sv_semantic_llm env)"
proof -
  from assms obtain w hist1 pool hist2 registry where w: "on_log Writer_call (setup_writer (sv_writer env) (sv_lock_of env) config) hist = (Inr w, hist1)"
    and pool: "start_readers env config hist1 = (Inr pool, hist2)"
    and reg: "register (cadence_new (sv_query env) (sv_chrono env) (sv_order env) erp_orders) producer_registry_new = Inr registry"
    and e: "ea_session e = session_start (wr_tenant w)" "ea_pool e = pool" "ea_registry e = registry"
      "ea_auth e = build_auth (sv_sha env) config" "ea_slots e = thread_count config"
      "ea_embed e = fst (choose_clients (sv_semantic_llm env) (ec_llm config))"
      "ea_llm e = snd (choose_clients (sv_semantic_llm env) (ec_llm config))"
    unfolding engine_build_def by (auto simp: ebind_done elift_def eret_def)
  have "wr_tenant w = ec_tenant_id config"
    using w setup_writer_done by (auto simp: on_log_done)
  moreover have "\<forall>pid. producer_get registry pid = None \<longleftrightarrow> pid \<noteq> ''cadence_sql''"
    using reg by (auto simp: register_def result_simps cadence_new_def producer_get_def dm_get_def dm_insert_def
        producer_registry_new_def dm_empty_def)
  ultimately show ?thesis
    using start_readers_done [OF pool] e
    by (auto simp: thread_count_def choose_clients_def DEFAULT_EMBED_DIM_def split: option.splits)
qed

text \<open>An engine on a machine where every call succeeds.\<close>

definition willing_db :: db_env where
  "willing_db = \<lparr>de_unit = (\<lambda>hist. Inr ()), de_count = (\<lambda>hist. Inr 0), de_names = (\<lambda>hist. Inr []),
     de_pairs = (\<lambda>hist. Inr []), de_json = (\<lambda>j. Inr []), de_now = (\<lambda>hist. [])\<rparr>"

definition willing :: server_env where
  "willing = \<lparr>sv_writer = willing_db, sv_lock_of = (\<lambda>path. path @ ''.lock''), sv_reader = (\<lambda>i. willing_db),
     sv_spawn = (\<lambda>hist. Inr ()), sv_random = (\<lambda>hist. Inr (replicate 32 7)), sv_sha = (\<lambda>s. s),
     sv_query = (\<lambda>sql ps. Inr \<lparr>qr_columns = [], qr_rows = []\<rparr>),
     sv_chrono = \<lparr>ch_rfc3339 = (\<lambda>s. None), ch_datetime = (\<lambda>s. None), ch_date = (\<lambda>s. None)\<rparr>,
     sv_order = (\<lambda>us. us), sv_semantic_llm = False, sv_ingestion_cdc = True\<rparr>"

lemma willing_open: "open_reader willing_db c d hist = (Inr (), hist @
    [Open_memory, Batch_stmt ''INSTALL ducklake; LOAD ducklake;'', Batch_stmt (read_only_attach_sql c d)])"
  by (simp add: open_reader_def load_ducklake_def execute_batch_def re_err_def checked_def ebind_def ask_def elift_def
      willing_db_def)

lemma willing_setup: "\<exists>w evs. setup_writer willing_db lock_of config [] = (Inr w, evs)"
  by (simp add: setup_writer_def attach_with_gen_def attach_with_compaction_def load_ducklake_def
      ensure_audience_snapshot_table_def ensure_feature_store_table_def ensure_semantic_catalog_table_def
      ensure_suppression_table_def ensure_table_def execute_batch_def checked_def ebind_def ask_def elift_def eret_def
      willing_db_def)

lemma willing_each: "(\<And>x hist. \<exists>hist'. f x hist = (Inr (), hist')) \<Longrightarrow> \<exists>hist'. eeach f xs hist = (Inr (), hist')"
proof (induction xs arbitrary: hist)
  case (Cons x xs)
  then obtain mid where "f x hist = (Inr (), mid)" by blast
  with Cons.IH [OF Cons.prems, of mid] show ?case by (simp add: ebind_def)
qed (simp add: eret_def)

lemma willing_readers: "\<exists>pool hist'. start_readers willing config hist = (Inr pool, hist')"
proof -
  let ?c = "ec_catalog_path config" and ?d = "ec_data_path config"
  let ?workers = "[0 ..< thread_count config]"
  let ?limits = "\<lparr>rl_memory_limit = gc_memory_limit (ec_guardrails config), rl_threads = gc_threads (ec_guardrails config)\<rparr>"
  have "\<exists>hist'. on_log (Reader_call i) (open_reader (sv_reader willing i) ?c ?d) hist = (Inr (), hist')" for i hist
    by (simp add: on_log_def willing_def willing_open)
  from willing_each [of "\<lambda>i. on_log (Reader_call i) (open_reader (sv_reader willing i) ?c ?d)", OF this]
  obtain hist1 where opened: "eeach (\<lambda>i. on_log (Reader_call i) (open_reader (sv_reader willing i) ?c ?d)) ?workers hist = (Inr (), hist1)"
    by blast
  have "\<exists>hist'. spawn willing Execution (Spawn_reader i (read_only_attach_sql ?c ?d) ?limits) hist = (Inr (), hist')" for i hist
    by (simp add: spawn_def ebind_def ask_def elift_def willing_def)
  from willing_each [of "\<lambda>i. spawn willing Execution (Spawn_reader i (read_only_attach_sql ?c ?d) ?limits)", OF this]
  obtain hist2 where "eeach (\<lambda>i. spawn willing Execution (Spawn_reader i (read_only_attach_sql ?c ?d) ?limits)) ?workers hist1 = (Inr (), hist2)"
    by blast
  with opened show ?thesis
    by (simp add: start_readers_def Let_def start_pooled_def ebind_def elift_def eret_def thread_count_def)
qed

lemma willing_build: "\<exists>e hist. engine_build willing (engine_config_default (Some 4)) [] = (Inr e, hist)"
proof -
  obtain w evs where w: "setup_writer willing_db (sv_lock_of willing) (engine_config_default (Some 4)) [] = (Inr w, evs)"
    using willing_setup by blast
  obtain pool hist where pool: "start_readers willing (engine_config_default (Some 4)) (map Writer_call evs) = (Inr pool, hist)"
    using willing_readers by blast
  have name: "FEATURE_NAME_RE ''cadence_sql''" by code_simp
  have cdc: "cdc_topics willing (engine_config_default (Some 4)) = []"
    by (simp add: cdc_topics_def engine_config_default_def)
  have db: "sv_writer willing = willing_db" "sv_random willing = (\<lambda>hist. Inr (replicate 32 7))"
    "sv_spawn willing = (\<lambda>hist. Inr ())"
    by (simp_all add: willing_def)
  show ?thesis
    unfolding engine_build_def db
    by (simp add: ebind_def on_log_def w pool elift_def eret_def ask_def spawn_def db register_spec cadence_new_def name
        producer_get_def dm_get_def producer_registry_new_def dm_empty_def cdc)
qed

theorem startup_order_witness:
  "snd (engine_build willing (engine_config_default (Some 4)) []) = startup_events willing (engine_config_default (Some 4))"
proof -
  have "is_ok (fst (engine_build willing (engine_config_default (Some 4)) []))"
    using willing_build by (auto simp: is_ok_iff)
  with startup_order [of willing "engine_config_default (Some 4)"] show ?thesis by auto
qed

theorem engine_starts_ready_witness:
  "\<exists>e :: built_engine. 0 < rp_workers (ea_pool e) \<and> ea_session e = session_start ''default''"
proof -
  obtain e hist where "engine_build willing (engine_config_default (Some 4)) [] = (Inr e, hist)"
    using willing_build by blast
  from engine_starts_ready [OF this]
  have "0 < rp_workers (ea_pool e)" "ea_session e = session_start (ec_tenant_id (engine_config_default (Some 4)))"
    by blast+
  moreover have "ec_tenant_id (engine_config_default (Some 4)) = ''default''" by (simp add: engine_config_default_def)
  ultimately show ?thesis by auto
qed

text \<open>an engine that finds the lock held stops there: it has made two calls and reports the writer
  held.\<close>

theorem second_instance_stops:
  assumes "de_unit (sv_writer env) [Open_lock lock] = Inr ()" "de_unit (sv_writer env) [Open_lock lock, Try_lock lock] = Inl e"
    "lock = sv_lock_of env (ec_catalog_path config)"
  shows "engine_build env config [] =
    (Inl (Failed WriterAlreadyHeld), [Writer_call (Open_lock lock), Writer_call (Try_lock lock)])"
  using assms
  by (simp add: engine_build_def setup_writer_def attach_with_gen_def attach_with_compaction_def on_log_def ebind_def
      ask_def checked_def elift_def)

definition lock_held :: server_env where
  "lock_held = willing\<lparr>sv_writer := willing_db\<lparr>de_unit := (\<lambda>hist. if length hist = 2 then Inl (Msg ''locked'' []) else Inr ())\<rparr>\<rparr>"

theorem second_instance_stops_witness:
  "engine_build lock_held (engine_config_default None) [] =
    (Inl (Failed WriterAlreadyHeld), [Writer_call (Open_lock ''catalog.db.lock''), Writer_call (Try_lock ''catalog.db.lock'')])"
  by (rule second_instance_stops [where e = "Msg ''locked'' []"])
     (simp_all add: lock_held_def willing_def engine_config_default_def)

end
