(* ===== verification/App_Tasks.thy ===== *)
theory App_Tasks
  imports Ingestion_Kafka Ingestion_Handle Ingestion_Cadence
begin

text \<open>
  The background tasks of \<open>apps/server/src/lib.rs\<close>, the compaction sweep with its supervisor and the
  supervisor of a CDC pump, and the choice of the configuration of \<open>main.rs\<close>. The loops never end by
  themselves; \<open>n\<close> rounds of them are modelled.
\<close>

subsection \<open>The sweep\<close>

datatype sweep_event = Tick | Sweep nat

type_synonym 'a sweeping = "(sweep_event, core_error, 'a) logged"

text \<open>A sweep is the \<open>compact_all\<close> of the writer's handle; its error is a warning.\<close>

fun sweep_rounds :: "(sweep_event list \<Rightarrow> sender) \<Rightarrow> nat \<Rightarrow> nat \<Rightarrow> unit sweeping" where
  "sweep_rounds tx retention_days 0 = eret ()"
| "sweep_rounds tx retention_days (Suc n) =
     ebind (ask Tick (\<lambda>_. ())) (\<lambda>_.
     ebind (ask (Sweep retention_days) (\<lambda>hist. handle_compact_all (tx hist) retention_days)) (\<lambda>_.
     sweep_rounds tx retention_days n))"

definition compaction_loop :: "(sweep_event list \<Rightarrow> sender) \<Rightarrow> nat \<Rightarrow> nat \<Rightarrow> nat \<Rightarrow> unit sweeping" where
  "compaction_loop tx interval_secs retention_days n =
     (if interval_secs = 0 then eret ()
      else ebind (ask Tick (\<lambda>_. ())) (\<lambda>_. sweep_rounds tx retention_days n))"

text \<open>How a spawned task ends.\<close>

datatype ending = Finished | Panicked_task

text \<open>The supervisor's set of tasks: how many run, and how many it has spawned. \<open>join_next\<close> of an
  empty set ends it.\<close>

definition join_next :: "nat \<times> nat \<Rightarrow> ending \<Rightarrow> nat \<times> nat" where
  "join_next = (\<lambda>(running, spawned) e.
     if running = 0 then (running, spawned)
     else (case e of Finished \<Rightarrow> (running - 1, spawned) | Panicked_task \<Rightarrow> (running - 1 + 1, spawned + 1)))"

definition supervise_compaction :: "ending list \<Rightarrow> nat \<times> nat" where
  "supervise_compaction endings = foldl join_next (1, 1) endings"

text \<open>the sweep takes one tick before its first sweep and one before each, so that the first one waits a whole interval; a
  failing sweep does not stop it, and an interval of zero turns it off.\<close>

theorem compaction_loop_events:
  "compaction_loop tx interval_secs retention_days n hist =
     (Inr (), hist @ (if interval_secs = 0 then [] else Tick # concat (replicate n [Tick, Sweep retention_days])))"
proof -
  have "sweep_rounds tx retention_days n hist = (Inr (), hist @ concat (replicate n [Tick, Sweep retention_days]))" for hist
    by (induction n arbitrary: hist) (simp_all add: eret_def ebind_def ask_def)
  then show ?thesis by (simp add: compaction_loop_def eret_def ebind_def ask_def)
qed

lemma join_next_simps:
  "join_next (0, k) e = (0, k)" "join_next (Suc 0, k) Finished = (0, k)" "join_next (Suc 0, k) Panicked_task = (Suc 0, Suc k)"
  by (simp_all add: join_next_def)

lemma joined:
  "foldl join_next (Suc 0, spawned) endings =
     (if Finished \<in> set endings then (0, spawned + length (takeWhile (\<lambda>e. e = Panicked_task) endings))
      else (Suc 0, spawned + length endings))"
proof (induction endings arbitrary: spawned)
  case (Cons e endings)
  have stopped: "foldl join_next (0, k) es = (0, k)" for k es
    by (induction es) (simp_all add: join_next_simps)
  from Cons show ?case by (cases e) (simp_all add: join_next_simps stopped)
qed simp

text \<open>there is never more than one sweep task, a panicking one is replaced by one other, and the
  supervisor ends when one finishes, which only a sweep that is turned off does.\<close>

theorem one_sweep_at_a_time:
  "supervise_compaction endings =
     (if Finished \<in> set endings then (0, 1 + length (takeWhile (\<lambda>e. e = Panicked_task) endings))
      else (1, 1 + length endings))"
  by (simp add: supervise_compaction_def joined)

subsection \<open>The supervisor of a CDC pump\<close>

datatype supervisor_event = Adapter_call kafka_event | Run_pump string | Slept nat

type_synonym 'a supervising = "(supervisor_event, core_error, 'a) logged"

record supervisor_env =
  su_kafka :: "supervisor_event list \<Rightarrow> kafka_env"
  su_ending :: "supervisor_event list \<Rightarrow> ending"

definition RETRY_SECS :: nat where
  "RETRY_SECS = 5"

text \<open>One turn of the loop: an adapter that cannot be made, or a pump that ends either way, is followed by
  the wait.\<close>

definition supervisor_turn :: "supervisor_env \<Rightarrow> string \<Rightarrow> string \<Rightarrow> cdc_topic_config \<Rightarrow> unit supervising" where
  "supervisor_turn env brokers group_id topic hist =
     (case kafka_new (su_kafka env hist) brokers group_id (ct_topic topic) (ct_system topic) (ct_entity topic)
             (ct_columns topic) (ct_key topic) [] of
        (Inl e, calls) \<Rightarrow> ask (Slept RETRY_SECS) (\<lambda>_. ()) (hist @ map Adapter_call calls)
      | (Inr adapter, calls) \<Rightarrow>
          ebind (ask (Run_pump (ka_source adapter)) (su_ending env)) (\<lambda>_. ask (Slept RETRY_SECS) (\<lambda>_. ()))
            (hist @ map Adapter_call calls))"

fun supervise_pump :: "supervisor_env \<Rightarrow> string \<Rightarrow> string \<Rightarrow> cdc_topic_config \<Rightarrow> nat \<Rightarrow> unit supervising" where
  "supervise_pump env brokers group_id topic 0 = eret ()"
| "supervise_pump env brokers group_id topic (Suc n) =
     ebind (supervisor_turn env brokers group_id topic) (\<lambda>_. supervise_pump env brokers group_id topic n)"

definition turn_events :: "string \<Rightarrow> string \<Rightarrow> cdc_topic_config \<Rightarrow> supervisor_event list set" where
  "turn_events brokers group_id topic =
     (let create = Adapter_call (Create_client (client_config brokers group_id));
          subscribe = Adapter_call (Subscribe (ct_topic topic))
      in {[create, Slept RETRY_SECS], [create, subscribe, Slept RETRY_SECS],
          [create, subscribe, Run_pump (source_key (ct_system topic) (ct_entity topic)), Slept RETRY_SECS]})"

lemma supervisor_turn_spec:
  "\<exists>d \<in> turn_events brokers group_id topic. supervisor_turn env brokers group_id topic hist = (Inr (), hist @ d)"
  by (auto simp: supervisor_turn_def kafka_new_def turn_events_def Let_def ebind_def ask_def elift_def eret_def
      split: sum.splits prod.splits)

text \<open>the supervisor of a pump never gives up, whatever its client and its pump do: each of its turns
  makes a client, subscribes it to the topic when it could be made, runs the pump when it could be
  subscribed, and waits five seconds.\<close>

theorem pump_supervisor_persists:
  "\<exists>turns. length turns = n \<and> set turns \<subseteq> turn_events brokers group_id topic \<and>
     supervise_pump env brokers group_id topic n hist = (Inr (), hist @ concat turns)"
proof (induction n arbitrary: hist)
  case (Suc n)
  obtain d where d: "d \<in> turn_events brokers group_id topic" "supervisor_turn env brokers group_id topic hist = (Inr (), hist @ d)"
    using supervisor_turn_spec by blast
  obtain turns where "length turns = n" "set turns \<subseteq> turn_events brokers group_id topic"
    "supervise_pump env brokers group_id topic n (hist @ d) = (Inr (), (hist @ d) @ concat turns)"
    using Suc.IH by blast
  with d show ?case by (intro exI [of _ "d # turns"]) (simp add: ebind_def)
qed (simp add: eret_def)

subsection \<open>The configuration file\<close>

text \<open>\<open>build\<close> and \<open>try_deserialize\<close> are the reading of the file and the decoding of what it holds.\<close>

definition load_config ::
  "(string \<Rightarrow> (msg, 'tree) result) \<Rightarrow> ('tree \<Rightarrow> (msg, engine_config) result) \<Rightarrow> nat option \<Rightarrow> string list \<Rightarrow>
     (msg, engine_config) result"
where
  "load_config build try_deserialize parallelism args =
     (case find (\<lambda>(flag, path). flag = ''--config'') (windows2 args) of
        Some (flag, path) \<Rightarrow>
          map_err (\<lambda>e. Msg ''load config'' [AMsg (display_error e)]) (from_yaml_file build try_deserialize path)
      | None \<Rightarrow> Inr (engine_config_default parallelism))"

lemma windows2_none: "''--config'' \<notin> set (butlast args) \<Longrightarrow> find (\<lambda>(flag, path). flag = ''--config'') (windows2 args) = None"
  by (induction args rule: windows2.induct) auto

lemma windows2_first:
  "''--config'' \<notin> set before \<Longrightarrow>
     find (\<lambda>(flag, path). flag = ''--config'') (windows2 (before @ ''--config'' # path # rest)) = Some (''--config'', path)"
proof (induction before)
  case (Cons a before)
  then show ?case by (cases before) auto
qed simp

text \<open>the word after the first \<open>--config\<close> is the configuration read; without one, a last word
  \<open>--config\<close> included, the defaults are used and no file is read.\<close>

lemma load_config_spec:
  assumes "''--config'' \<notin> set before"
  shows "load_config build try_deserialize parallelism (before @ ''--config'' # path # rest) =
      map_err (\<lambda>e. Msg ''load config'' [AMsg (display_error e)]) (from_yaml_file build try_deserialize path)"
    "load_config build try_deserialize parallelism before = Inr (engine_config_default parallelism)"
    "load_config build try_deserialize parallelism (before @ [''--config'']) = Inr (engine_config_default parallelism)"
  using assms windows2_first [OF assms] windows2_none [of "before"] windows2_none [of "before @ [''--config'']"]
  by (simp_all add: load_config_def in_set_butlastD) (metis in_set_butlastD option.case(1))

end
