(* ===== verification/App_Life.thy ===== *)
theory App_Life
  imports App_Server App_Tasks
begin

text \<open>
  \<open>main\<close> and \<open>Engine::drop\<close> of \<open>apps/server/src/{main,lib}.rs\<close>: the life of the process around the engine,
  from its configuration to the last thing it does, and what becomes of the writer thread when it ends.
  The runtime, the listener and the serving loop are answers of the environment.
\<close>

subsection \<open>The main program\<close>

datatype drop_call = Send_shutdown | Stop_worker nat | Abort_compaction

text \<open>\<open>Engine::drop\<close>: the writer is told to stop and not waited for, each reader is told to stop, the
  supervisor of the sweep is aborted.\<close>

definition engine_drop :: "built_engine \<Rightarrow> drop_call list" where
  "engine_drop e = [Send_shutdown] @ map Stop_worker [0 ..< rp_workers (ea_pool e)] @ [Abort_compaction]"

datatype main_event =
    Load_config | Start_runtime | Build_engine server_log | Bind_listener string | Serve_router | Drop_engine drop_call

record main_env =
  mn_config :: "(msg, engine_config) result"
  mn_runtime :: "(msg, unit) result"
  mn_server :: server_env
  mn_bind :: "string \<Rightarrow> (msg, unit) result"
  mn_serve :: "(msg, unit) result"

definition in_context :: "string \<Rightarrow> (msg, 'a) result \<Rightarrow> (msg, 'a) result" where
  "in_context what r = map_err (\<lambda>e. Msg what [AMsg e]) r"

fun build_failure :: "failure \<Rightarrow> msg" where
  "build_failure (Failed e) = display_error e"
| "build_failure Panicked = Msg ''panicked'' []"

text \<open>Every way out of the block after the engine was built drops it.\<close>

definition served_and_dropped :: "main_env \<Rightarrow> string \<Rightarrow> built_engine \<Rightarrow> (msg, unit) result \<times> main_event list" where
  "served_and_dropped env bind e =
     (let down = map Drop_engine (engine_drop e)
      in case in_context (''bind '' @ bind) (mn_bind env bind) of
           Inl err \<Rightarrow> (Inl err, [Bind_listener bind] @ down)
         | Inr u \<Rightarrow> (in_context ''serve'' (mn_serve env), [Bind_listener bind, Serve_router] @ down))"

definition server_main :: "main_env \<Rightarrow> (msg, unit) result \<times> main_event list" where
  "server_main env =
     (case mn_config env of
        Inl err \<Rightarrow> (Inl err, [Load_config])
      | Inr config \<Rightarrow>
          (case in_context ''tokio runtime'' (mn_runtime env) of
             Inl err \<Rightarrow> (Inl err, [Load_config, Start_runtime])
           | Inr u \<Rightarrow>
               (case engine_build (mn_server env) config [] of
                  (Inl f, calls) \<Rightarrow>
                    (in_context ''build engine'' (Inl (build_failure f)), [Load_config, Start_runtime, Build_engine calls])
                | (Inr e, calls) \<Rightarrow>
                    (let (r, rest) = served_and_dropped env (ec_bind config) e
                     in (r, [Load_config, Start_runtime, Build_engine calls] @ rest)))))"

text \<open>an engine that was built is dropped on every path, as the last thing \<open>main\<close> does: its writer is told
  to stop before any reader, each reader once, and the sweep last; one that was not built leaves nothing
  to drop.\<close>

theorem main_drops_engine:
  "case server_main env of (r, evs) \<Rightarrow>
     (\<exists>before e. evs = before @ map Drop_engine (engine_drop e) \<and> (\<forall>d. Drop_engine d \<notin> set before) \<and>
        (\<exists>config calls. mn_config env = Inr config \<and> engine_build (mn_server env) config [] = (Inr e, calls) \<and>
           Build_engine calls \<in> set before)) \<or>
     (\<not> is_ok r \<and> (\<forall>d. Drop_engine d \<notin> set evs))"
proof (cases "mn_config env")
  case (Inl err)
  then show ?thesis by (simp add: server_main_def)
next
  case config: (Inr config)
  show ?thesis
  proof (cases "mn_runtime env")
    case (Inl err)
    with config show ?thesis by (simp add: server_main_def in_context_def)
  next
    case run: (Inr u)
    show ?thesis
    proof (cases "engine_build (mn_server env) config []")
      case (Pair b calls)
      show ?thesis
      proof (cases b)
        case (Inl f)
        with config run Pair show ?thesis by (simp add: server_main_def in_context_def)
      next
        case (Inr e)
        define before where "before = [Load_config, Start_runtime, Build_engine calls] @
          (if is_ok (mn_bind env (ec_bind config)) then [Bind_listener (ec_bind config), Serve_router] else [Bind_listener (ec_bind config)])"
        have "snd (server_main env) = before @ map Drop_engine (engine_drop e)"
          using config run Pair Inr
          by (cases "mn_bind env (ec_bind config)")
            (simp_all add: server_main_def served_and_dropped_def in_context_def Let_def before_def)
        moreover have "(\<forall>d. Drop_engine d \<notin> set before) \<and> Build_engine calls \<in> set before" by (simp add: before_def)
        ultimately show ?thesis
          using config Pair Inr by (auto simp: case_prod_unfold)
      qed
    qed
  qed
qed

subsection \<open>The writer thread at the end of the process\<close>

text \<open>The writer is a thread of its own: it works while the process lives, and \<open>main\<close> returns, which ends
  the process, as soon as the engine is dropped, that is once the shutdown is in the channel.\<close>

record process =
  pr_session :: session
  pr_over :: bool

inductive process_step :: "store_env \<Rightarrow> micro_batch_config \<Rightarrow> process \<Rightarrow> process \<Rightarrow> bool" for env cfg where
  works: "\<not> pr_over p \<Longrightarrow> session_step env cfg (pr_session p) s \<Longrightarrow> process_step env cfg p (p\<lparr>pr_session := s\<rparr>)"
| ends: "\<not> pr_over p \<Longrightarrow> (i, Shutdown) \<in> set (sn_queue (pr_session p)) \<or> sn_exited (pr_session p) \<Longrightarrow>
    process_step env cfg p (p\<lparr>pr_over := True\<rparr>)"

abbreviation process_steps :: "store_env \<Rightarrow> micro_batch_config \<Rightarrow> process \<Rightarrow> process \<Rightarrow> bool" where
  "process_steps env cfg \<equiv> (process_step env cfg)\<^sup>*\<^sup>*"

definition process_start :: "string \<Rightarrow> process" where
  "process_start t = \<lparr>pr_session = session_start t, pr_over = False\<rparr>"

inductive_cases process_stepE: "process_step env cfg p p'"

lemma process_session:
  "process_steps env cfg (process_start t) p \<Longrightarrow> session_steps env cfg (session_start t) (pr_session p)"
  by (induction rule: rtranclp_induct) (auto simp: process_start_def elim!: process_stepE intro: rtranclp.rtrancl_into_rtrancl)


lemma process_step_works:
  assumes "session_step env cfg s s'"
  shows "process_step env cfg \<lparr>pr_session = s, pr_over = False\<rparr> \<lparr>pr_session = s', pr_over = False\<rparr>"
  using process_step.works [of "\<lparr>pr_session = s, pr_over = False\<rparr>" env cfg s'] assms by simp

lemma process_works:
  "session_steps env cfg s s' \<Longrightarrow>
   process_steps env cfg \<lparr>pr_session = s, pr_over = False\<rparr> \<lparr>pr_session = s', pr_over = False\<rparr>"
proof (induction rule: rtranclp_induct)
  case (step y z)
  from step.IH process_step_works [OF step.hyps(2)] show ?case by (rule rtranclp.rtrancl_into_rtrancl)
qed simp

lemma process_ends:
  assumes "session_steps env cfg (session_start t) s" "(i, Shutdown) \<in> set (sn_queue s) \<or> sn_exited s"
  shows "process_steps env cfg (process_start t) \<lparr>pr_session = s, pr_over = True\<rparr>"
  using rtranclp.rtrancl_into_rtrancl [OF process_works [OF assms(1)]]
    process_step.ends [of "\<lparr>pr_session = s, pr_over = False\<rparr>" i env cfg] assms(2)
  by (simp add: process_start_def)

lemma session_steps_one: "session_step env cfg s s' \<Longrightarrow> session_steps env cfg s s'"
  by (rule r_into_rtranclp)

lemma session_steps_snoc:
  "session_steps env cfg s s' \<Longrightarrow> session_step env cfg s' s'' \<Longrightarrow> session_steps env cfg s s''"
  by (rule rtranclp.rtrancl_into_rtrancl)

lemma session_two_calls:
  "session_steps env cfg (session_start t) ((session_start t)\<lparr>sn_next := 2, sn_queue := [(0, c), (1, d)]\<rparr>)"
proof -
  let ?s1 = "(session_start t)\<lparr>sn_next := 1, sn_queue := [(0, c)]\<rparr>"
  have one: "session_step env cfg (session_start t) ?s1"
    using session_step.call [of "session_start t" env cfg c] by (simp add: session_start_def CHANNEL_CAPACITY_def)
  have two: "session_step env cfg ?s1 ((session_start t)\<lparr>sn_next := 2, sn_queue := [(0, c), (1, d)]\<rparr>)"
    using session_step.call [of ?s1 env cfg d] by (simp add: session_start_def CHANNEL_CAPACITY_def numeral_2_eq_2)
  show ?thesis by (rule session_steps_snoc [OF session_steps_one [OF one] two])
qed

lemma drained_process:
  "\<exists>p. process_steps all_ok small_batches (process_start ''t'') p \<and> pr_over p \<and> sn_exited (pr_session p) \<and>
     map (fst \<circ> snd) (sn_done (pr_session p)) = [one_row ''acme'' ''u1'', Shutdown]"
proof -
  let ?s2 = "(session_start ''t'')\<lparr>sn_next := 2, sn_queue := [(0, one_row ''acme'' ''u1''), (1, Shutdown)]\<rparr>"
  obtain r w where three: "session_step all_ok small_batches ?s2 (?s2\<lparr>sn_queue := [(1, Shutdown)],
      sn_done := sn_done ?s2 @ [(0, one_row ''acme'' ''u1'', r)], sn_exited := (one_row ''acme'' ''u1'' = Shutdown), sn_writer := w\<rparr>)"
    (is "session_step _ _ _ ?s3")
    using take_first [of ?s2 0 "one_row ''acme'' ''u1''" "[(1, Shutdown)]" all_ok small_batches]
    by (auto simp: session_start_def)
  have live: "\<not> sn_exited ?s3" "sn_queue ?s3 = [(1, Shutdown)]" by (simp_all add: one_row_def)
  obtain r' w' where four: "session_step all_ok small_batches ?s3 (?s3\<lparr>sn_queue := [],
      sn_done := sn_done ?s3 @ [(1, Shutdown, r')], sn_exited := (Shutdown = Shutdown), sn_writer := w'\<rparr>)"
    (is "session_step _ _ _ ?s4")
    using take_first [OF live, of all_ok small_batches] by blast
  have "session_steps all_ok small_batches (session_start ''t'') ?s4"
    by (rule session_steps_snoc [OF session_steps_snoc [OF session_two_calls three] four])
  from process_ends [OF this, of 0] show ?thesis
    by (intro exI [of _ "\<lparr>pr_session = ?s4, pr_over = True\<rparr>"]) (simp add: session_start_def)
qed


text \<open>but a process need not wait for that: \<open>Engine::drop\<close> only sends the shutdown. An ingest below the
  threshold is answered with success, the engine is dropped, \<open>main\<close> returns and the process is over with
  the rows still in the buffer and nothing handed to the storage.\<close>

theorem graceful_exit_loses_rows:
  assumes "length rows < mb_flush_rows cfg"
  shows "\<exists>p. process_steps env cfg (process_start t) p \<and> pr_over p \<and> (\<nexists>q. process_step env cfg p q) \<and>
    sn_done (pr_session p) = [(0, IngestRaw sys ent columns rows tenant, Reply_count (Inr 0))] \<and>
    (\<exists>i. sn_queue (pr_session p) = [(i, Shutdown)]) \<and> ws_log (sn_writer (pr_session p)) = []"
proof -
  let ?cmd = "IngestRaw sys ent columns rows tenant"
  let ?s0 = "session_start t"
  let ?s1 = "?s0\<lparr>sn_next := 1, sn_queue := [(0, ?cmd)]\<rparr>"
  let ?s2 = "?s1\<lparr>sn_queue := [], sn_done := [(0, ?cmd, Reply_count (Inr 0))], sn_exited := False,
    sn_writer := held tenant sys ent columns rows 0\<rparr>"
  let ?s3 = "?s2\<lparr>sn_next := 2, sn_queue := [(1, Shutdown)]\<rparr>"
  have one: "session_step env cfg ?s0 ?s1"
    using session_step.call [of ?s0 env cfg ?cmd] by (simp add: session_start_def CHANNEL_CAPACITY_def)
  have two: "session_step env cfg ?s1 ?s2"
    using session_step.take [of ?s1 0 ?cmd "[]" env cfg 0 0] assms
    by (simp add: session_start_def ingest_start)
  have three: "session_step env cfg ?s2 ?s3"
    using session_step.call [of ?s2 env cfg Shutdown] by (simp add: session_start_def CHANNEL_CAPACITY_def numeral_2_eq_2)
  have "session_steps env cfg ?s0 ?s3"
    by (rule session_steps_snoc [OF session_steps_snoc [OF session_steps_one [OF one] two] three])
  from process_ends [OF this, of 1] have "process_steps env cfg (process_start t) \<lparr>pr_session = ?s3, pr_over = True\<rparr>"
    by simp
  moreover have "\<nexists>q. process_step env cfg \<lparr>pr_session = ?s3, pr_over = True\<rparr> q" by (auto elim: process_stepE)
  ultimately show ?thesis
    by (intro exI [of _ "\<lparr>pr_session = ?s3, pr_over = True\<rparr>"]) (simp add: held_def)
qed

theorem graceful_exit_loses_rows_witness:
  "\<exists>p. process_steps all_ok micro_batch_default (process_start ''default'') p \<and> pr_over p \<and>
     sn_done (pr_session p) = [(0, one_row ''acme'' ''u1'', Reply_count (Inr 0))] \<and> ws_log (sn_writer (pr_session p)) = []"
  using graceful_exit_loses_rows [of "[[Some ''u1'']]" micro_batch_default all_ok "''default''" "''crm''" "''users''" "[''user_id'']" "''acme''"]
  by (auto simp: micro_batch_default_def one_row_def)

end
