(* ===== verification/Spec2Isabelle.thy ===== *)
theory Spec2Isabelle
  imports Semantic_Rag Semantic_Profiler_Spec Query_Profile_Spec Core_Freshness Query_Materialise Ingestion_Writer_Spec Ingestion_Cdc_Spec
    Ingestion_Cadence Storage_Spec Ingress_Reads App_Life
begin

text \<open>
  Verification development of the consumer engine (\<open>crates/*\<close> and \<open>apps/server\<close>, Rust).

  \<^bold>\<open>The program.\<close> A multi-tenant service over one DuckLake database. An HTTP request is authenticated
  to a tenant and routed to a handler. A handler either asks the query engine, which validates a segment
  written in a JSON language, compiles it to one SQL statement with bound parameters and runs it on a pool
  of read-only workers under guardrails, or sends a command to the one writer thread. The writer buffers
  raw rows per tenant and table and hands them, with everything else that changes the database (features,
  suppressions, the semantic catalogue, change-data batches, snapshots, compaction), to the storage
  operations, and advances a generation the read workers watch. Around them: a registry of asynchronous
  materialisation jobs, pumps from Kafka, feature producers, a profiler that describes the columns of a
  source when it is onboarded, retrieval over those descriptions, a compaction sweep, and the server that
  starts and drops all of this.

  \<^bold>\<open>How it is modelled.\<close> Structs are records, enums are datatypes with the source's constructors,
  \<open>Result\<close> is a sum with \<open>?\<close> as \<open>rbind\<close> (\<open>Prelude\<close>). Code that talks to the outside is state passing over
  the log of what it asked (\<open>Effects\<close>: \<open>logged\<close>, \<open>ebind\<close>, \<open>ask\<close>); what comes back is the choice of an
  environment that sees the whole log, so a theorem over all environments covers every behaviour of the
  database, the network and the other threads. Threads that meet over channels, and the life of a job, are
  step relations. SQL is built as the text the code builds, character by character. Machine integers are
  numbers with the wrap-around written out where it can happen (\<open>wrap_i64\<close>, \<open>as_u32\<close>, \<open>wrap_u64\<close>, the
  round-robin counter), bytes of a token are 8-bit words, and floating point is computed exactly as IEEE 754
  does (\<open>Float64\<close>). A message is a template with its arguments (\<open>msg\<close>), so different errors stay different.

  \<^bold>\<open>The parts, their theories and what is proved.\<close> Each theory opens with the files it models.

  \<^item> Shared: \<open>Prelude\<close> (results, strings, decimal numerals, placeholders), \<open>Effects\<close> (logged operations and
    their contracts \<open>ensures\<close> and \<open>emits\<close>), \<open>Keyed_Maps\<close> (\<open>DashMap\<close> and \<open>BTreeMap\<close> behind the locales
    \<open>kv_store\<close>, \<open>kv_multimap\<close>, \<open>ordered_kv_store\<close>), \<open>Json\<close> (\<open>serde_json::Value\<close>), \<open>Float64\<close> and
    \<open>Float64_Props\<close> (rounding is to the nearest float, comparisons and sums behave).
  \<^item> \<open>crates/core\<close>: \<open>Core_Ident\<close> (errors, identifier allowlists, row types), \<open>Core_Labels\<close> (closed enums and
    their codecs, locale \<open>label_codec\<close>), \<open>Core_Freshness\<close> (registry, lag, worst label), \<open>Core_Config\<close>,
    \<open>Core_Decimal\<close> (\<open>str::parse::<u64>\<close>).
  \<^item> \<open>crates/query\<close>: \<open>Query_Ast\<close>, \<open>Query_Parse\<close> (the validator accepts exactly the well-formed segments),
    \<open>Query_Compiler\<close> (the SQL text with its parameter vector). \<open>Query_Plan\<close> and \<open>Query_Refinement\<close> give what the
    text must be, a structured plan rendered to text and bindings; \<open>Query_Isolation\<close> a meaning of plans;
    \<open>Query_Safety\<close> what follows: parameters bind in place, other tenants' rows have no effect, no value is in
    the text, and exactly when compilation succeeds. \<open>Query_Guardrail\<close> (budget, reading EXPLAIN),
    \<open>Query_Engine\<close> and \<open>Query_Profile\<close> (the engine's operations), \<open>Query_Guards\<close> (every statement read is scoped,
    catalogue enforcement is sound, nothing over budget runs), \<open>Query_Materialise\<close> (the writing statement),
    \<open>Query_Profile_Spec\<close> (shares lie in the unit interval).
  \<^item> \<open>crates/storage\<close>: \<open>Storage_Base\<close> (connection, transaction, chunks), \<open>Storage_Raw\<close> (appends, merges, the CDC
    batch), \<open>Storage_Tables\<close> (the engine's own tables, snapshots, maintenance, attach). \<open>Storage_Trace\<close> says
    what they send, \<open>Storage_Merge\<close> and \<open>Storage_Cdc\<close> what a batch does to its table, \<open>Storage_Calls\<close> that
    statements are well bound and stamped with the tenant; \<open>Storage_Spec\<close> holds the properties.
  \<^item> \<open>crates/ingestion\<close>: \<open>Ingestion_Writer\<close> (the writer thread: its commands, buffers, flushes), with
    \<open>Ingestion_Writer_Props\<close> (locales \<open>served_invariant\<close> and \<open>writer_invariant\<close>), \<open>Ingestion_Writer_Log\<close> and
    \<open>Ingestion_Writer_Spec\<close> (rows are conserved, batches bounded, calls stamped, compaction complete);
    \<open>Ingestion_Handle\<close> (concurrent callers over the bounded channel refine the loop);
    \<open>Ingestion_Pipeline\<close> (the thread composed with the storage operations: received rows are the inserted
    rows); \<open>Ingestion_Cdc\<close>, \<open>Ingestion_Cdc_Spec\<close> (locale \<open>stream_source\<close>: the pump neither loses nor repeats a
    change it took), \<open>Ingestion_Kafka\<close> (resuming ends and seeks exactly the committed offsets),
    \<open>Ingestion_Producers\<close>, \<open>Ingestion_Cadence\<close> (one score per user, from that user's times).
  \<^item> \<open>crates/execution\<close>: \<open>Execution_Reader\<close> (a worker, values as JSON), \<open>Execution_Refresh\<close> (the refresh against
    the writer, thread by thread), \<open>Execution_Spec\<close> (what a query sees of announced commits),
    \<open>Execution_Pool\<close> (callers, channels and workers together: each caller gets the answer to its own query).
  \<^item> \<open>crates/semantic\<close>: \<open>Semantic_Cells\<close>, \<open>Semantic_Llm\<close> (the clients with their retries), \<open>Semantic_Profiler\<close>,
    \<open>Semantic_Profiler_Spec\<close> (values of a personal column have no effect), \<open>Semantic_Rag\<close> (retrieval returns the
    best hits; locale \<open>comparison\<close> for \<open>sort_by\<close>).
  \<^item> \<open>crates/ingress\<close>: \<open>Ingress_Auth\<close>, \<open>Ingress_Presign\<close> (a token verifies exactly until its expiry),
    \<open>Ingress_Handlers\<close>, \<open>Ingress_Jobs\<close> (the life cycle of jobs, answered to their owner only), \<open>Ingress_Router\<close>,
    \<open>Ingress_Spec\<close> (validation before effects, guarded operations behind their guard), and \<open>Ingress_System\<close>,
    which composes them: a request acts for its caller only, and every statement the writer sends the database
    carries the tenant of a caller behind it; \<open>Ingress_Reads\<close> says the same of the queries the read pool runs.
  \<^item> \<open>apps/server\<close>: \<open>App_Server\<close> (\<open>Engine::build\<close>, one order of starting), \<open>App_Tasks\<close> (sweep and supervisors),
    \<open>App_Life\<close> (\<open>main\<close>, \<open>Engine::drop\<close>, and what the writer thread leaves behind when the process ends).

  Theorems that show a defect or a divergence from a comment (a race that hides a commit, a failed re-attach
  that is permanent, rows lost at a graceful exit, and others) stand beside the properties they limit.

  \<^bold>\<open>Bounds and termination.\<close> There is no fuel in the definitions. Recursion follows the data; the compiler and the collectors
  recurse on the size of the segment, the EXPLAIN walk on the size of the JSON value, chunking on the
  length of the list. Loops of the code that have no end of their own (the writer, a worker, the pump, the
  sweep) consume the list of what they are woken by, or are step relations; a supervisor is given by the
  number of its rounds. The ten seconds the Kafka consumer waits are the number of polls that fit into them.
  The numeric limits are those of the code: nesting 8, operators 32, channels of 64, statements of 65,535
  parameters, 500 rows or keys in a merge.

  \<^bold>\<open>Parameters.\<close> Code that is not in the repository is an argument: SHA-256 and HMAC, chrono's parsers and
  formats, serde's decoders of bodies and of the configuration, UUIDs, clocks, what DuckDB, Kafka and the
  HTTP services answer. Where a property needs such code to behave as documented (\<open>documented\<close>: the merges of
  DuckDB; \<open>stream_source\<close>: a stream read in order), that is a hypothesis, with a witness that meets it.

  \<^bold>\<open>Not modelled.\<close> The HTTP transport, axum's body limit and serde's derived codecs; YAML; logging, metrics and
  the redacted \<open>Debug\<close> implementations; the listener, the runtime and the signals, whose outcomes are answers of
  the environment; the release of the file lock when the writer is dropped; the exit of a read worker whose
  last handle is gone; the measurement programs under \<open>examples\<close> and \<open>benches\<close>, and the tests. Memory and time
  are not bounded, and counters of rows are unbounded numbers.
\<close>

end
